theory Spec2Isabelle
  imports Main "HOL-Library.AList"
begin

section \<open>Bot SDK plumbing layer (agent/sdk.ts)\<close>

text \<open>
  The class \<open>BotSDK\<close> is event driven: its methods and the handlers it installs on the
  socket and on timers run one at a time and mutate the fields of the object. The model
  is a record of those fields, one function per method or handler that takes the record
  and returns it updated, and a step function that dispatches one event. What the
  platform owns (the sockets with their ready state, the timers that are armed, the
  promises with the calls made to their resolve and reject functions, the microtask
  queue) is part of the record as well, since the handlers read and write it.
\<close>

subsection \<open>Values\<close>

text \<open>
  What \<open>JSON.parse\<close> returns. Numbers are kept as integers: the code looks at a number
  only to test whether it is truthy.
\<close>

datatype json =
    JNull
  | JBool bool
  | JNum int
  | JStr string
  | JArr "json list"
  | JObj "(string \<times> json) list"

text \<open>JavaScript truthiness of a parsed value.\<close>

fun truthy :: "json \<Rightarrow> bool" where
  "truthy JNull = False"
| "truthy (JBool b) = b"
| "truthy (JNum n) = (n \<noteq> 0)"
| "truthy (JStr s) = (s \<noteq> [])"
| "truthy (JArr xs) = True"
| "truthy (JObj kvs) = True"

text \<open>
  Reading property \<open>k\<close> of a value that is not \<open>null\<close>: \<open>None\<close> is \<open>undefined\<close>. None
  of the properties the code reads (type, state, actionId, result, error) exists on a
  boolean, number, string or array.
\<close>

fun field :: "json \<Rightarrow> string \<Rightarrow> json option" where
  "field (JObj kvs) k = map_of kvs k"
| "field v k = None"

definition truthy_field :: "json \<Rightarrow> string \<Rightarrow> bool" where
  "truthy_field m k = (case field m k of None \<Rightarrow> False | Some v \<Rightarrow> truthy v)"

text \<open>
  \<open>Error v\<close> is \<open>new Error(v)\<close>; its message is \<open>v\<close> when \<open>v\<close> is a string.
  \<open>TypeError\<close> is what reading a property of \<open>null\<close> throws.
\<close>

datatype js_error = Error json | TypeError

datatype ready_state = CONNECTING | OPEN | CLOSING | CLOSED

datatype connection_state = Disconnected | Connecting | Connected | Reconnecting

fun state_name :: "connection_state \<Rightarrow> string" where
  "state_name Disconnected = ''disconnected''"
| "state_name Connecting = ''connecting''"
| "state_name Connected = ''connected''"
| "state_name Reconnecting = ''reconnecting''"

text \<open>A \<open>BotAction\<close>: an object with a string \<open>type\<close> and further fields.\<close>

record bot_action =
  action_type :: string
  action_fields :: "(string \<times> json) list"

definition action_json :: "bot_action \<Rightarrow> json" where
  "action_json a = JObj ((''type'', JStr (action_type a)) # action_fields a)"

subsection \<open>Configuration\<close>

datatype limit = Finite int | Infinity

text \<open>\<open>SDKConfig\<close>: every field but the user name is optional.\<close>

record SDKConfig =
  cfg_botUsername :: string
  cfg_actionTimeout :: "int option"
  cfg_autoReconnect :: "bool option"
  cfg_reconnectMaxRetries :: "limit option"
  cfg_reconnectBaseDelay :: "int option"
  cfg_reconnectMaxDelay :: "int option"

text \<open>\<open>Required<SDKConfig>\<close>, as the constructor fills it in.\<close>

record sdk_config =
  botUsername :: string
  actionTimeout :: int
  autoReconnect :: bool
  reconnectMaxRetries :: limit
  reconnectBaseDelay :: int
  reconnectMaxDelay :: int

text \<open>\<open>x || d\<close> on an optional number and \<open>x ?? d\<close> on an optional value.\<close>

definition or_default :: "int option \<Rightarrow> int \<Rightarrow> int" where
  "or_default x d = (case x of None \<Rightarrow> d | Some v \<Rightarrow> if v = 0 then d else v)"

definition nullish_default :: "'a option \<Rightarrow> 'a \<Rightarrow> 'a" where
  "nullish_default x d = (case x of None \<Rightarrow> d | Some v \<Rightarrow> v)"

definition fill_config :: "SDKConfig \<Rightarrow> sdk_config" where
  "fill_config c =
     \<lparr> botUsername = cfg_botUsername c,
       actionTimeout = or_default (cfg_actionTimeout c) 30000,
       autoReconnect = nullish_default (cfg_autoReconnect c) True,
       reconnectMaxRetries = nullish_default (cfg_reconnectMaxRetries c) Infinity,
       reconnectBaseDelay = nullish_default (cfg_reconnectBaseDelay c) 1000,
       reconnectMaxDelay = nullish_default (cfg_reconnectMaxDelay c) 30000 \<rparr>"

subsection \<open>Promises, timers, listeners\<close>

text \<open>
  A promise is named by the call that created it. The record keeps, in order, every call
  made to a resolve or reject function; a promise is settled by the first call made for
  it. A resolve without a value is recorded with \<open>JNull\<close>.
\<close>

datatype promise =
    ConnectPromise nat
  | ActionFuture nat
  | WaitConnection nat
  | WaitCondition nat
  | WaitStateChange nat

datatype outcome = Resolved json | Rejected js_error

text \<open>
  \<open>PendingAction\<close>: \<open>resolve\<close> and \<open>reject\<close> are the two functions of one promise,
  the one \<open>sendAction\<close> returns; \<open>future\<close> is the number of that promise and
  \<open>timeout\<close> the handle \<open>setTimeout\<close> returned.
\<close>

record pending_action =
  future :: nat
  timeout :: nat

text \<open>The closures passed to \<open>setTimeout\<close>, with the variables they capture.\<close>

datatype timer_callback =
    ConnectTimeout nat
  | ReconnectTimer
  | WaitConnectionTimeout nat nat
  | ActionTimeout string nat string
  | WaitConditionTimeout nat nat
  | WaitStateChangeTimeout nat nat

record timer =
  delay :: int
  callback :: timer_callback

text \<open>
  The functions in \<open>stateListeners\<close>. A caller's listener is opaque: it returns or
  throws, and does not call back into the SDK. The other two are the closures that
  \<open>waitForCondition\<close> and \<open>waitForStateChange\<close> subscribe, with the timer handle
  and promise they capture; a predicate returns a boolean or throws.
\<close>

datatype state_listener =
    UserStateListener "json \<Rightarrow> js_error option"
  | WaitForConditionListener "json \<Rightarrow> js_error + bool" nat nat
  | WaitForStateChangeListener nat nat

text \<open>The functions in \<open>connectionListeners\<close>, likewise.\<close>

datatype connection_listener =
    UserConnectionListener "connection_state \<Rightarrow> nat option \<Rightarrow> js_error option"
  | WaitForConnectionListener nat nat

text \<open>
  \<open>sendAction\<close> suspended at \<open>await this.waitForConnection()\<close>: the promise it will
  settle, the action, and the action id it generates when it resumes.
\<close>

datatype continuation = SendActionAwait nat bot_action string

text \<open>
  A WebSocket created by \<open>connect\<close>, with what its handlers capture: the handle of the
  10 second timer, the promise of that \<open>connect\<close> call, and whether the
  \<open>checkConnected\<close> listener is still attached.
\<close>

record socket =
  readyState :: ready_state
  connectTimer :: nat
  connectResolver :: nat
  checkConnected_attached :: bool

subsection \<open>The object\<close>

record sdk =
  config :: sdk_config
  ws :: "nat option"
  state :: "json option"
  pendingActions :: "(string \<times> pending_action) list"
  stateListeners :: "(nat \<times> state_listener) list"
  connectionListeners :: "(nat \<times> connection_listener) list"
  connectPromise :: "nat option"
  sdkClientId :: string
  connectionState :: connection_state
  reconnectAttempt :: nat
  reconnectTimer :: "nat option"
  intentionalDisconnect :: bool
  sockets :: "nat \<Rightarrow> socket option"
  timers :: "nat \<Rightarrow> timer option"
  settled :: "(promise \<times> outcome) list"
  sent :: "(nat \<times> json) list"
  notified :: "(nat \<times> json) list"
  console_errors :: "(string \<times> js_error) list"
  awaiting :: "(nat \<times> continuation) list"
  microtasks :: "(continuation \<times> outcome) list"
  fresh :: nat

text \<open>
  The two Maps and Sets of the class are association lists in insertion order
  (\<open>AList.update\<close> keeps the place of a key that is present and appends a new one, as
  \<open>Map.set\<close> and \<open>Set.add\<close> do). The fields from \<open>sockets\<close> on belong to the platform:
  the sockets by number, the armed timers by handle, the calls made to resolve and
  reject functions, the messages passed to \<open>ws.send\<close> with the socket they went to, the
  calls made to state listeners, the exceptions passed to \<open>console.error\<close>, the suspended \<open>sendAction\<close> calls by the
  \<open>waitForConnection\<close> promise they await, the queued microtasks, and the next unused
  number for a handle, socket, listener or promise.
\<close>

definition new_BotSDK :: "SDKConfig \<Rightarrow> string \<Rightarrow> sdk" where
  "new_BotSDK c clientId =
     \<lparr> config = fill_config c,
       ws = None,
       state = None,
       pendingActions = [],
       stateListeners = [],
       connectionListeners = [],
       connectPromise = None,
       sdkClientId = clientId,
       connectionState = Disconnected,
       reconnectAttempt = 0,
       reconnectTimer = None,
       intentionalDisconnect = False,
       sockets = (\<lambda>i. None),
       timers = (\<lambda>t. None),
       settled = [],
       sent = [],
       notified = [],
       console_errors = [],
       awaiting = [],
       microtasks = [],
       fresh = 0 \<rparr>"

subsection \<open>Platform primitives\<close>

text \<open>\<open>clearTimeout\<close>; calls to resolve and reject; \<open>Set.delete\<close> on the listener sets.\<close>

definition clearTimeout :: "nat \<Rightarrow> sdk \<Rightarrow> sdk" where
  "clearTimeout t s = s\<lparr>timers := (timers s)(t := None)\<rparr>"

definition settle :: "promise \<Rightarrow> outcome \<Rightarrow> sdk \<Rightarrow> sdk" where
  "settle p r s = s\<lparr>settled := settled s @ [(p, r)]\<rparr>"

text \<open>
  Settling the promise of a \<open>waitForConnection\<close> call also queues the \<open>sendAction\<close>
  that awaits it, if there is one, as a microtask.
\<close>

definition settleWaitConnection :: "nat \<Rightarrow> outcome \<Rightarrow> sdk \<Rightarrow> sdk" where
  "settleWaitConnection p r s =
     (let s1 = settle (WaitConnection p) r s
      in case map_of (awaiting s1) p of
           None \<Rightarrow> s1
         | Some k \<Rightarrow> s1\<lparr>awaiting := AList.delete p (awaiting s1),
                        microtasks := microtasks s1 @ [(k, r)]\<rparr>)"

definition unsubscribeState :: "nat \<Rightarrow> sdk \<Rightarrow> sdk" where
  "unsubscribeState l s = s\<lparr>stateListeners := AList.delete l (stateListeners s)\<rparr>"

definition unsubscribeConnection :: "nat \<Rightarrow> sdk \<Rightarrow> sdk" where
  "unsubscribeConnection l s = s\<lparr>connectionListeners := AList.delete l (connectionListeners s)\<rparr>"

text \<open>\<open>WebSocket.close()\<close>: a socket that is not closed yet starts closing.\<close>

definition socket_close :: "nat \<Rightarrow> sdk \<Rightarrow> sdk" where
  "socket_close w s =
     (case sockets s w of
        None \<Rightarrow> s
      | Some sk \<Rightarrow>
          if readyState sk = CLOSED then s
          else s\<lparr>sockets := (sockets s)(w \<mapsto> sk\<lparr>readyState := CLOSING\<rparr>)\<rparr>)"

subsection \<open>Connection\<close>

definition isConnected :: "sdk \<Rightarrow> bool" where
  "isConnected s =
     (case ws s of
        None \<Rightarrow> False
      | Some w \<Rightarrow> (case sockets s w of None \<Rightarrow> False | Some sk \<Rightarrow> readyState sk = OPEN))"

definition send :: "json \<Rightarrow> sdk \<Rightarrow> sdk" where
  "send m s =
     (case ws s of
        None \<Rightarrow> s
      | Some w \<Rightarrow>
          (case sockets s w of
             None \<Rightarrow> s
           | Some sk \<Rightarrow> if readyState sk = OPEN then s\<lparr>sent := sent s @ [(w, m)]\<rparr> else s))"

text \<open>
  A connection listener called with a state: \<open>Inl\<close> is the exception it throws. The
  second is the listener that \<open>waitForConnection\<close> subscribes.
\<close>

fun callConnectionListener ::
  "nat \<Rightarrow> connection_listener \<Rightarrow> connection_state \<Rightarrow> nat option \<Rightarrow> sdk \<Rightarrow> js_error + sdk" where
  "callConnectionListener l (UserConnectionListener f) st a s =
     (case f st a of None \<Rightarrow> Inr s | Some e \<Rightarrow> Inl e)"
| "callConnectionListener l (WaitForConnectionListener t p) st a s =
     (if st = Connected then
        Inr (settleWaitConnection p (Resolved JNull) (unsubscribeConnection l (clearTimeout t s)))
      else if st = Disconnected then
        Inr (settleWaitConnection p (Rejected (Error (JStr ''Connection failed'')))
               (unsubscribeConnection l (clearTimeout t s)))
      else Inr s)"

text \<open>
  The body of the loop in \<open>setConnectionState\<close>: an exception of the listener is
  caught and passed to \<open>console.error\<close>.
\<close>

definition tryConnectionListener ::
  "nat \<Rightarrow> connection_listener \<Rightarrow> connection_state \<Rightarrow> nat option \<Rightarrow> sdk \<Rightarrow> sdk" where
  "tryConnectionListener l f st a s =
     (case callConnectionListener l f st a s of
        Inr s' \<Rightarrow> s'
      | Inl e \<Rightarrow> s\<lparr>console_errors := console_errors s @ [(''Connection listener error:'', e)]\<rparr>)"

text \<open>
  \<open>for (const listener of this.connectionListeners)\<close>: the loop visits the entries in
  insertion order and skips one that was deleted before its turn.
\<close>

fun notifyConnection :: "nat list \<Rightarrow> connection_state \<Rightarrow> nat option \<Rightarrow> sdk \<Rightarrow> sdk" where
  "notifyConnection [] st a s = s"
| "notifyConnection (l # ls) st a s =
     (case map_of (connectionListeners s) l of
        None \<Rightarrow> notifyConnection ls st a s
      | Some f \<Rightarrow> notifyConnection ls st a (tryConnectionListener l f st a s))"

definition setConnectionState :: "connection_state \<Rightarrow> nat option \<Rightarrow> sdk \<Rightarrow> sdk" where
  "setConnectionState st a s =
     (let s1 = s\<lparr>connectionState := st\<rparr>
      in notifyConnection (map fst (connectionListeners s1)) st a s1)"

text \<open>
  \<open>this.reconnectAttempt >= this.config.reconnectMaxRetries\<close>, and \<open>scheduleReconnect\<close>.
  The numbers of the configuration are integers here, and the delay is computed in
  integers. The code computes it in doubles, which give the same number when the base
  delay is positive: the product with a power of two is exact until it overflows to
  \<open>Infinity\<close>, and the minimum of \<open>Infinity\<close> and the cap is the cap. For a base delay
  of zero or below the two differ once the power overflows (the code gets \<open>NaN\<close> or
  \<open>-Infinity\<close>), so what is proved about the delay assumes a positive base delay.
\<close>

definition retries_exhausted :: "nat \<Rightarrow> limit \<Rightarrow> bool" where
  "retries_exhausted n m = (case m of Infinity \<Rightarrow> False | Finite k \<Rightarrow> k \<le> int n)"

definition scheduleReconnect :: "sdk \<Rightarrow> sdk" where
  "scheduleReconnect s =
     (if retries_exhausted (reconnectAttempt s) (reconnectMaxRetries (config s)) then
        setConnectionState Disconnected None s
      else
        let s1 = s\<lparr>reconnectAttempt := reconnectAttempt s + 1\<rparr>;
            s2 = setConnectionState Reconnecting (Some (reconnectAttempt s1)) s1;
            d = min (reconnectBaseDelay (config s2) * 2 ^ (reconnectAttempt s2 - 1))
                    (reconnectMaxDelay (config s2));
            t = fresh s2
        in s2\<lparr>reconnectTimer := Some t,
               timers := (timers s2)(t \<mapsto> \<lparr>delay = d, callback = ReconnectTimer\<rparr>),
               fresh := Suc t\<rparr>)"

text \<open>
  \<open>connect\<close> returns \<open>None\<close> when it returns at once (the socket is open) and otherwise
  the number of the promise it hands out. The new socket takes the next number, its
  10 second timer the one after.
\<close>

definition connect :: "sdk \<Rightarrow> nat option \<times> sdk" where
  "connect s =
     (if isConnected s then (None, s)
      else case connectPromise s of
        Some p \<Rightarrow> (Some p, s)
      | None \<Rightarrow>
          let s1 = s\<lparr>intentionalDisconnect := False\<rparr>;
              s2 = (if connectionState s1 = Reconnecting then s1
                    else setConnectionState Connecting None s1);
              p = fresh s2;
              w = p + 1;
              t = p + 2;
              s3 = s2\<lparr>ws := Some w,
                      sockets := (sockets s2)(w \<mapsto>
                        \<lparr>readyState = CONNECTING, connectTimer = t, connectResolver = p,
                         checkConnected_attached = True\<rparr>),
                      timers := (timers s2)(t \<mapsto>
                        \<lparr>delay = 10000, callback = ConnectTimeout p\<rparr>),
                      connectPromise := Some p,
                      fresh := p + 3\<rparr>
          in (Some p, s3))"

text \<open>\<open>ws.onopen\<close> of socket \<open>w\<close>.\<close>

definition onopen :: "nat \<Rightarrow> sdk \<Rightarrow> sdk" where
  "onopen w s =
     (case sockets s w of
        None \<Rightarrow> s
      | Some sk \<Rightarrow>
          send (JObj [(''type'', JStr ''sdk_connect''),
                      (''username'', JStr (botUsername (config s))),
                      (''clientId'', JStr (sdkClientId s))])
            (clearTimeout (connectTimer sk) s))"

text \<open>The loop of \<open>ws.onclose\<close> over the pending actions.\<close>

fun rejectPending :: "(string \<times> pending_action) list \<Rightarrow> sdk \<Rightarrow> sdk" where
  "rejectPending [] s = s"
| "rejectPending ((actionId, pending) # ps) s =
     rejectPending ps
       (settle (ActionFuture (future pending)) (Rejected (Error (JStr ''Connection closed'')))
          (clearTimeout (timeout pending) s))"

text \<open>\<open>ws.onclose\<close>; the handler reads nothing of the socket it is installed on.\<close>

definition onclose :: "sdk \<Rightarrow> sdk" where
  "onclose s =
     (let s1 = s\<lparr>connectPromise := None, ws := None\<rparr>;
          s2 = rejectPending (pendingActions s1) s1;
          s3 = s2\<lparr>pendingActions := []\<rparr>
      in if autoReconnect (config s3) \<and> \<not> intentionalDisconnect s3 then scheduleReconnect s3
         else setConnectionState Disconnected None s3)"

text \<open>\<open>ws.onerror\<close> of socket \<open>w\<close>.\<close>

definition onerror :: "nat \<Rightarrow> sdk \<Rightarrow> sdk" where
  "onerror w s =
     (case sockets s w of
        None \<Rightarrow> s
      | Some sk \<Rightarrow>
          settle (ConnectPromise (connectResolver sk)) (Rejected (Error (JStr ''WebSocket error'')))
            (clearTimeout (connectTimer sk) s))"

text \<open>
  The listener \<open>checkConnected\<close> of socket \<open>w\<close>. \<open>JSON.parse\<close> is a parameter:
  \<open>None\<close> when it throws. The listener detaches itself from \<open>this.ws\<close>, which need not
  be the socket it is attached to. Its \<open>try\<close> block swallows every exception.
\<close>

definition checkConnected :: "(string \<Rightarrow> json option) \<Rightarrow> nat \<Rightarrow> string \<Rightarrow> sdk \<Rightarrow> sdk" where
  "checkConnected parse w data s =
     (case sockets s w of
        None \<Rightarrow> s
      | Some sk \<Rightarrow>
          (case parse data of
             None \<Rightarrow> s
           | Some JNull \<Rightarrow> s
           | Some msg \<Rightarrow>
               if field msg ''type'' = Some (JStr ''sdk_connected'') then
                 let s1 = (if ws s = Some w
                           then s\<lparr>sockets := (sockets s)(w \<mapsto> sk\<lparr>checkConnected_attached := False\<rparr>)\<rparr>
                           else s);
                     s2 = s1\<lparr>reconnectAttempt := 0\<rparr>;
                     s3 = setConnectionState Connected None s2
                 in settle (ConnectPromise (connectResolver sk)) (Resolved JNull) s3
               else s))"

definition disconnect :: "sdk \<Rightarrow> sdk" where
  "disconnect s =
     (let s1 = s\<lparr>intentionalDisconnect := True\<rparr>;
          s2 = (case reconnectTimer s1 of
                  None \<Rightarrow> s1
                | Some t \<Rightarrow> (clearTimeout t s1)\<lparr>reconnectTimer := None\<rparr>);
          s3 = (case ws s2 of
                  None \<Rightarrow> s2
                | Some w \<Rightarrow> (socket_close w s2)\<lparr>ws := None\<rparr>);
          s4 = s3\<lparr>connectPromise := None, reconnectAttempt := 0\<rparr>
      in setConnectionState Disconnected None s4)"

definition onConnectionStateChange ::
  "(connection_state \<Rightarrow> nat option \<Rightarrow> js_error option) \<Rightarrow> sdk \<Rightarrow> nat \<times> sdk" where
  "onConnectionStateChange f s =
     (fresh s,
      s\<lparr>connectionListeners := AList.update (fresh s) (UserConnectionListener f) (connectionListeners s),
        fresh := Suc (fresh s)\<rparr>)"

text \<open>
  \<open>waitForConnection(ms)\<close>: \<open>None\<close> when it returns at once, otherwise the number of
  the promise, whose timer and listener take the next two numbers.
\<close>

definition waitForConnection :: "int \<Rightarrow> sdk \<Rightarrow> nat option \<times> sdk" where
  "waitForConnection ms s =
     (if isConnected s then (None, s)
      else
        let p = fresh s;
            t = p + 1;
            l = p + 2
        in (Some p,
            s\<lparr>timers := (timers s)(t \<mapsto> \<lparr>delay = ms, callback = WaitConnectionTimeout l p\<rparr>),
              connectionListeners :=
                AList.update l (WaitForConnectionListener t p) (connectionListeners s),
              fresh := p + 3\<rparr>))"

subsection \<open>State subscriptions and raw actions\<close>

text \<open>
  \<open>onStateUpdate\<close>, like \<open>onConnectionStateChange\<close> above, stores the function it
  is given under the next unused number. A call is taken to pass a function object that
  is not in the set yet: the sets are keyed by the identity of the function, and adding
  one that is in the set already changes nothing.
\<close>

definition onStateUpdate :: "(json \<Rightarrow> js_error option) \<Rightarrow> sdk \<Rightarrow> nat \<times> sdk" where
  "onStateUpdate f s =
     (fresh s,
      s\<lparr>stateListeners := AList.update (fresh s) (UserStateListener f) (stateListeners s),
        fresh := Suc (fresh s)\<rparr>)"

text \<open>
  \<open>sendAction\<close> from the test \<open>if (!this.isConnected())\<close> on, for the promise \<open>f\<close>
  the call returns and the action id \<open>actionId\<close> it generates from the clock and the
  random number generator. The id is an input of the model.
\<close>

definition sendAction_body :: "nat \<Rightarrow> bot_action \<Rightarrow> string \<Rightarrow> sdk \<Rightarrow> sdk" where
  "sendAction_body f action actionId s =
     (if \<not> isConnected s then
        settle (ActionFuture f)
          (Rejected (Error (JStr (''Not connected (state: '' @ state_name (connectionState s) @ '')''))))
          s
      else
        let t = fresh s;
            s1 = s\<lparr>timers := (timers s)(t \<mapsto>
                      \<lparr>delay = actionTimeout (config s),
                       callback = ActionTimeout actionId f (action_type action)\<rparr>),
                    fresh := Suc t\<rparr>;
            s2 = s1\<lparr>pendingActions :=
                      AList.update actionId \<lparr>future = f, timeout = t\<rparr> (pendingActions s1)\<rparr>
        in send (JObj [(''type'', JStr ''sdk_action''),
                       (''username'', JStr (botUsername (config s2))),
                       (''actionId'', JStr actionId),
                       (''action'', action_json action)])
             s2)"

text \<open>
  \<open>sendAction\<close> returns the number of its promise. While the state is
  \<open>reconnecting\<close> it awaits \<open>waitForConnection()\<close> (60000 ms by default) and the rest
  of its body runs in a microtask, also when \<open>waitForConnection\<close> returned at once.
\<close>

definition sendAction :: "bot_action \<Rightarrow> string \<Rightarrow> sdk \<Rightarrow> nat \<times> sdk" where
  "sendAction action actionId s =
     (let f = fresh s;
          s0 = s\<lparr>fresh := Suc f\<rparr>
      in if connectionState s0 = Reconnecting then
           (case waitForConnection 60000 s0 of
              (None, s1) \<Rightarrow>
                (f, s1\<lparr>microtasks :=
                         microtasks s1 @ [(SendActionAwait f action actionId, Resolved JNull)]\<rparr>)
            | (Some p, s1) \<Rightarrow>
                (f, s1\<lparr>awaiting := awaiting s1 @ [(p, SendActionAwait f action actionId)]\<rparr>))
         else (f, sendAction_body f action actionId s0))"

text \<open>A microtask: \<open>sendAction\<close> resumes after its \<open>await\<close>, or the \<open>await\<close> throws.\<close>

fun runMicrotask :: "continuation \<times> outcome \<Rightarrow> sdk \<Rightarrow> sdk" where
  "runMicrotask (SendActionAwait f action actionId, Resolved v) s =
     sendAction_body f action actionId s"
| "runMicrotask (SendActionAwait f action actionId, Rejected e) s =
     settle (ActionFuture f) (Rejected e) s"

definition drain :: "sdk \<Rightarrow> sdk" where
  "drain s = foldl (\<lambda>s' m. runMicrotask m s') (s\<lparr>microtasks := []\<rparr>) (microtasks s)"

subsection \<open>State waiting\<close>

datatype wait_result = Now json | Thrown js_error | Later nat

text \<open>
  \<open>waitForCondition(predicate, ms)\<close>. A stored snapshot is never falsy (see
  \<open>handleMessage\<close>), so \<open>this.state &&\<close> is the test that one is stored.
\<close>

definition subscribeCondition :: "(json \<Rightarrow> js_error + bool) \<Rightarrow> int \<Rightarrow> sdk \<Rightarrow> wait_result \<times> sdk" where
  "subscribeCondition predicate ms s =
     (let p = fresh s;
          t = p + 1;
          l = p + 2
      in (Later p,
          s\<lparr>timers := (timers s)(t \<mapsto> \<lparr>delay = ms, callback = WaitConditionTimeout l p\<rparr>),
            stateListeners :=
              AList.update l (WaitForConditionListener predicate t p) (stateListeners s),
            fresh := p + 3\<rparr>))"

definition waitForCondition :: "(json \<Rightarrow> js_error + bool) \<Rightarrow> int \<Rightarrow> sdk \<Rightarrow> wait_result \<times> sdk" where
  "waitForCondition predicate ms s =
     (case state s of
        None \<Rightarrow> subscribeCondition predicate ms s
      | Some st \<Rightarrow>
          (case predicate st of
             Inl e \<Rightarrow> (Thrown e, s)
           | Inr True \<Rightarrow> (Now st, s)
           | Inr False \<Rightarrow> subscribeCondition predicate ms s))"

definition waitForStateChange :: "int \<Rightarrow> sdk \<Rightarrow> nat \<times> sdk" where
  "waitForStateChange ms s =
     (let p = fresh s;
          t = p + 1;
          l = p + 2
      in (p,
          s\<lparr>timers := (timers s)(t \<mapsto> \<lparr>delay = ms, callback = WaitStateChangeTimeout l p\<rparr>),
            stateListeners := AList.update l (WaitForStateChangeListener t p) (stateListeners s),
            fresh := p + 3\<rparr>))"

subsection \<open>Inbound messages\<close>

text \<open>
  One state listener called with a snapshot: \<open>Inl\<close> is the exception it throws. What
  else a caller's listener does stays outside the object.
\<close>

fun callStateListener :: "nat \<Rightarrow> state_listener \<Rightarrow> json \<Rightarrow> sdk \<Rightarrow> js_error + sdk" where
  "callStateListener l (UserStateListener f) st s =
     (case f st of None \<Rightarrow> Inr s | Some e \<Rightarrow> Inl e)"
| "callStateListener l (WaitForConditionListener predicate t p) st s =
     (case predicate st of
        Inl e \<Rightarrow> Inl e
      | Inr True \<Rightarrow>
          Inr (settle (WaitCondition p) (Resolved st) (unsubscribeState l (clearTimeout t s)))
      | Inr False \<Rightarrow> Inr s)"
| "callStateListener l (WaitForStateChangeListener t p) st s =
     Inr (settle (WaitStateChange p) (Resolved st) (unsubscribeState l (clearTimeout t s)))"

text \<open>
  The body of the loop in \<open>handleMessage\<close>: the call is recorded in \<open>notified\<close>, and
  an exception of the listener is caught and passed to \<open>console.error\<close>.
\<close>

definition tryStateListener :: "nat \<Rightarrow> state_listener \<Rightarrow> json \<Rightarrow> sdk \<Rightarrow> sdk" where
  "tryStateListener l f st s =
     (let s1 = s\<lparr>notified := notified s @ [(l, st)]\<rparr>
      in case callStateListener l f st s1 of
           Inr s' \<Rightarrow> s'
         | Inl e \<Rightarrow> s1\<lparr>console_errors := console_errors s1 @ [(''State listener error:'', e)]\<rparr>)"

text \<open>
  \<open>for (const listener of this.stateListeners)\<close>: the entries in insertion order,
  skipping one that was deleted before its turn.
\<close>

fun notifyState :: "nat list \<Rightarrow> json \<Rightarrow> sdk \<Rightarrow> sdk" where
  "notifyState [] st s = s"
| "notifyState (l # ls) st s =
     (case map_of (stateListeners s) l of
        None \<Rightarrow> notifyState ls st s
      | Some f \<Rightarrow> notifyState ls st (tryStateListener l f st s))"

text \<open>The three \<open>if\<close> statements of \<open>handleMessage\<close>, in order.\<close>

definition handle_sdk_state :: "json \<Rightarrow> sdk \<Rightarrow> sdk" where
  "handle_sdk_state message s =
     (if field message ''type'' = Some (JStr ''sdk_state'') \<and> truthy_field message ''state'' then
        (case field message ''state'' of
           None \<Rightarrow> s
         | Some st \<Rightarrow>
             let s1 = s\<lparr>state := Some st\<rparr>
             in notifyState (map fst (stateListeners s1)) st s1)
      else s)"

text \<open>\<open>Map.get\<close> finds an entry only for a string key: every key of the map is a string.\<close>

definition handle_sdk_action_result :: "json \<Rightarrow> sdk \<Rightarrow> sdk" where
  "handle_sdk_action_result message s =
     (if field message ''type'' = Some (JStr ''sdk_action_result'') \<and> truthy_field message ''actionId'' then
        (case field message ''actionId'' of
           Some (JStr actionId) \<Rightarrow>
             (case map_of (pendingActions s) actionId of
                None \<Rightarrow> s
              | Some pending \<Rightarrow>
                  let s1 = clearTimeout (timeout pending) s;
                      s2 = s1\<lparr>pendingActions := AList.delete actionId (pendingActions s1)\<rparr>
                  in if truthy_field message ''result'' then
                       (case field message ''result'' of
                          None \<Rightarrow> s2
                        | Some r \<Rightarrow> settle (ActionFuture (future pending)) (Resolved r) s2)
                     else
                       settle (ActionFuture (future pending))
                         (Rejected (Error (JStr ''No result in action response''))) s2)
         | _ \<Rightarrow> s)
      else s)"

definition handle_sdk_error :: "json \<Rightarrow> sdk \<Rightarrow> sdk" where
  "handle_sdk_error message s =
     (if field message ''type'' = Some (JStr ''sdk_error'') then
        (if truthy_field message ''actionId'' then
           (case field message ''actionId'' of
              Some (JStr actionId) \<Rightarrow>
                (case map_of (pendingActions s) actionId of
                   None \<Rightarrow> s
                 | Some pending \<Rightarrow>
                     let s1 = clearTimeout (timeout pending) s;
                         s2 = s1\<lparr>pendingActions := AList.delete actionId (pendingActions s1)\<rparr>
                     in settle (ActionFuture (future pending))
                          (Rejected (Error (if truthy_field message ''error''
                                            then (case field message ''error'' of
                                                    None \<Rightarrow> JStr ''Unknown error''
                                                  | Some e \<Rightarrow> e)
                                            else JStr ''Unknown error'')))
                          s2)
            | _ \<Rightarrow> s)
         else s)
      else s)"

text \<open>
  \<open>handleMessage(data)\<close>: \<open>Inl\<close> is the exception it throws. A string that does not
  parse is dropped; \<open>null\<close> parses, and reading its \<open>type\<close> throws.
\<close>

definition handleMessage :: "(string \<Rightarrow> json option) \<Rightarrow> string \<Rightarrow> sdk \<Rightarrow> js_error + sdk" where
  "handleMessage parse data s =
     (case parse data of
        None \<Rightarrow> Inr s
      | Some JNull \<Rightarrow> Inl TypeError
      | Some message \<Rightarrow>
          Inr (handle_sdk_error message (handle_sdk_action_result message (handle_sdk_state message s))))"

subsection \<open>Timers\<close>

text \<open>The bodies of the timer callbacks.\<close>

fun runTimer :: "timer_callback \<Rightarrow> sdk \<Rightarrow> sdk" where
  "runTimer (ConnectTimeout p) s =
     (let s1 = settle (ConnectPromise p) (Rejected (Error (JStr ''Connection timeout''))) s
      in case ws s1 of None \<Rightarrow> s1 | Some w \<Rightarrow> socket_close w s1)"
| "runTimer ReconnectTimer s = snd (connect (s\<lparr>reconnectTimer := None\<rparr>))"
| "runTimer (WaitConnectionTimeout l p) s =
     settleWaitConnection p (Rejected (Error (JStr ''waitForConnection timed out'')))
       (unsubscribeConnection l s)"
| "runTimer (ActionTimeout actionId f ty) s =
     settle (ActionFuture f) (Rejected (Error (JStr (''Action timed out: '' @ ty))))
       (s\<lparr>pendingActions := AList.delete actionId (pendingActions s)\<rparr>)"
| "runTimer (WaitConditionTimeout l p) s =
     settle (WaitCondition p) (Rejected (Error (JStr ''waitForCondition timed out'')))
       (unsubscribeState l s)"
| "runTimer (WaitStateChangeTimeout l p) s =
     settle (WaitStateChange p) (Rejected (Error (JStr ''waitForStateChange timed out'')))
       (unsubscribeState l s)"

text \<open>An armed timer elapses: it is no longer armed and its callback runs.\<close>

definition fireTimer :: "nat \<Rightarrow> sdk \<Rightarrow> sdk" where
  "fireTimer t s =
     (case timers s t of
        None \<Rightarrow> s
      | Some tm \<Rightarrow> runTimer (callback tm) (clearTimeout t s))"

subsection \<open>Events\<close>

text \<open>
  What can happen to the object: a call of one of its methods, the microtask queue
  running, a timer elapsing, and the four events of a socket. The platform delivers
  \<open>open\<close> only to a connecting socket, \<open>message\<close> only to an open one, and nothing after
  \<open>close\<close>; an event it would not deliver leaves the object as it is. Timer and socket
  events are tasks: the microtask queue is empty when a task starts, and is run again
  when the task ends.
\<close>

datatype event =
    CallConnect
  | CallDisconnect
  | CallSendAction bot_action string
  | CallWaitForConnection int
  | CallWaitForCondition "json \<Rightarrow> js_error + bool" int
  | CallWaitForStateChange int
  | CallOnStateUpdate "json \<Rightarrow> js_error option"
  | CallOnConnectionStateChange "connection_state \<Rightarrow> nat option \<Rightarrow> js_error option"
  | Microtasks
  | TimerFires nat
  | SocketOpen nat
  | SocketMessage nat string
  | SocketError nat
  | SocketClose nat

text \<open>
  The \<open>message\<close> event of socket \<open>w\<close>: \<open>ws.onmessage\<close> first, then \<open>checkConnected\<close>
  if it is still attached. An exception of the first does not stop the second.
\<close>

definition onmessage :: "(string \<Rightarrow> json option) \<Rightarrow> nat \<Rightarrow> string \<Rightarrow> sdk \<Rightarrow> sdk" where
  "onmessage parse w data s =
     (let s1 = (case handleMessage parse data s of Inl e \<Rightarrow> s | Inr s' \<Rightarrow> s')
      in case sockets s1 w of
           None \<Rightarrow> s1
         | Some sk \<Rightarrow> if checkConnected_attached sk then checkConnected parse w data s1 else s1)"

definition socketEvent :: "(string \<Rightarrow> json option) \<Rightarrow> event \<Rightarrow> sdk \<Rightarrow> sdk" where
  "socketEvent parse e s =
     (case e of
        SocketOpen w \<Rightarrow>
          (case sockets s w of
             None \<Rightarrow> s
           | Some sk \<Rightarrow>
               if readyState sk = CONNECTING
               then onopen w (s\<lparr>sockets := (sockets s)(w \<mapsto> sk\<lparr>readyState := OPEN\<rparr>)\<rparr>)
               else s)
      | SocketMessage w data \<Rightarrow>
          (case sockets s w of
             None \<Rightarrow> s
           | Some sk \<Rightarrow> if readyState sk = OPEN then onmessage parse w data s else s)
      | SocketError w \<Rightarrow>
          (case sockets s w of
             None \<Rightarrow> s
           | Some sk \<Rightarrow> if readyState sk = CLOSED then s else onerror w s)
      | SocketClose w \<Rightarrow>
          (case sockets s w of
             None \<Rightarrow> s
           | Some sk \<Rightarrow>
               if readyState sk = CLOSED then s
               else onclose (s\<lparr>sockets := (sockets s)(w \<mapsto> sk\<lparr>readyState := CLOSED\<rparr>)\<rparr>))
      | _ \<Rightarrow> s)"

definition step :: "(string \<Rightarrow> json option) \<Rightarrow> event \<Rightarrow> sdk \<Rightarrow> sdk" where
  "step parse e s =
     (case e of
        CallConnect \<Rightarrow> snd (connect s)
      | CallDisconnect \<Rightarrow> disconnect s
      | CallSendAction action actionId \<Rightarrow> snd (sendAction action actionId s)
      | CallWaitForConnection ms \<Rightarrow> snd (waitForConnection ms s)
      | CallWaitForCondition predicate ms \<Rightarrow> snd (waitForCondition predicate ms s)
      | CallWaitForStateChange ms \<Rightarrow> snd (waitForStateChange ms s)
      | CallOnStateUpdate f \<Rightarrow> snd (onStateUpdate f s)
      | CallOnConnectionStateChange f \<Rightarrow> snd (onConnectionStateChange f s)
      | Microtasks \<Rightarrow> drain s
      | TimerFires t \<Rightarrow> drain (fireTimer t (drain s))
      | _ \<Rightarrow> drain (socketEvent parse e (drain s)))"

fun run :: "(string \<Rightarrow> json option) \<Rightarrow> event list \<Rightarrow> sdk \<Rightarrow> sdk" where
  "run parse [] s = s"
| "run parse (e # es) s = run parse es (step parse e s)"

subsection \<open>Observations\<close>

text \<open>The delay of the timer that \<open>reconnectTimer\<close> holds.\<close>

definition scheduledDelay :: "sdk \<Rightarrow> int option" where
  "scheduledDelay s =
     (case reconnectTimer s of None \<Rightarrow> None | Some t \<Rightarrow> map_option delay (timers s t))"

text \<open>A configuration that leaves every optional field out, for the examples.\<close>

definition default_config :: SDKConfig where
  "default_config =
     \<lparr> cfg_botUsername = ''bot'', cfg_actionTimeout = None, cfg_autoReconnect = None,
       cfg_reconnectMaxRetries = None, cfg_reconnectBaseDelay = None,
       cfg_reconnectMaxDelay = None \<rparr>"

text \<open>
  \<open>JSON.parse\<close> on the strings the examples use. It is a table: the examples apply it
  to no other string.
\<close>

definition example_parse :: \<open>string \<Rightarrow> json option\<close> where
  \<open>example_parse =
     map_of
       [(''{"type":"sdk_connected"}'', JObj [(''type'', JStr ''sdk_connected'')]),
        (''{"type":"sdk_action_result","actionId":"act-1","result":{"success":true}}'',
           JObj [(''type'', JStr ''sdk_action_result''), (''actionId'', JStr ''act-1''),
                 (''result'', JObj [(''success'', JBool True)])]),
        (''{"type":"sdk_error","actionId":"act-1","error":"Bot not found"}'',
           JObj [(''type'', JStr ''sdk_error''), (''actionId'', JStr ''act-1''),
                 (''error'', JStr ''Bot not found'')]),
        (''{"type":"sdk_state","state":{"tick":1}}'',
           JObj [(''type'', JStr ''sdk_state''), (''state'', JObj [(''tick'', JNum 1)])]),
        (''{"type":"sdk_state","state":{"tick":2}}'',
           JObj [(''type'', JStr ''sdk_state''), (''state'', JObj [(''tick'', JNum 2)])]),
        (''null'', JNull),
        (''{"type":"sdk_state","state":{"tick":3},"actionId":"act-9"}'',
           JObj [(''type'', JStr ''sdk_state''), (''state'', JObj [(''tick'', JNum 3)]),
                 (''actionId'', JStr ''act-9'')])]\<close>

text \<open>
  The exception a state listener throws when it is called with a snapshot, if it throws
  one, and what \<open>handleMessage\<close> passes to \<open>console.error\<close> for it.
\<close>

fun thrown :: "state_listener \<Rightarrow> json \<Rightarrow> js_error option" where
  "thrown (UserStateListener f) st = f st"
| "thrown (WaitForConditionListener predicate t p) st =
     (case predicate st of Inl e \<Rightarrow> Some e | Inr b \<Rightarrow> None)"
| "thrown (WaitForStateChangeListener t p) st = None"

definition logged :: "state_listener \<Rightarrow> json \<Rightarrow> (string \<times> js_error) list" where
  "logged f st = (case thrown f st of None \<Rightarrow> [] | Some e \<Rightarrow> [(''State listener error:'', e)])"

text \<open>Three subscribed listeners, the second of which always throws.\<close>

definition three_listeners :: sdk where
  "three_listeners =
     snd (onStateUpdate (\<lambda>st. None)
       (snd (onStateUpdate (\<lambda>st. Some (Error (JStr ''boom'')))
         (snd (onStateUpdate (\<lambda>st. None) (new_BotSDK default_config ''sdk-1''))))))"

text \<open>A predicate on snapshots, an action (\<open>sendWalk(3200, 3200)\<close>) and three states for the examples.\<close>

definition tick_is :: "int \<Rightarrow> json \<Rightarrow> js_error + bool" where
  "tick_is n st = Inr (field st ''tick'' = Some (JNum n))"

definition walk :: bot_action where
  "walk = \<lparr> action_type = ''walkTo'',
            action_fields = [(''x'', JNum 3200), (''z'', JNum 3200), (''running'', JBool True),
                             (''reason'', JStr ''SDK'')] \<rparr>"

definition connected_example :: sdk where
  \<open>connected_example =
     run example_parse
       [CallConnect, SocketOpen 1, SocketMessage 1 ''{"type":"sdk_connected"}'']
       (new_BotSDK default_config ''sdk-1'')\<close>

definition waiting_example :: sdk where
  "waiting_example = snd (waitForCondition (tick_is 2) 30000 (new_BotSDK default_config ''sdk-1''))"

text \<open>
  The calls made to the resolve and reject functions of \<open>sendAction\<close> promises, and
  the rejections that \<open>ws.onclose\<close> makes for a list of pending actions.
\<close>

fun is_action :: "promise \<times> outcome \<Rightarrow> bool" where
  "is_action (ActionFuture f, r) = True"
| "is_action (p, r) = False"

definition action_settlements :: "sdk \<Rightarrow> (promise \<times> outcome) list" where
  "action_settlements s = filter is_action (settled s)"

definition closed_rejections :: "(string \<times> pending_action) list \<Rightarrow> (promise \<times> outcome) list" where
  "closed_rejections ps =
     map (\<lambda>(actionId, pending).
            (ActionFuture (future pending), Rejected (Error (JStr ''Connection closed'')))) ps"

text \<open>The connected example with one action sent and not yet acknowledged.\<close>

definition pending_example :: sdk where
  "pending_example = snd (sendAction walk ''act-1'' connected_example)"

text \<open>
  The calls that resolve a \<open>connect\<close> promise; the events that deliver an
  \<open>sdk_connected\<close> message; a state whose socket has opened and sent the identify
  message, which nothing has answered; and the identify message.
\<close>

fun is_connect_resolution :: "promise \<times> outcome \<Rightarrow> bool" where
  "is_connect_resolution (ConnectPromise n, Resolved v) = True"
| "is_connect_resolution (p, r) = False"

definition connect_resolutions :: "sdk \<Rightarrow> (promise \<times> outcome) list" where
  "connect_resolutions s = filter is_connect_resolution (settled s)"

definition is_ack :: "(string \<Rightarrow> json option) \<Rightarrow> event \<Rightarrow> bool" where
  "is_ack parse e =
     (case e of
        SocketMessage w data \<Rightarrow>
          (case parse data of
             None \<Rightarrow> False
           | Some m \<Rightarrow> field m ''type'' = Some (JStr ''sdk_connected''))
      | _ \<Rightarrow> False)"

definition opened_example :: sdk where
  "opened_example = run example_parse [CallConnect, SocketOpen 1] (new_BotSDK default_config ''sdk-1'')"

definition identify :: "sdk \<Rightarrow> json" where
  "identify s = JObj [(''type'', JStr ''sdk_connect''),
                      (''username'', JStr (botUsername (config s))),
                      (''clientId'', JStr (sdkClientId s))]"

text \<open>
  The message \<open>sendAction\<close> sends and the error it throws when the socket is not
  open; the connected example after its socket closed, and after the socket of the first
  retry opened (its identify message not yet answered).
\<close>

definition action_message :: "sdk \<Rightarrow> string \<Rightarrow> bot_action \<Rightarrow> json" where
  "action_message s actionId action =
     JObj [(''type'', JStr ''sdk_action''),
           (''username'', JStr (botUsername (config s))),
           (''actionId'', JStr actionId),
           (''action'', action_json action)]"

definition not_connected_error :: "sdk \<Rightarrow> js_error" where
  "not_connected_error s =
     Error (JStr (''Not connected (state: '' @ state_name (connectionState s) @ '')''))"

definition dropped_example :: sdk where
  "dropped_example = run example_parse [SocketClose 1] connected_example"

definition reopening_example :: sdk where
  "reopening_example = run example_parse [TimerFires 3, SocketOpen 5] dropped_example"

text \<open>
  The transition table of section 4.4 of the specification, as pairs of states, written
  from the specification's words to compare the code with.
\<close>

definition spec_transitions :: "(connection_state \<times> connection_state) set" where
  "spec_transitions =
     {(Disconnected, Connecting), (Connecting, Connected), (Connecting, Disconnected),
      (Connected, Reconnecting), (Connected, Disconnected), (Reconnecting, Connected),
      (Reconnecting, Reconnecting), (Reconnecting, Disconnected)}"

text \<open>
  The test of \<open>ws.onclose\<close> and \<open>scheduleReconnect\<close> together: a closed socket is
  followed by a retry.
\<close>

definition will_retry :: "sdk \<Rightarrow> bool" where
  "will_retry s =
     (autoReconnect (config s) \<and> \<not> intentionalDisconnect s \<and>
      \<not> retries_exhausted (reconnectAttempt s) (reconnectMaxRetries (config s)))"

text \<open>
  How the socket, the connect promise and the connection state hang together while
  events arrive in order: a socket in \<open>this.ws\<close> has its connect promise; the state is
  \<open>connected\<close> only with a socket and \<open>disconnected\<close> only without; after an
  intentional disconnect there is no socket; and every socket other than \<open>this.ws\<close>
  is closing or closed.
\<close>

definition coherent :: "sdk \<Rightarrow> bool" where
  "coherent s =
     ((ws s \<noteq> None \<longrightarrow> connectPromise s \<noteq> None) \<and>
      (connectionState s = Connected \<longrightarrow> ws s \<noteq> None) \<and>
      (connectionState s = Disconnected \<longrightarrow> ws s = None) \<and>
      (intentionalDisconnect s \<longrightarrow> ws s = None) \<and>
      (\<forall>w sk. sockets s w = Some sk \<and> ws s \<noteq> Some w \<longrightarrow>
         readyState sk = CLOSING \<or> readyState sk = CLOSED))"

text \<open>
  Events in order: the close event of a socket arrives while the socket is still
  \<open>this.ws\<close> or while the disconnect that dropped it is still the last word, that is
  before \<open>connect\<close> is called again.
\<close>

definition in_order :: "sdk \<Rightarrow> event \<Rightarrow> bool" where
  "in_order s e =
     (case e of SocketClose w \<Rightarrow> ws s = Some w \<or> intentionalDisconnect s | _ \<Rightarrow> True)"

text \<open>The fields that the connection state machine reads.\<close>

definition conn_view ::
  "sdk \<Rightarrow> nat option \<times> nat option \<times> connection_state \<times> bool \<times> (nat \<Rightarrow> socket option) \<times> nat \<times> sdk_config" where
  "conn_view s =
     (ws s, connectPromise s, connectionState s, intentionalDisconnect s, sockets s,
      reconnectAttempt s, config s)"

text \<open>A change of state that is no change, is in the table, or is connecting to reconnecting.\<close>

definition allowed :: "connection_state \<Rightarrow> connection_state \<Rightarrow> bool" where
  "allowed a b = (b = a \<or> (a, b) \<in> insert (Connecting, Reconnecting) spec_transitions)"

text \<open>The state after \<open>connect\<close>, before the socket has opened.\<close>

definition connecting_example :: sdk where
  "connecting_example = run example_parse [CallConnect] (new_BotSDK default_config ''sdk-1'')"

text \<open>
  The events that call \<open>connect\<close>: the method itself and a reconnect timer that
  elapses (the queue of microtasks runs before a timer does). A run of events none of
  which calls \<open>connect\<close>.
\<close>

definition calls_connect :: "sdk \<Rightarrow> event \<Rightarrow> bool" where
  "calls_connect s e =
     (case e of
        CallConnect \<Rightarrow> True
      | TimerFires t \<Rightarrow>
          (case timers (drain s) t of None \<Rightarrow> False | Some tm \<Rightarrow> callback tm = ReconnectTimer)
      | _ \<Rightarrow> False)"

fun no_connect :: "(string \<Rightarrow> json option) \<Rightarrow> event list \<Rightarrow> sdk \<Rightarrow> bool" where
  "no_connect parse [] s = True"
| "no_connect parse (e # es) s = (\<not> calls_connect s e \<and> no_connect parse es (step parse e s))"

text \<open>
  What the handshake of one \<open>connect\<close> call hangs on. The calls made to the resolve and
  reject functions of the promise \<open>p\<close> of a \<open>connect\<close> call. The wiring that
  \<open>connect\<close> sets up: the socket takes the number after its promise and the 10
  second timer the number after that, both below the next unused number. That no timer
  is armed which would reject promise \<open>p\<close>. A change of the object that arms no
  10 second timer, creates no socket and takes no number back. And the events that can
  settle promise \<open>p\<close> once no timer can: an \<open>sdk_connected\<close> message and the error
  event of its socket.
\<close>

definition connect_settlements :: "nat \<Rightarrow> sdk \<Rightarrow> (promise \<times> outcome) list" where
  "connect_settlements p s = filter (\<lambda>x. fst x = ConnectPromise p) (settled s)"

definition wired :: "sdk \<Rightarrow> bool" where
  "wired s =
     ((\<forall>t tm p. timers s t = Some tm \<and> callback tm = ConnectTimeout p \<longrightarrow>
         t = p + 2 \<and> p < fresh s) \<and>
      (\<forall>w sk. sockets s w = Some sk \<longrightarrow>
         w = connectResolver sk + 1 \<and> connectTimer sk = connectResolver sk + 2 \<and>
         connectResolver sk < fresh s))"

definition silent :: "nat \<Rightarrow> sdk \<Rightarrow> bool" where
  "silent p s =
     (p < fresh s \<and> (\<forall>t tm. timers s t = Some tm \<longrightarrow> callback tm \<noteq> ConnectTimeout p))"

definition calm :: "sdk \<Rightarrow> sdk \<Rightarrow> bool" where
  "calm s' s =
     (fresh s \<le> fresh s' \<and>
      (\<forall>t tm. timers s' t = Some tm \<longrightarrow>
         timers s t = Some tm \<or> (\<forall>p. callback tm \<noteq> ConnectTimeout p)) \<and>
      (\<forall>w sk'. sockets s' w = Some sk' \<longrightarrow>
         (\<exists>sk. sockets s w = Some sk \<and> connectTimer sk' = connectTimer sk \<and>
               connectResolver sk' = connectResolver sk)))"

definition settles_connect :: "(string \<Rightarrow> json option) \<Rightarrow> nat \<Rightarrow> event \<Rightarrow> bool" where
  "settles_connect parse p e = (is_ack parse e \<or> e = SocketError (p + 1))"

text \<open>
  The two further transitions that a close event delivered out of order leads to; what
  holds of a disconnected object that was reached from a new one (it will not retry, or
  it never had a socket); a change of state that the code performs on some run; and a
  configuration with auto-reconnect off, for the examples.
\<close>

definition stale_transitions :: "(connection_state \<times> connection_state) set" where
  "stale_transitions = {(Connected, Connecting), (Disconnected, Connected)}"

definition given_up :: "sdk \<Rightarrow> bool" where
  "given_up s =
     (connectionState s = Disconnected \<longrightarrow> \<not> will_retry s \<or> (\<forall>w. sockets s w = None))"

definition performed :: "connection_state \<Rightarrow> connection_state \<Rightarrow> bool" where
  "performed a b =
     (b = a \<or> (a, b) \<in> insert (Connecting, Reconnecting) spec_transitions \<union> stale_transitions)"

definition no_reconnect_config :: SDKConfig where
  "no_reconnect_config = default_config\<lparr>cfg_autoReconnect := Some False\<rparr>"

section \<open>Properties\<close>

subsection \<open>What the listener loops leave alone\<close>

lemma settleWaitConnection_frame [simp]:
  "config (settleWaitConnection p r s) = config s"
  "ws (settleWaitConnection p r s) = ws s"
  "state (settleWaitConnection p r s) = state s"
  "pendingActions (settleWaitConnection p r s) = pendingActions s"
  "stateListeners (settleWaitConnection p r s) = stateListeners s"
  "connectionListeners (settleWaitConnection p r s) = connectionListeners s"
  "connectPromise (settleWaitConnection p r s) = connectPromise s"
  "sdkClientId (settleWaitConnection p r s) = sdkClientId s"
  "connectionState (settleWaitConnection p r s) = connectionState s"
  "reconnectAttempt (settleWaitConnection p r s) = reconnectAttempt s"
  "reconnectTimer (settleWaitConnection p r s) = reconnectTimer s"
  "intentionalDisconnect (settleWaitConnection p r s) = intentionalDisconnect s"
  "sockets (settleWaitConnection p r s) = sockets s"
  "timers (settleWaitConnection p r s) = timers s"
  "sent (settleWaitConnection p r s) = sent s"
  "notified (settleWaitConnection p r s) = notified s"
  "console_errors (settleWaitConnection p r s) = console_errors s"
  "fresh (settleWaitConnection p r s) = fresh s"
  "settled (settleWaitConnection p r s) = settled s @ [(WaitConnection p, r)]"
  by (simp_all add: settleWaitConnection_def settle_def Let_def split: option.splits)

lemma tryConnectionListener_frame [simp]:
  "config (tryConnectionListener l f st a s) = config s"
  "ws (tryConnectionListener l f st a s) = ws s"
  "state (tryConnectionListener l f st a s) = state s"
  "pendingActions (tryConnectionListener l f st a s) = pendingActions s"
  "stateListeners (tryConnectionListener l f st a s) = stateListeners s"
  "connectPromise (tryConnectionListener l f st a s) = connectPromise s"
  "sdkClientId (tryConnectionListener l f st a s) = sdkClientId s"
  "connectionState (tryConnectionListener l f st a s) = connectionState s"
  "reconnectAttempt (tryConnectionListener l f st a s) = reconnectAttempt s"
  "reconnectTimer (tryConnectionListener l f st a s) = reconnectTimer s"
  "intentionalDisconnect (tryConnectionListener l f st a s) = intentionalDisconnect s"
  "sockets (tryConnectionListener l f st a s) = sockets s"
  "sent (tryConnectionListener l f st a s) = sent s"
  "notified (tryConnectionListener l f st a s) = notified s"
  "fresh (tryConnectionListener l f st a s) = fresh s"
  by (cases f; simp add: tryConnectionListener_def unsubscribeConnection_def clearTimeout_def
      split: option.splits)+

lemma notifyConnection_frame [simp]:
  "config (notifyConnection ls st a s) = config s"
  "ws (notifyConnection ls st a s) = ws s"
  "state (notifyConnection ls st a s) = state s"
  "pendingActions (notifyConnection ls st a s) = pendingActions s"
  "stateListeners (notifyConnection ls st a s) = stateListeners s"
  "connectPromise (notifyConnection ls st a s) = connectPromise s"
  "sdkClientId (notifyConnection ls st a s) = sdkClientId s"
  "connectionState (notifyConnection ls st a s) = connectionState s"
  "reconnectAttempt (notifyConnection ls st a s) = reconnectAttempt s"
  "reconnectTimer (notifyConnection ls st a s) = reconnectTimer s"
  "intentionalDisconnect (notifyConnection ls st a s) = intentionalDisconnect s"
  "sockets (notifyConnection ls st a s) = sockets s"
  "sent (notifyConnection ls st a s) = sent s"
  "notified (notifyConnection ls st a s) = notified s"
  "fresh (notifyConnection ls st a s) = fresh s"
  by (induction ls arbitrary: s; simp split: option.splits)+

lemma setConnectionState_frame [simp]:
  "config (setConnectionState st a s) = config s"
  "ws (setConnectionState st a s) = ws s"
  "state (setConnectionState st a s) = state s"
  "pendingActions (setConnectionState st a s) = pendingActions s"
  "stateListeners (setConnectionState st a s) = stateListeners s"
  "connectPromise (setConnectionState st a s) = connectPromise s"
  "sdkClientId (setConnectionState st a s) = sdkClientId s"
  "connectionState (setConnectionState st a s) = st"
  "reconnectAttempt (setConnectionState st a s) = reconnectAttempt s"
  "reconnectTimer (setConnectionState st a s) = reconnectTimer s"
  "intentionalDisconnect (setConnectionState st a s) = intentionalDisconnect s"
  "sockets (setConnectionState st a s) = sockets s"
  "sent (setConnectionState st a s) = sent s"
  "notified (setConnectionState st a s) = notified s"
  "fresh (setConnectionState st a s) = fresh s"
  by (simp_all add: setConnectionState_def Let_def)

lemma pow2_ge_32: "6 \<le> n \<Longrightarrow> (32::int) \<le> 2 ^ (n - 1)"
proof -
  assume "6 \<le> n"
  then have "(2::int) ^ 5 \<le> 2 ^ (n - 1)" by (intro power_increasing) simp_all
  then show ?thesis by simp
qed

subsection \<open>Reconnection backoff\<close>

text \<open>
  C5. When \<open>scheduleReconnect\<close> schedules attempt number \<open>n\<close> (the counter after its
  increment, so \<open>n\<close> is at least 1), the timer it arms has the delay
  \<open>min (reconnectBaseDelay * 2 ^ (n - 1)) reconnectMaxDelay\<close>. With base 1000 and cap
  30000 the delays of attempts 1 to 7 are 1000, 2000, 4000, 8000, 16000, 30000, 30000,
  and every attempt from the sixth on waits 30000. The base delay is positive: that is
  where the integers of the model and the doubles of the code agree.
\<close>

theorem reconnect_backoff_delay:
  assumes "\<not> retries_exhausted (reconnectAttempt s) (reconnectMaxRetries (config s))"
    and "n = reconnectAttempt s + 1"
    and "0 < reconnectBaseDelay (config s)"
  shows "reconnectAttempt (scheduleReconnect s) = n \<and>
         scheduledDelay (scheduleReconnect s) =
           Some (min (reconnectBaseDelay (config s) * 2 ^ (n - 1)) (reconnectMaxDelay (config s))) \<and>
         (reconnectBaseDelay (config s) = 1000 \<and> reconnectMaxDelay (config s) = 30000 \<longrightarrow>
            (n \<le> 7 \<longrightarrow> scheduledDelay (scheduleReconnect s) =
                 Some ([1000, 2000, 4000, 8000, 16000, 30000, 30000] ! (n - 1))) \<and>
            (6 \<le> n \<longrightarrow> scheduledDelay (scheduleReconnect s) = Some 30000))"
proof -
  have a: "reconnectAttempt (scheduleReconnect s) = n"
    using assms by (simp add: scheduleReconnect_def Let_def)
  have d: "scheduledDelay (scheduleReconnect s) =
           Some (min (reconnectBaseDelay (config s) * 2 ^ (n - 1)) (reconnectMaxDelay (config s)))"
    using assms by (simp add: scheduleReconnect_def scheduledDelay_def Let_def)
  have small: "n \<le> 7 \<Longrightarrow> min (1000 * 2 ^ (n - 1)) (30000::int) = [1000, 2000, 4000, 8000, 16000, 30000, 30000] ! (n - 1)"
  proof -
    assume "n \<le> 7"
    moreover have "1 \<le> n" using assms by simp
    ultimately consider "n = 1" | "n = 2" | "n = 3" | "n = 4" | "n = 5" | "n = 6" | "n = 7" by linarith
    then show ?thesis by cases simp_all
  qed
  have large: "6 \<le> n \<Longrightarrow> min (1000 * 2 ^ (n - 1)) (30000::int) = 30000"
    using pow2_ge_32 [of n] by simp
  show ?thesis using a d small large by simp
qed

theorem reconnect_backoff_delay_witness:
  "\<not> retries_exhausted (reconnectAttempt ((new_BotSDK default_config ''sdk-1'')\<lparr>reconnectAttempt := 5\<rparr>))
       (reconnectMaxRetries (config ((new_BotSDK default_config ''sdk-1'')\<lparr>reconnectAttempt := 5\<rparr>))) \<and>
   0 < reconnectBaseDelay (config ((new_BotSDK default_config ''sdk-1'')\<lparr>reconnectAttempt := 5\<rparr>)) \<and>
   reconnectAttempt (scheduleReconnect ((new_BotSDK default_config ''sdk-1'')\<lparr>reconnectAttempt := 5\<rparr>)) = 6 \<and>
   scheduledDelay (scheduleReconnect ((new_BotSDK default_config ''sdk-1'')\<lparr>reconnectAttempt := 5\<rparr>)) = Some 30000"
  using reconnect_backoff_delay [of "(new_BotSDK default_config ''sdk-1'')\<lparr>reconnectAttempt := 5\<rparr>" 6]
  by (simp add: new_BotSDK_def default_config_def fill_config_def nullish_default_def
      retries_exhausted_def)

subsection \<open>Messages that are ignored\<close>

lemma handle_sdk_state_skip:
  "\<not> (field m ''type'' = Some (JStr ''sdk_state'') \<and> truthy_field m ''state'') \<Longrightarrow>
   handle_sdk_state m s = s"
  by (auto simp: handle_sdk_state_def)

lemma handle_sdk_action_result_skip:
  "field m ''type'' \<noteq> Some (JStr ''sdk_action_result'') \<or>
   (\<forall>actionId. field m ''actionId'' = Some (JStr actionId) \<longrightarrow> map_of (pendingActions s) actionId = None) \<Longrightarrow>
   handle_sdk_action_result m s = s"
  by (auto simp: handle_sdk_action_result_def split: option.splits json.splits)

lemma handle_sdk_error_skip:
  "field m ''type'' \<noteq> Some (JStr ''sdk_error'') \<or>
   (\<forall>actionId. field m ''actionId'' = Some (JStr actionId) \<longrightarrow> map_of (pendingActions s) actionId = None) \<Longrightarrow>
   handle_sdk_error m s = s"
  by (auto simp: handle_sdk_error_def split: option.splits json.splits)

text \<open>
  C10, as stated, fails. The string \<open>null\<close> is valid JSON whose value has no type at
  all, and \<open>handleMessage\<close> throws on it: the type of the parsed value is read outside
  the \<open>try\<close> block. And a state push is processed whatever else it carries: one with an
  action id that no pending action has replaces the latest snapshot.
\<close>

theorem handleMessage_null_throws_counterexample:
  \<open>example_parse ''null'' = Some JNull \<and>
   handleMessage example_parse ''null'' (new_BotSDK default_config ''sdk-1'') = Inl TypeError \<and>
   map_of (pendingActions (new_BotSDK default_config ''sdk-1'')) ''act-9'' = None \<and>
   state (new_BotSDK default_config ''sdk-1'') = None \<and>
   handleMessage example_parse ''{"type":"sdk_state","state":{"tick":3},"actionId":"act-9"}''
     (new_BotSDK default_config ''sdk-1'') =
     Inr ((new_BotSDK default_config ''sdk-1'')\<lparr>state := Some (JObj [(''tick'', JNum 3)])\<rparr>)\<close>
  by (simp add: example_parse_def handleMessage_def handle_sdk_state_def
      handle_sdk_action_result_def handle_sdk_error_def truthy_field_def new_BotSDK_def)

text \<open>
  C10, amended. \<open>handleMessage\<close> returns normally and leaves the whole object as it was
  (so the latest snapshot, the pending actions and the connection state too) for a string
  that does not parse, for one that parses to a value other than \<open>null\<close> whose type is
  none of \<open>sdk_state\<close>, \<open>sdk_action_result\<close> and \<open>sdk_error\<close>, and for one that
  parses to a value other than \<open>null\<close> that is not a state push and whose action id, if
  it has one, has no entry among the pending actions.
\<close>

theorem handleMessage_ignores:
  assumes "parse data = None \<or>
           (\<exists>m. parse data = Some m \<and> m \<noteq> JNull \<and>
                field m ''type'' \<noteq> Some (JStr ''sdk_state'') \<and>
                field m ''type'' \<noteq> Some (JStr ''sdk_action_result'') \<and>
                field m ''type'' \<noteq> Some (JStr ''sdk_error'')) \<or>
           (\<exists>m. parse data = Some m \<and> m \<noteq> JNull \<and>
                \<not> (field m ''type'' = Some (JStr ''sdk_state'') \<and> truthy_field m ''state'') \<and>
                (\<forall>actionId. field m ''actionId'' = Some (JStr actionId) \<longrightarrow>
                   map_of (pendingActions s) actionId = None))"
  shows "handleMessage parse data s = Inr s"
  using assms
proof (elim disjE exE conjE)
  assume "parse data = None"
  then show ?thesis by (simp add: handleMessage_def)
next
  fix m
  assume m: "parse data = Some m" "m \<noteq> JNull"
    and t: "field m ''type'' \<noteq> Some (JStr ''sdk_state'')"
      "field m ''type'' \<noteq> Some (JStr ''sdk_action_result'')"
      "field m ''type'' \<noteq> Some (JStr ''sdk_error'')"
  have "handle_sdk_error m (handle_sdk_action_result m (handle_sdk_state m s)) = s"
    using t by (simp add: handle_sdk_state_skip handle_sdk_action_result_skip handle_sdk_error_skip)
  with m show ?thesis by (cases m) (simp_all add: handleMessage_def)
next
  fix m
  assume m: "parse data = Some m" "m \<noteq> JNull"
    and t: "\<not> (field m ''type'' = Some (JStr ''sdk_state'') \<and> truthy_field m ''state'')"
    and a: "\<forall>actionId. field m ''actionId'' = Some (JStr actionId) \<longrightarrow>
              map_of (pendingActions s) actionId = None"
  have "handle_sdk_error m (handle_sdk_action_result m (handle_sdk_state m s)) = s"
    using t a by (simp add: handle_sdk_state_skip handle_sdk_action_result_skip handle_sdk_error_skip)
  with m show ?thesis by (cases m) (simp_all add: handleMessage_def)
qed

theorem handleMessage_ignores_witness:
  \<open>example_parse ''{"type":"sdk_action_result","actionId":"act-1","result":{"success":true}}''
     = Some (JObj [(''type'', JStr ''sdk_action_result''), (''actionId'', JStr ''act-1''),
                   (''result'', JObj [(''success'', JBool True)])]) \<and>
   map_of (pendingActions (new_BotSDK default_config ''sdk-1'')) ''act-1'' = None \<and>
   handleMessage example_parse
     ''{"type":"sdk_action_result","actionId":"act-1","result":{"success":true}}''
     (new_BotSDK default_config ''sdk-1'') = Inr (new_BotSDK default_config ''sdk-1'')\<close>
  using handleMessage_ignores [of example_parse
     \<open>''{"type":"sdk_action_result","actionId":"act-1","result":{"success":true}}''\<close>
     "new_BotSDK default_config ''sdk-1''"]
  by (simp add: example_parse_def new_BotSDK_def truthy_field_def)

subsection \<open>State pushes\<close>

lemma tryStateListener_frame [simp]:
  "config (tryStateListener l f st s) = config s"
  "ws (tryStateListener l f st s) = ws s"
  "state (tryStateListener l f st s) = state s"
  "pendingActions (tryStateListener l f st s) = pendingActions s"
  "connectionListeners (tryStateListener l f st s) = connectionListeners s"
  "connectPromise (tryStateListener l f st s) = connectPromise s"
  "sdkClientId (tryStateListener l f st s) = sdkClientId s"
  "connectionState (tryStateListener l f st s) = connectionState s"
  "reconnectAttempt (tryStateListener l f st s) = reconnectAttempt s"
  "reconnectTimer (tryStateListener l f st s) = reconnectTimer s"
  "intentionalDisconnect (tryStateListener l f st s) = intentionalDisconnect s"
  "sockets (tryStateListener l f st s) = sockets s"
  "sent (tryStateListener l f st s) = sent s"
  "awaiting (tryStateListener l f st s) = awaiting s"
  "microtasks (tryStateListener l f st s) = microtasks s"
  "fresh (tryStateListener l f st s) = fresh s"
  "notified (tryStateListener l f st s) = notified s @ [(l, st)]"
  "console_errors (tryStateListener l f st s) = console_errors s @ logged f st"
  by (cases f; simp add: tryStateListener_def Let_def logged_def unsubscribeState_def
      clearTimeout_def settle_def split: option.splits sum.splits bool.splits)+

lemma tryStateListener_others:
  "l' \<noteq> l \<Longrightarrow>
   map_of (stateListeners (tryStateListener l f st s)) l' = map_of (stateListeners s) l'"
  by (cases f) (auto simp: tryStateListener_def Let_def unsubscribeState_def clearTimeout_def
      settle_def split: option.splits sum.splits bool.splits)

lemma tryStateListener_timers:
  "timers s t = None \<Longrightarrow> timers (tryStateListener l f st s) t = None"
  by (cases f) (auto simp: tryStateListener_def Let_def unsubscribeState_def clearTimeout_def
      settle_def split: option.splits sum.splits bool.splits)

lemma tryStateListener_settled:
  "x \<in> set (settled s) \<Longrightarrow> x \<in> set (settled (tryStateListener l f st s))"
  by (cases f) (auto simp: tryStateListener_def Let_def unsubscribeState_def clearTimeout_def
      settle_def split: option.splits sum.splits bool.splits)

lemma notifyState_frame [simp]:
  "config (notifyState ls st s) = config s"
  "ws (notifyState ls st s) = ws s"
  "state (notifyState ls st s) = state s"
  "pendingActions (notifyState ls st s) = pendingActions s"
  "connectionListeners (notifyState ls st s) = connectionListeners s"
  "connectPromise (notifyState ls st s) = connectPromise s"
  "sdkClientId (notifyState ls st s) = sdkClientId s"
  "connectionState (notifyState ls st s) = connectionState s"
  "reconnectAttempt (notifyState ls st s) = reconnectAttempt s"
  "reconnectTimer (notifyState ls st s) = reconnectTimer s"
  "intentionalDisconnect (notifyState ls st s) = intentionalDisconnect s"
  "sockets (notifyState ls st s) = sockets s"
  "sent (notifyState ls st s) = sent s"
  "awaiting (notifyState ls st s) = awaiting s"
  "microtasks (notifyState ls st s) = microtasks s"
  "fresh (notifyState ls st s) = fresh s"
  by (induction ls arbitrary: s; simp split: option.splits)+

lemma notifyState_append:
  "notifyState (xs @ ys) st s = notifyState ys st (notifyState xs st s)"
  by (induction xs arbitrary: s) (simp_all split: option.splits)

lemma notifyState_others:
  "l \<notin> set ls \<Longrightarrow> map_of (stateListeners (notifyState ls st s)) l = map_of (stateListeners s) l"
  by (induction ls arbitrary: s) (auto simp: tryStateListener_others split: option.splits)

lemma notifyState_timers:
  "timers s t = None \<Longrightarrow> timers (notifyState ls st s) t = None"
  by (induction ls arbitrary: s) (auto simp: tryStateListener_timers split: option.splits)

lemma notifyState_settled:
  "x \<in> set (settled s) \<Longrightarrow> x \<in> set (settled (notifyState ls st s))"
  by (induction ls arbitrary: s) (auto simp: tryStateListener_settled split: option.splits)

text \<open>Every listener of the list is called, in order, whatever the others do.\<close>

lemma notifyState_all:
  assumes "distinct (map fst xs)"
    and "\<forall>(l, f) \<in> set xs. map_of (stateListeners s) l = Some f"
  shows "notified (notifyState (map fst xs) st s) = notified s @ map (\<lambda>(l, f). (l, st)) xs \<and>
         console_errors (notifyState (map fst xs) st s) =
           console_errors s @ concat (map (\<lambda>(l, f). logged f st) xs)"
  using assms
proof (induction xs arbitrary: s)
  case Nil
  then show ?case by simp
next
  case (Cons x xs)
  obtain l f where x: "x = (l, f)" by (cases x)
  let ?s = "tryStateListener l f st s"
  have here: "map_of (stateListeners s) l = Some f" using Cons.prems x by simp
  have rest: "\<forall>(l', f') \<in> set xs. map_of (stateListeners ?s) l' = Some f'"
  proof (clarify)
    fix l' f' assume in_xs: "(l', f') \<in> set xs"
    then have "l' \<noteq> l" using Cons.prems(1) x by force
    moreover have "map_of (stateListeners s) l' = Some f'" using Cons.prems(2) in_xs by auto
    ultimately show "map_of (stateListeners ?s) l' = Some f'"
      by (simp add: tryStateListener_others)
  qed
  have "distinct (map fst xs)" using Cons.prems(1) by simp
  from Cons.IH [OF this rest] show ?case using here x by simp
qed

lemma map_of_self:
  "distinct (map fst xs) \<Longrightarrow> \<forall>(l, f) \<in> set xs. map_of xs l = Some f"
  by auto

text \<open>
  C9. A state push (a message of type \<open>sdk_state\<close> that carries a state) replaces the
  stored snapshot and calls every subscribed listener with it, once each and in
  subscription order, whichever of them throw: \<open>handleMessage\<close> returns normally, and
  the exceptions thrown are the ones passed to \<open>console.error\<close>, nothing else. The
  listeners are a Set, so their keys are distinct.
\<close>

theorem state_push_fanout:
  assumes "parse data = Some m"
    and "field m ''type'' = Some (JStr ''sdk_state'')"
    and "field m ''state'' = Some st"
    and "truthy st"
    and "distinct (map fst (stateListeners s))"
  shows "\<exists>s'. handleMessage parse data s = Inr s' \<and>
           state s' = Some st \<and>
           notified s' = notified s @ map (\<lambda>(l, f). (l, st)) (stateListeners s) \<and>
           console_errors s' = console_errors s @ concat (map (\<lambda>(l, f). logged f st) (stateListeners s))"
proof -
  let ?s1 = "s\<lparr>state := Some st\<rparr>"
  let ?s2 = "notifyState (map fst (stateListeners s)) st ?s1"
  have notnull: "m \<noteq> JNull" using assms(2) by auto
  have push: "handle_sdk_state m s = ?s2"
    using assms by (simp add: handle_sdk_state_def truthy_field_def)
  have r: "handle_sdk_action_result m ?s2 = ?s2"
    using assms(2) by (simp add: handle_sdk_action_result_def)
  have e: "handle_sdk_error m ?s2 = ?s2"
    using assms(2) by (simp add: handle_sdk_error_def)
  have hm: "handleMessage parse data s = Inr ?s2"
    using assms(1) notnull push r e by (cases m) (simp_all add: handleMessage_def)
  have pre: "\<forall>(l, f) \<in> set (stateListeners s). map_of (stateListeners ?s1) l = Some f"
    using map_of_self [OF assms(5)] by simp
  from notifyState_all [OF assms(5) pre, of st] hm show ?thesis by simp
qed

theorem state_push_fanout_witness:
  \<open>example_parse ''{"type":"sdk_state","state":{"tick":1}}'' =
     Some (JObj [(''type'', JStr ''sdk_state''), (''state'', JObj [(''tick'', JNum 1)])]) \<and>
   distinct (map fst (stateListeners three_listeners)) \<and>
   (\<exists>s'. handleMessage example_parse ''{"type":"sdk_state","state":{"tick":1}}'' three_listeners = Inr s' \<and>
      state s' = Some (JObj [(''tick'', JNum 1)]) \<and>
      notified s' = [(0, JObj [(''tick'', JNum 1)]), (1, JObj [(''tick'', JNum 1)]),
                     (2, JObj [(''tick'', JNum 1)])] \<and>
      console_errors s' = [(''State listener error:'', Error (JStr ''boom''))])\<close>
proof -
  have p: \<open>example_parse ''{"type":"sdk_state","state":{"tick":1}}'' =
     Some (JObj [(''type'', JStr ''sdk_state''), (''state'', JObj [(''tick'', JNum 1)])])\<close>
    by (simp add: example_parse_def)
  have d: "distinct (map fst (stateListeners three_listeners))"
    by (simp add: three_listeners_def onStateUpdate_def new_BotSDK_def)
  have l: "stateListeners three_listeners =
     [(0, UserStateListener (\<lambda>st. None)),
      (1, UserStateListener (\<lambda>st. Some (Error (JStr ''boom'')))),
      (2, UserStateListener (\<lambda>st. None))]"
    by (simp add: three_listeners_def onStateUpdate_def new_BotSDK_def)
  have n: "notified three_listeners = []" "console_errors three_listeners = []"
    by (simp_all add: three_listeners_def onStateUpdate_def new_BotSDK_def)
  from state_push_fanout [of example_parse \<open>''{"type":"sdk_state","state":{"tick":1}}''\<close>
      \<open>JObj [(''type'', JStr ''sdk_state''), (''state'', JObj [(''tick'', JNum 1)])]\<close>
      \<open>JObj [(''tick'', JNum 1)]\<close> three_listeners]
  show ?thesis using p d by (simp add: l n logged_def)
qed

subsection \<open>Evaluating the examples\<close>

lemmas sdk_defs =
  new_BotSDK_def default_config_def fill_config_def or_default_def nullish_default_def
  step_def drain_def connect_def disconnect_def isConnected_def send_def
  setConnectionState_def scheduleReconnect_def retries_exhausted_def
  socketEvent_def onopen_def onclose_def onerror_def onmessage_def checkConnected_def
  handleMessage_def handle_sdk_state_def handle_sdk_action_result_def handle_sdk_error_def
  truthy_field_def settle_def settleWaitConnection_def clearTimeout_def socket_close_def
  unsubscribeState_def unsubscribeConnection_def tryStateListener_def tryConnectionListener_def
  sendAction_def sendAction_body_def waitForConnection_def waitForCondition_def
  subscribeCondition_def waitForStateChange_def onStateUpdate_def onConnectionStateChange_def
  fireTimer_def action_json_def Let_def


lemma parse_connected:
  \<open>example_parse ''{"type":"sdk_connected"}'' = Some (JObj [(''type'', JStr ''sdk_connected'')])\<close>
  by (simp add: example_parse_def)

lemma parse_ack:
  \<open>example_parse ''{"type":"sdk_action_result","actionId":"act-1","result":{"success":true}}'' =
     Some (JObj [(''type'', JStr ''sdk_action_result''), (''actionId'', JStr ''act-1''),
                 (''result'', JObj [(''success'', JBool True)])])\<close>
  by (simp add: example_parse_def)

lemma parse_tick2:
  \<open>example_parse ''{"type":"sdk_state","state":{"tick":2}}'' =
     Some (JObj [(''type'', JStr ''sdk_state''), (''state'', JObj [(''tick'', JNum 2)])])\<close>
  by (simp add: example_parse_def)

lemma connected_example_fields:
  "ws connected_example = Some 1"
  "sockets connected_example (Suc 0) =
     Some \<lparr>readyState = OPEN, connectTimer = 2, connectResolver = 0, checkConnected_attached = False\<rparr>"
  "connectionState connected_example = Connected"
  "pendingActions connected_example = []"
  "settled connected_example = [(ConnectPromise 0, Resolved JNull)]"
  "timers connected_example t = None"
  "fresh connected_example = 3"
  "config connected_example = fill_config default_config"
  "microtasks connected_example = []"
  "awaiting connected_example = []"
  unfolding connected_example_def
  by (simp_all add: sdk_defs parse_connected)

lemma waiting_example_fields:
  "stateListeners waiting_example = [(2, WaitForConditionListener (tick_is 2) 1 0)]"
  "timers waiting_example (Suc 0) = Some \<lparr>delay = 30000, callback = WaitConditionTimeout 2 0\<rparr>"
  "settled waiting_example = []"
  "state waiting_example = None"
  unfolding waiting_example_def
  by (simp_all add: sdk_defs)

subsection \<open>Waiting for a condition\<close>

lemma map_of_delete_same: "map_of (AList.delete k al) k = None"
  by (simp add: AList.delete_conv')

text \<open>
  C7. \<open>waitForCondition\<close> tests the stored snapshot before it subscribes: when one is
  stored and the predicate holds on it, the call returns that snapshot and changes
  nothing, so it waits for no push. Otherwise it subscribes a listener and arms a timer
  of the given delay. When a push on which the predicate holds reaches that listener,
  the listener is removed from the set, the timer is cleared and the promise is resolved
  with the pushed snapshot; when the timer elapses, the listener is removed and the
  promise is rejected.
\<close>

theorem waitForCondition_checks_first:
  "(state s = Some st \<and> predicate st = Inr True \<longrightarrow>
      waitForCondition predicate ms s = (Now st, s)) \<and>
   (state s = None \<or> (\<exists>st'. state s = Some st' \<and> predicate st' = Inr False) \<longrightarrow>
      fst (waitForCondition predicate ms s) = Later (fresh s) \<and>
      map_of (stateListeners (snd (waitForCondition predicate ms s))) (fresh s + 2) =
        Some (WaitForConditionListener predicate (fresh s + 1) (fresh s)) \<and>
      timers (snd (waitForCondition predicate ms s)) (fresh s + 1) =
        Some \<lparr>delay = ms, callback = WaitConditionTimeout (fresh s + 2) (fresh s)\<rparr> \<and>
      settled (snd (waitForCondition predicate ms s)) = settled s) \<and>
   (map_of (stateListeners s2) l2 = Some (WaitForConditionListener predicate t2 p2) \<and>
    distinct (map fst (stateListeners s2)) \<and>
    parse data = Some m \<and> field m ''type'' = Some (JStr ''sdk_state'') \<and>
    field m ''state'' = Some st2 \<and> truthy st2 \<and> predicate st2 = Inr True \<longrightarrow>
      (\<exists>s3. handleMessage parse data s2 = Inr s3 \<and>
         map_of (stateListeners s3) l2 = None \<and>
         timers s3 t2 = None \<and>
         (WaitCondition p2, Resolved st2) \<in> set (settled s3))) \<and>
   (timers s4 t4 = Some \<lparr>delay = ms4, callback = WaitConditionTimeout l4 p4\<rparr> \<longrightarrow>
      map_of (stateListeners (fireTimer t4 s4)) l4 = None \<and>
      timers (fireTimer t4 s4) t4 = None \<and>
      settled (fireTimer t4 s4) =
        settled s4 @ [(WaitCondition p4, Rejected (Error (JStr ''waitForCondition timed out'')))])"
proof -
  have A: "waitForCondition predicate ms s = (Now st, s)"
    if "state s = Some st \<and> predicate st = Inr True"
    using that by (simp add: waitForCondition_def)
  have B: "fst (waitForCondition predicate ms s) = Later (fresh s) \<and>
      map_of (stateListeners (snd (waitForCondition predicate ms s))) (fresh s + 2) =
        Some (WaitForConditionListener predicate (fresh s + 1) (fresh s)) \<and>
      timers (snd (waitForCondition predicate ms s)) (fresh s + 1) =
        Some \<lparr>delay = ms, callback = WaitConditionTimeout (fresh s + 2) (fresh s)\<rparr> \<and>
      settled (snd (waitForCondition predicate ms s)) = settled s"
    if "state s = None \<or> (\<exists>st'. state s = Some st' \<and> predicate st' = Inr False)"
  proof -
    have "waitForCondition predicate ms s = subscribeCondition predicate ms s"
      using that by (auto simp: waitForCondition_def)
    then show ?thesis by (simp add: subscribeCondition_def Let_def AList.update_conv')
  qed
  have C: "\<exists>s3. handleMessage parse data s2 = Inr s3 \<and>
         map_of (stateListeners s3) l2 = None \<and>
         timers s3 t2 = None \<and>
         (WaitCondition p2, Resolved st2) \<in> set (settled s3)"
    if a: "map_of (stateListeners s2) l2 = Some (WaitForConditionListener predicate t2 p2) \<and>
      distinct (map fst (stateListeners s2)) \<and>
      parse data = Some m \<and> field m ''type'' = Some (JStr ''sdk_state'') \<and>
      field m ''state'' = Some st2 \<and> truthy st2 \<and> predicate st2 = Inr True"
  proof -
    let ?s1 = "s2\<lparr>state := Some st2\<rparr>"
    let ?keys = "map fst (stateListeners s2)"
    let ?s3 = "notifyState ?keys st2 ?s1"
    have notnull: "m \<noteq> JNull" using a by auto
    have push: "handle_sdk_state m s2 = ?s3"
      using a by (simp add: handle_sdk_state_def truthy_field_def)
    have r: "handle_sdk_action_result m ?s3 = ?s3"
      using a by (simp add: handle_sdk_action_result_def)
    have e: "handle_sdk_error m ?s3 = ?s3"
      using a by (simp add: handle_sdk_error_def)
    have hm: "handleMessage parse data s2 = Inr ?s3"
      using a notnull push r e by (cases m) (simp_all add: handleMessage_def)
    have "l2 \<in> set ?keys"
      using a by (metis map_of_eq_None_iff option.distinct(1) set_map)
    then obtain xs ys where split: "?keys = xs @ l2 # ys" by (meson split_list)
    have "distinct (xs @ l2 # ys)" using a split by simp
    then have nx: "l2 \<notin> set xs" and ny: "l2 \<notin> set ys" by simp_all
    let ?sA = "notifyState xs st2 ?s1"
    let ?sB = "tryStateListener l2 (WaitForConditionListener predicate t2 p2) st2 ?sA"
    have hereA: "map_of (stateListeners ?sA) l2 = Some (WaitForConditionListener predicate t2 p2)"
      using a nx by (simp add: notifyState_others)
    have s3: "?s3 = notifyState ys st2 ?sB"
      using hereA by (simp add: split notifyState_append)
    have B1: "map_of (stateListeners ?sB) l2 = None"
      using a by (simp add: tryStateListener_def Let_def unsubscribeState_def settle_def
          clearTimeout_def map_of_delete_same)
    have B2: "timers ?sB t2 = None"
      using a by (simp add: tryStateListener_def Let_def unsubscribeState_def settle_def
          clearTimeout_def)
    have B3: "(WaitCondition p2, Resolved st2) \<in> set (settled ?sB)"
      using a by (simp add: tryStateListener_def Let_def unsubscribeState_def settle_def
          clearTimeout_def)
    have "map_of (stateListeners ?s3) l2 = None"
      using B1 ny by (simp add: s3 notifyState_others)
    moreover have "timers ?s3 t2 = None" using B2 by (simp add: s3 notifyState_timers)
    moreover have "(WaitCondition p2, Resolved st2) \<in> set (settled ?s3)"
      using B3 by (simp add: s3 notifyState_settled)
    ultimately show ?thesis using hm by blast
  qed
  have D: "map_of (stateListeners (fireTimer t4 s4)) l4 = None \<and>
      timers (fireTimer t4 s4) t4 = None \<and>
      settled (fireTimer t4 s4) =
        settled s4 @ [(WaitCondition p4, Rejected (Error (JStr ''waitForCondition timed out'')))]"
    if "timers s4 t4 = Some \<lparr>delay = ms4, callback = WaitConditionTimeout l4 p4\<rparr>"
    using that
    by (simp add: fireTimer_def unsubscribeState_def settle_def clearTimeout_def
        map_of_delete_same)
  show ?thesis using A B C D by blast
qed

theorem waitForCondition_checks_first_witness:
  \<open>waitForCondition (tick_is 2) 30000
     ((new_BotSDK default_config ''sdk-1'')\<lparr>state := Some (JObj [(''tick'', JNum 2)])\<rparr>) =
     (Now (JObj [(''tick'', JNum 2)]),
      (new_BotSDK default_config ''sdk-1'')\<lparr>state := Some (JObj [(''tick'', JNum 2)])\<rparr>) \<and>
   fst (waitForCondition (tick_is 2) 30000 (new_BotSDK default_config ''sdk-1'')) = Later 0 \<and>
   (\<exists>s3. handleMessage example_parse ''{"type":"sdk_state","state":{"tick":2}}'' waiting_example = Inr s3 \<and>
      map_of (stateListeners s3) 2 = None \<and> timers s3 1 = None \<and>
      (WaitCondition 0, Resolved (JObj [(''tick'', JNum 2)])) \<in> set (settled s3)) \<and>
   map_of (stateListeners (fireTimer 1 waiting_example)) 2 = None \<and>
   settled (fireTimer 1 waiting_example) =
     [(WaitCondition 0, Rejected (Error (JStr ''waitForCondition timed out'')))]\<close>
proof -
  note now = waitForCondition_checks_first
      [of "(new_BotSDK default_config ''sdk-1'')\<lparr>state := Some (JObj [(''tick'', JNum 2)])\<rparr>"
          \<open>JObj [(''tick'', JNum 2)]\<close> "tick_is 2" 30000
          waiting_example 2 1 0 example_parse
          \<open>''{"type":"sdk_state","state":{"tick":2}}''\<close>
          \<open>JObj [(''type'', JStr ''sdk_state''), (''state'', JObj [(''tick'', JNum 2)])]\<close>
          \<open>JObj [(''tick'', JNum 2)]\<close> waiting_example 1 30000 2 0]
  note later = waitForCondition_checks_first
      [of "new_BotSDK default_config ''sdk-1''" _ "tick_is 2" 30000
          waiting_example 2 1 0 example_parse
          \<open>''{"type":"sdk_state","state":{"tick":2}}''\<close>
          \<open>JObj [(''type'', JStr ''sdk_state''), (''state'', JObj [(''tick'', JNum 2)])]\<close>
          \<open>JObj [(''tick'', JNum 2)]\<close> waiting_example 1 30000 2 0]
  have st: "state (new_BotSDK default_config ''sdk-1'') = None"
    "fresh (new_BotSDK default_config ''sdk-1'') = 0"
    by (simp_all add: new_BotSDK_def)
  have pr: "tick_is 2 (JObj [(''tick'', JNum 2)]) = Inr True" by (simp add: tick_is_def)
  show ?thesis using now later parse_tick2
    by (simp add: st pr waiting_example_fields)
qed

subsection \<open>Action timeout\<close>

lemma checkConnected_other_type:
  "parse data = Some m \<Longrightarrow> field m ''type'' \<noteq> Some (JStr ''sdk_connected'') \<Longrightarrow>
   checkConnected parse w data s = s"
  by (cases m) (simp_all add: checkConnected_def split: option.splits)

text \<open>
  C2. \<open>sendAction\<close> on an open connection registers the pending action and arms a timer
  of \<open>actionTimeout\<close> milliseconds for it. When that timer elapses (so no
  acknowledgement has cleared it), the promise is rejected with the error
  \<open>Action timed out: type\<close> and the entry for the id is gone. An
  \<open>sdk_action_result\<close> for that id that arrives afterwards, or in any state where the
  id has no entry, changes nothing: \<open>handleMessage\<close> returns the object as it was, and
  so does the whole \<open>message\<close> event. The class has no error type of its own; the
  error is told by its message.
\<close>

theorem action_timeout_then_late_ack:
  "(isConnected s0 \<and> connectionState s0 \<noteq> Reconnecting \<longrightarrow>
      map_of (pendingActions (snd (sendAction action actionId s0))) actionId =
        Some \<lparr>future = fst (sendAction action actionId s0), timeout = Suc (fresh s0)\<rparr> \<and>
      timers (snd (sendAction action actionId s0)) (Suc (fresh s0)) =
        Some \<lparr>delay = actionTimeout (config s0),
              callback = ActionTimeout actionId (fst (sendAction action actionId s0)) (action_type action)\<rparr> \<and>
      settled (snd (sendAction action actionId s0)) = settled s0) \<and>
   (timers s t = Some \<lparr>delay = d, callback = ActionTimeout actionId f ty\<rparr> \<longrightarrow>
      settled (fireTimer t s) =
        settled s @ [(ActionFuture f, Rejected (Error (JStr (''Action timed out: '' @ ty))))] \<and>
      map_of (pendingActions (fireTimer t s)) actionId = None \<and>
      timers (fireTimer t s) t = None \<and>
      (parse data = Some m \<and> field m ''type'' = Some (JStr ''sdk_action_result'') \<and>
       field m ''actionId'' = Some (JStr actionId) \<longrightarrow>
         handleMessage parse data (fireTimer t s) = Inr (fireTimer t s) \<and>
         onmessage parse w data (fireTimer t s) = fireTimer t s)) \<and>
   (parse data = Some m \<and> field m ''type'' = Some (JStr ''sdk_action_result'') \<and>
    field m ''actionId'' = Some (JStr actionId) \<and> map_of (pendingActions s') actionId = None \<longrightarrow>
      handleMessage parse data s' = Inr s' \<and> onmessage parse w data s' = s')"
proof -
  have late: "handleMessage parse data s1 = Inr s1 \<and> onmessage parse w data s1 = s1"
    if m: "parse data = Some m" "field m ''type'' = Some (JStr ''sdk_action_result'')"
      "field m ''actionId'' = Some (JStr actionId)"
      and gone: "map_of (pendingActions s1) actionId = None" for s1
  proof -
    have nn: "m \<noteq> JNull" using m by auto
    have "handle_sdk_error m (handle_sdk_action_result m (handle_sdk_state m s1)) = s1"
      using m gone
      by (simp add: handle_sdk_state_skip handle_sdk_action_result_skip handle_sdk_error_skip)
    then have "handleMessage parse data s1 = Inr s1"
      using m nn by (cases m) (simp_all add: handleMessage_def)
    moreover have "checkConnected parse w data s1 = s1"
      using m by (simp add: checkConnected_other_type)
    ultimately show ?thesis by (simp add: onmessage_def split: option.splits)
  qed
  have reg: "map_of (pendingActions (snd (sendAction action actionId s0))) actionId =
        Some \<lparr>future = fst (sendAction action actionId s0), timeout = Suc (fresh s0)\<rparr> \<and>
      timers (snd (sendAction action actionId s0)) (Suc (fresh s0)) =
        Some \<lparr>delay = actionTimeout (config s0),
              callback = ActionTimeout actionId (fst (sendAction action actionId s0)) (action_type action)\<rparr> \<and>
      settled (snd (sendAction action actionId s0)) = settled s0"
    if "isConnected s0 \<and> connectionState s0 \<noteq> Reconnecting"
    using that
    by (auto simp: sendAction_def sendAction_body_def Let_def isConnected_def send_def
        AList.update_conv' split: option.splits)
  have fire: "settled (fireTimer t s) =
        settled s @ [(ActionFuture f, Rejected (Error (JStr (''Action timed out: '' @ ty))))] \<and>
      map_of (pendingActions (fireTimer t s)) actionId = None \<and>
      timers (fireTimer t s) t = None"
    if "timers s t = Some \<lparr>delay = d, callback = ActionTimeout actionId f ty\<rparr>"
    using that by (simp add: fireTimer_def settle_def clearTimeout_def map_of_delete_same)
  show ?thesis using late reg fire by blast
qed


theorem action_timeout_then_late_ack_witness:
  \<open>isConnected connected_example \<and> connectionState connected_example \<noteq> Reconnecting \<and>
   timers (snd (sendAction walk ''act-1'' connected_example)) 4 =
     Some \<lparr>delay = 30000, callback = ActionTimeout ''act-1'' 3 ''walkTo''\<rparr> \<and>
   settled (fireTimer 4 (snd (sendAction walk ''act-1'' connected_example))) =
     [(ConnectPromise 0, Resolved JNull),
      (ActionFuture 3, Rejected (Error (JStr ''Action timed out: walkTo'')))] \<and>
   map_of (pendingActions (fireTimer 4 (snd (sendAction walk ''act-1'' connected_example)))) ''act-1'' = None \<and>
   handleMessage example_parse
     ''{"type":"sdk_action_result","actionId":"act-1","result":{"success":true}}''
     (fireTimer 4 (snd (sendAction walk ''act-1'' connected_example))) =
     Inr (fireTimer 4 (snd (sendAction walk ''act-1'' connected_example)))\<close>
proof -
  have c: "isConnected connected_example" "connectionState connected_example \<noteq> Reconnecting"
    by (simp_all add: isConnected_def connected_example_fields)
  have f: "fst (sendAction walk ''act-1'' connected_example) = 3"
    using c by (simp add: sendAction_def Let_def connected_example_fields)
  have a: "action_type walk = ''walkTo''" by (simp add: walk_def)
  have cfg: "actionTimeout (fill_config default_config) = 30000"
    by (simp add: fill_config_def default_config_def or_default_def)
  note inst = action_timeout_then_late_ack [of connected_example walk \<open>''act-1''\<close>
      "snd (sendAction walk ''act-1'' connected_example)" 4 30000 3 \<open>''walkTo''\<close> example_parse
      \<open>''{"type":"sdk_action_result","actionId":"act-1","result":{"success":true}}''\<close>
      \<open>JObj [(''type'', JStr ''sdk_action_result''), (''actionId'', JStr ''act-1''),
                 (''result'', JObj [(''success'', JBool True)])]\<close> 1 connected_example]
  show ?thesis using inst c parse_ack by (simp add: f a cfg connected_example_fields)
qed

subsection \<open>Disconnecting with actions pending\<close>

lemma pending_example_fields:
  "ws pending_example = Some 1"
  "sockets pending_example (Suc 0) =
     Some \<lparr>readyState = OPEN, connectTimer = 2, connectResolver = 0, checkConnected_attached = False\<rparr>"
  "connectionState pending_example = Connected"
  "pendingActions pending_example = [(''act-1'', \<lparr>future = 3, timeout = 4\<rparr>)]"
  "settled pending_example = [(ConnectPromise 0, Resolved JNull)]"
  "timers pending_example 4 = Some \<lparr>delay = 30000, callback = ActionTimeout ''act-1'' 3 ''walkTo''\<rparr>"
  "fresh pending_example = 5"
  "microtasks pending_example = []"
  "reconnectTimer pending_example = None"
  "connectionListeners pending_example = []"
  unfolding pending_example_def connected_example_def
  by (simp_all add: sdk_defs parse_connected walk_def)

lemma tryConnectionListener_actions:
  "action_settlements (tryConnectionListener l f st a s) = action_settlements s"
  by (cases f) (simp_all add: tryConnectionListener_def action_settlements_def
      unsubscribeConnection_def clearTimeout_def split: option.splits)

lemma tryConnectionListener_timers:
  "timers (tryConnectionListener l f st a s) t = Some tm \<Longrightarrow> timers s t = Some tm"
  by (cases f) (auto simp: tryConnectionListener_def unsubscribeConnection_def clearTimeout_def
      split: option.splits if_splits)

lemma notifyConnection_actions:
  "action_settlements (notifyConnection ls st a s) = action_settlements s"
  by (induction ls arbitrary: s) (simp_all add: tryConnectionListener_actions split: option.splits)

lemma notifyConnection_timers:
  "timers (notifyConnection ls st a s) t = Some tm \<Longrightarrow> timers s t = Some tm"
proof (induction ls arbitrary: s)
  case Nil
  then show ?case by simp
next
  case (Cons l ls)
  show ?case
  proof (cases "map_of (connectionListeners s) l")
    case None
    with Cons show ?thesis by simp
  next
    case (Some f)
    with Cons.prems have "timers (notifyConnection ls st a (tryConnectionListener l f st a s)) t = Some tm"
      by simp
    then have "timers (tryConnectionListener l f st a s) t = Some tm" by (rule Cons.IH)
    then show ?thesis by (rule tryConnectionListener_timers)
  qed
qed

lemma setConnectionState_actions:
  "action_settlements (setConnectionState st a s) = action_settlements s"
  by (simp add: setConnectionState_def Let_def notifyConnection_actions)
     (simp add: action_settlements_def)

lemma setConnectionState_timers:
  "timers (setConnectionState st a s) t = Some tm \<Longrightarrow> timers s t = Some tm"
  unfolding setConnectionState_def Let_def
  by (drule notifyConnection_timers) simp

lemma setConnectionState_timers_None:
  "timers s t = None \<Longrightarrow> timers (setConnectionState st a s) t = None"
  using setConnectionState_timers [of st a s t] by (cases "timers (setConnectionState st a s) t") auto

lemma rejectPending_frame [simp]:
  "config (rejectPending ps s) = config s"
  "ws (rejectPending ps s) = ws s"
  "state (rejectPending ps s) = state s"
  "pendingActions (rejectPending ps s) = pendingActions s"
  "stateListeners (rejectPending ps s) = stateListeners s"
  "connectionListeners (rejectPending ps s) = connectionListeners s"
  "connectPromise (rejectPending ps s) = connectPromise s"
  "sdkClientId (rejectPending ps s) = sdkClientId s"
  "connectionState (rejectPending ps s) = connectionState s"
  "reconnectAttempt (rejectPending ps s) = reconnectAttempt s"
  "reconnectTimer (rejectPending ps s) = reconnectTimer s"
  "intentionalDisconnect (rejectPending ps s) = intentionalDisconnect s"
  "sockets (rejectPending ps s) = sockets s"
  "sent (rejectPending ps s) = sent s"
  "notified (rejectPending ps s) = notified s"
  "console_errors (rejectPending ps s) = console_errors s"
  "awaiting (rejectPending ps s) = awaiting s"
  "microtasks (rejectPending ps s) = microtasks s"
  "fresh (rejectPending ps s) = fresh s"
  by (induction ps s rule: rejectPending.induct; simp add: settle_def clearTimeout_def)+

lemma rejectPending_settled:
  "settled (rejectPending ps s) = settled s @ closed_rejections ps"
  by (induction ps s rule: rejectPending.induct)
     (simp_all add: settle_def clearTimeout_def closed_rejections_def)

lemma rejectPending_timers:
  "timers (rejectPending ps s) t =
     (if t \<in> timeout ` snd ` set ps then None else timers s t)"
  by (induction ps s rule: rejectPending.induct)
     (auto simp: settle_def clearTimeout_def)

lemma closed_rejections_actions: "filter is_action (closed_rejections ps) = closed_rejections ps"
  by (induction ps) (auto simp: closed_rejections_def)


subsection \<open>Resolutions of connect promises\<close>

lemma cr_update [simp]:
  "connect_resolutions (s\<lparr>config := a1\<rparr>) = connect_resolutions s"
  "connect_resolutions (s\<lparr>ws := a2\<rparr>) = connect_resolutions s"
  "connect_resolutions (s\<lparr>state := a3\<rparr>) = connect_resolutions s"
  "connect_resolutions (s\<lparr>pendingActions := a4\<rparr>) = connect_resolutions s"
  "connect_resolutions (s\<lparr>stateListeners := a5\<rparr>) = connect_resolutions s"
  "connect_resolutions (s\<lparr>connectionListeners := a6\<rparr>) = connect_resolutions s"
  "connect_resolutions (s\<lparr>connectPromise := a7\<rparr>) = connect_resolutions s"
  "connect_resolutions (s\<lparr>connectionState := a8\<rparr>) = connect_resolutions s"
  "connect_resolutions (s\<lparr>reconnectAttempt := a9\<rparr>) = connect_resolutions s"
  "connect_resolutions (s\<lparr>reconnectTimer := a10\<rparr>) = connect_resolutions s"
  "connect_resolutions (s\<lparr>intentionalDisconnect := a11\<rparr>) = connect_resolutions s"
  "connect_resolutions (s\<lparr>sockets := a12\<rparr>) = connect_resolutions s"
  "connect_resolutions (s\<lparr>timers := a13\<rparr>) = connect_resolutions s"
  "connect_resolutions (s\<lparr>sent := a14\<rparr>) = connect_resolutions s"
  "connect_resolutions (s\<lparr>notified := a15\<rparr>) = connect_resolutions s"
  "connect_resolutions (s\<lparr>console_errors := a16\<rparr>) = connect_resolutions s"
  "connect_resolutions (s\<lparr>awaiting := a17\<rparr>) = connect_resolutions s"
  "connect_resolutions (s\<lparr>microtasks := a18\<rparr>) = connect_resolutions s"
  "connect_resolutions (s\<lparr>fresh := a19\<rparr>) = connect_resolutions s"
  by (simp_all add: connect_resolutions_def)

lemma cr_settle [simp]:
  "connect_resolutions (settle p r s) =
     connect_resolutions s @ (if is_connect_resolution (p, r) then [(p, r)] else [])"
  by (simp add: connect_resolutions_def settle_def)

lemma cr_prims [simp]:
  "connect_resolutions (clearTimeout t s) = connect_resolutions s"
  "connect_resolutions (unsubscribeState l s) = connect_resolutions s"
  "connect_resolutions (unsubscribeConnection l s) = connect_resolutions s"
  "connect_resolutions (socket_close w s) = connect_resolutions s"
  "connect_resolutions (send m s) = connect_resolutions s"
  "connect_resolutions (settleWaitConnection n r s) = connect_resolutions s"
  by (simp_all add: clearTimeout_def unsubscribeState_def unsubscribeConnection_def
      socket_close_def send_def settleWaitConnection_def Let_def split: option.splits)

lemma cr_tryConnectionListener [simp]:
  "connect_resolutions (tryConnectionListener l f st a s) = connect_resolutions s"
  by (cases f) (simp_all add: tryConnectionListener_def split: option.splits)

lemma cr_notifyConnection [simp]:
  "connect_resolutions (notifyConnection ls st a s) = connect_resolutions s"
  by (induction ls arbitrary: s) (simp_all split: option.splits)

lemma cr_setConnectionState [simp]:
  "connect_resolutions (setConnectionState st a s) = connect_resolutions s"
  by (simp add: setConnectionState_def Let_def)

lemma cr_tryStateListener [simp]:
  "connect_resolutions (tryStateListener l f st s) = connect_resolutions s"
  by (cases f) (simp_all add: tryStateListener_def Let_def split: option.splits sum.splits bool.splits)

lemma cr_notifyState [simp]:
  "connect_resolutions (notifyState ls st s) = connect_resolutions s"
  by (induction ls arbitrary: s) (simp_all split: option.splits)

lemma cr_rejectPending [simp]:
  "connect_resolutions (rejectPending ps s) = connect_resolutions s"
  by (induction ps s rule: rejectPending.induct) simp_all

lemma cr_scheduleReconnect [simp]:
  "connect_resolutions (scheduleReconnect s) = connect_resolutions s"
  by (simp add: scheduleReconnect_def Let_def)

lemma cr_connect [simp]: "connect_resolutions (snd (connect s)) = connect_resolutions s"
  by (simp add: connect_def Let_def split: option.splits)

lemma cr_disconnect [simp]: "connect_resolutions (disconnect s) = connect_resolutions s"
  by (simp add: disconnect_def Let_def split: option.splits)

lemma cr_onclose [simp]: "connect_resolutions (onclose s) = connect_resolutions s"
  by (simp add: onclose_def Let_def)

lemma cr_onopen [simp]: "connect_resolutions (onopen w s) = connect_resolutions s"
  by (simp add: onopen_def split: option.splits)

lemma cr_onerror [simp]: "connect_resolutions (onerror w s) = connect_resolutions s"
  by (simp add: onerror_def split: option.splits)

lemma cr_sendAction_body [simp]:
  "connect_resolutions (sendAction_body f a i s) = connect_resolutions s"
  by (simp add: sendAction_body_def Let_def)

lemma cr_waitForConnection [simp]:
  "connect_resolutions (snd (waitForConnection ms s)) = connect_resolutions s"
  by (simp add: waitForConnection_def Let_def)

lemma cr_sendAction [simp]:
  "connect_resolutions (snd (sendAction a i s)) = connect_resolutions s"
proof -
  have "connect_resolutions (snd (waitForConnection 60000 (s\<lparr>fresh := Suc (fresh s)\<rparr>))) =
          connect_resolutions s"
    by (simp del: cr_update)  (simp add: connect_resolutions_def)
  then show ?thesis
    by (cases "waitForConnection 60000 (s\<lparr>fresh := Suc (fresh s)\<rparr>)")
       (auto simp: sendAction_def Let_def split: option.splits)
qed

lemma cr_runMicrotask [simp]:
  "connect_resolutions (runMicrotask m s) = connect_resolutions s"
  by (induction m s rule: runMicrotask.induct) simp_all

lemma cr_foldl_microtasks:
  "connect_resolutions (foldl (\<lambda>s' m. runMicrotask m s') s ms) = connect_resolutions s"
  by (induction ms arbitrary: s) simp_all

lemma cr_drain [simp]: "connect_resolutions (drain s) = connect_resolutions s"
  by (simp add: drain_def cr_foldl_microtasks)

lemma cr_waits [simp]:
  "connect_resolutions (snd (waitForCondition pr ms s)) = connect_resolutions s"
  "connect_resolutions (snd (waitForStateChange ms s)) = connect_resolutions s"
  "connect_resolutions (snd (onStateUpdate f s)) = connect_resolutions s"
  "connect_resolutions (snd (onConnectionStateChange g s)) = connect_resolutions s"
  by (simp_all add: waitForCondition_def subscribeCondition_def waitForStateChange_def
      onStateUpdate_def onConnectionStateChange_def Let_def
      split: option.splits sum.splits bool.splits)

lemma cr_runTimer [simp]: "connect_resolutions (runTimer cb s) = connect_resolutions s"
  by (cases cb) (simp_all add: Let_def split: option.splits)

lemma cr_fireTimer [simp]: "connect_resolutions (fireTimer t s) = connect_resolutions s"
  by (simp add: fireTimer_def split: option.splits)

lemma cr_handlers [simp]:
  "connect_resolutions (handle_sdk_state m s) = connect_resolutions s"
  "connect_resolutions (handle_sdk_action_result m s) = connect_resolutions s"
  "connect_resolutions (handle_sdk_error m s) = connect_resolutions s"
  by (simp_all add: handle_sdk_state_def handle_sdk_action_result_def handle_sdk_error_def
      Let_def split: option.splits json.splits)

lemma cr_handleMessage:
  "handleMessage parse data s = Inr s' \<Longrightarrow> connect_resolutions s' = connect_resolutions s"
  by (auto simp: handleMessage_def split: option.splits json.splits)

lemma cr_checkConnected_other:
  "(\<forall>m. parse data = Some m \<longrightarrow> field m ''type'' \<noteq> Some (JStr ''sdk_connected'')) \<Longrightarrow>
   checkConnected parse w data s = s"
  by (auto simp: checkConnected_def split: option.splits json.splits)

lemma cr_onmessage:
  "(\<forall>m. parse data = Some m \<longrightarrow> field m ''type'' \<noteq> Some (JStr ''sdk_connected'')) \<Longrightarrow>
   connect_resolutions (onmessage parse w data s) = connect_resolutions s"
  by (auto simp: onmessage_def Let_def cr_checkConnected_other cr_handleMessage
      split: sum.splits option.splits)

lemma cr_socketEvent:
  "\<not> is_ack parse e \<Longrightarrow> connect_resolutions (socketEvent parse e s) = connect_resolutions s"
  by (cases e) (auto simp: socketEvent_def is_ack_def cr_onmessage split: option.splits)

lemma cr_step:
  "\<not> is_ack parse e \<Longrightarrow> connect_resolutions (step parse e s) = connect_resolutions s"
  by (cases e) (simp_all add: step_def cr_socketEvent)

lemma cr_run:
  "\<forall>e \<in> set es. \<not> is_ack parse e \<Longrightarrow> connect_resolutions (run parse es s) = connect_resolutions s"
  by (induction es arbitrary: s) (simp_all add: cr_step)


lemma opened_example_fields:
  "ws opened_example = Some 1"
  "sockets opened_example (Suc 0) =
     Some \<lparr>readyState = OPEN, connectTimer = 2, connectResolver = 0, checkConnected_attached = True\<rparr>"
  "connectionState opened_example = Connecting"
  "settled opened_example = []"
  "timers opened_example t = None"
  "fresh opened_example = 3"
  "sent opened_example = [(1, JObj [(''type'', JStr ''sdk_connect''), (''username'', JStr ''bot''),
                                    (''clientId'', JStr ''sdk-1'')])]"
  "microtasks opened_example = []"
  unfolding opened_example_def
  by (simp_all add: sdk_defs)

subsection \<open>Sending while reconnecting\<close>

lemma dropped_example_fields:
  "connectionState dropped_example = Reconnecting"
  "ws dropped_example = None"
  "fresh dropped_example = 4"
  "pendingActions dropped_example = []"
  "settled dropped_example = [(ConnectPromise 0, Resolved JNull)]"
  "awaiting dropped_example = []"
  "microtasks dropped_example = []"
  "sent dropped_example = [(1, JObj [(''type'', JStr ''sdk_connect''), (''username'', JStr ''bot''),
                                     (''clientId'', JStr ''sdk-1'')])]"
  unfolding dropped_example_def connected_example_def
  by (simp_all add: sdk_defs parse_connected)

text \<open>
  C6, as stated, fails in its second part: the action is registered and sent as soon as
  the socket is open, whatever the connection state. After a drop, once the socket of a
  retry has opened and while its identify message is unanswered, the state is still
  \<open>reconnecting\<close>; a \<open>sendAction\<close> issued then registers its pending action and sends
  it in the next microtask, with the state still \<open>reconnecting\<close>.
\<close>

theorem sendAction_before_ack_counterexample:
  "connectionState reopening_example = Reconnecting \<and>
   pendingActions reopening_example = [] \<and>
   connectionState (run example_parse [CallSendAction walk ''act-1'', Microtasks] reopening_example) =
     Reconnecting \<and>
   pendingActions (run example_parse [CallSendAction walk ''act-1'', Microtasks] reopening_example) =
     [(''act-1'', \<lparr>future = 7, timeout = 8\<rparr>)] \<and>
   sent (run example_parse [CallSendAction walk ''act-1'', Microtasks] reopening_example) =
     [(1, JObj [(''type'', JStr ''sdk_connect''), (''username'', JStr ''bot''),
                (''clientId'', JStr ''sdk-1'')]),
      (5, JObj [(''type'', JStr ''sdk_connect''), (''username'', JStr ''bot''),
                (''clientId'', JStr ''sdk-1'')]),
      (5, JObj [(''type'', JStr ''sdk_action''), (''username'', JStr ''bot''),
                (''actionId'', JStr ''act-1''), (''action'', action_json walk)])]"
  unfolding reopening_example_def dropped_example_def connected_example_def
  by (simp add: sdk_defs parse_connected walk_def)

lemma tryConnectionListener_waiting:
  "st \<noteq> Connected \<Longrightarrow> st \<noteq> Disconnected \<Longrightarrow>
   \<exists>ce. tryConnectionListener l f st a s = s\<lparr>console_errors := ce\<rparr>"
proof (cases f)
  case (UserConnectionListener g)
  assume "st \<noteq> Connected" "st \<noteq> Disconnected"
  show ?thesis
  proof (cases "g st a")
    case None
    then have "tryConnectionListener l f st a s = s\<lparr>console_errors := console_errors s\<rparr>"
      using UserConnectionListener by (simp add: tryConnectionListener_def)
    then show ?thesis by blast
  next
    case (Some e)
    then have "tryConnectionListener l f st a s =
        s\<lparr>console_errors := console_errors s @ [(''Connection listener error:'', e)]\<rparr>"
      using UserConnectionListener by (simp add: tryConnectionListener_def)
    then show ?thesis by blast
  qed
next
  case (WaitForConnectionListener t p)
  assume "st \<noteq> Connected" "st \<noteq> Disconnected"
  then have "tryConnectionListener l f st a s = s\<lparr>console_errors := console_errors s\<rparr>"
    using WaitForConnectionListener by (simp add: tryConnectionListener_def)
  then show ?thesis by blast
qed

lemma notifyConnection_waiting:
  "st \<noteq> Connected \<Longrightarrow> st \<noteq> Disconnected \<Longrightarrow>
   \<exists>ce. notifyConnection ls st a s = s\<lparr>console_errors := ce\<rparr>"
proof (induction ls arbitrary: s)
  case Nil
  have "notifyConnection [] st a s = s\<lparr>console_errors := console_errors s\<rparr>" by simp
  then show ?case by blast
next
  case (Cons l ls)
  show ?case
  proof (cases "map_of (connectionListeners s) l")
    case None
    then show ?thesis using Cons.IH [OF Cons.prems, of s] by simp
  next
    case (Some f)
    obtain ce where 1: "tryConnectionListener l f st a s = s\<lparr>console_errors := ce\<rparr>"
      using tryConnectionListener_waiting [OF Cons.prems, of l f a s] by blast
    obtain ce' where "notifyConnection ls st a (s\<lparr>console_errors := ce\<rparr>) =
        s\<lparr>console_errors := ce, console_errors := ce'\<rparr>"
      using Cons.IH [OF Cons.prems, of "s\<lparr>console_errors := ce\<rparr>"] by blast
    then have "notifyConnection (l # ls) st a s = s\<lparr>console_errors := ce'\<rparr>"
      using Some 1 by simp
    then show ?thesis by blast
  qed
qed

lemma setConnectionState_waiting:
  assumes "st = Reconnecting \<or> st = Connecting"
  shows "\<exists>ce. setConnectionState st a s = s\<lparr>connectionState := st, console_errors := ce\<rparr>"
proof -
  have "st \<noteq> Connected" "st \<noteq> Disconnected" using assms by auto
  from notifyConnection_waiting [OF this, of "map fst (connectionListeners s)" a
      "s\<lparr>connectionState := st\<rparr>"]
  show ?thesis by (simp add: setConnectionState_def Let_def)
qed

lemma close_retry:
  assumes "sockets s w = Some sk \<and> readyState sk \<noteq> CLOSED \<and> will_retry s"
  shows "connectionState (socketEvent parse (SocketClose w) s) = Reconnecting"
    and "reconnectAttempt (socketEvent parse (SocketClose w) s) = reconnectAttempt s + 1"
    and "awaiting (socketEvent parse (SocketClose w) s) = awaiting s"
    and "microtasks (socketEvent parse (SocketClose w) s) = microtasks s"
    and "connectionListeners (socketEvent parse (SocketClose w) s) = connectionListeners s"
    and "settled (socketEvent parse (SocketClose w) s) =
           settled s @ closed_rejections (pendingActions s)"
    and "\<forall>u. u \<noteq> fresh s \<and> u \<notin> timeout ` snd ` set (pendingActions s) \<longrightarrow>
           timers (socketEvent parse (SocketClose w) s) u = timers s u"
proof -
  let ?e = "s\<lparr>sockets := (sockets s)(w \<mapsto> sk\<lparr>readyState := CLOSED\<rparr>)\<rparr>"
  let ?r = "rejectPending (pendingActions s) (?e\<lparr>connectPromise := None, ws := None\<rparr>)"
  let ?s3 = "?r\<lparr>pendingActions := []\<rparr>"
  let ?s4 = "?s3\<lparr>reconnectAttempt := reconnectAttempt s + 1\<rparr>"
  obtain ce where b: "setConnectionState Reconnecting (Some (reconnectAttempt s + 1)) ?s4 =
      ?s4\<lparr>connectionState := Reconnecting, console_errors := ce\<rparr>"
    using setConnectionState_waiting [of Reconnecting "Some (reconnectAttempt s + 1)" ?s4] by blast
  have ev: "socketEvent parse (SocketClose w) s =
      (?s4\<lparr>connectionState := Reconnecting, console_errors := ce\<rparr>)
        \<lparr>reconnectTimer := Some (fresh s),
         timers := (timers ?r)(fresh s \<mapsto>
           \<lparr>delay = min (reconnectBaseDelay (config s) * 2 ^ (reconnectAttempt s + 1 - 1))
                        (reconnectMaxDelay (config s)),
            callback = ReconnectTimer\<rparr>),
         fresh := Suc (fresh s)\<rparr>"
    using assms b
    by (simp add: socketEvent_def onclose_def scheduleReconnect_def will_retry_def Let_def)
  show "connectionState (socketEvent parse (SocketClose w) s) = Reconnecting"
    "reconnectAttempt (socketEvent parse (SocketClose w) s) = reconnectAttempt s + 1"
    "awaiting (socketEvent parse (SocketClose w) s) = awaiting s"
    "microtasks (socketEvent parse (SocketClose w) s) = microtasks s"
    "connectionListeners (socketEvent parse (SocketClose w) s) = connectionListeners s"
    unfolding ev by simp_all
  show "settled (socketEvent parse (SocketClose w) s) =
           settled s @ closed_rejections (pendingActions s)"
    unfolding ev by (simp add: rejectPending_settled)
  show "\<forall>u. u \<noteq> fresh s \<and> u \<notin> timeout ` snd ` set (pendingActions s) \<longrightarrow>
           timers (socketEvent parse (SocketClose w) s) u = timers s u"
    unfolding ev by (simp add: rejectPending_timers)
qed

text \<open>
  C6, amended. While the state is \<open>reconnecting\<close> and the socket is not open,
  \<open>sendAction\<close> fails nothing and registers nothing: it subscribes a connection
  listener, arms a timer of 60000 ms of its own and is suspended. The listener resumes
  it when the state becomes \<open>connected\<close>, and makes it throw \<open>Connection failed\<close> when
  the state becomes \<open>disconnected\<close>; the timer makes it throw
  \<open>waitForConnection timed out\<close>. Resumed, it registers the pending action, arms its
  deadline and sends the message if the socket is open, and otherwise rejects with
  \<open>Not connected\<close> and registers nothing; when the wait threw, it rejects with that
  error and registers nothing. While the state is \<open>reconnecting\<close> and the socket is
  already open, it does not wait and runs the same continuation in the next microtask.
  When the state is not \<open>reconnecting\<close> and the socket is not open, as after
  \<open>disconnect\<close>, it rejects at once with \<open>Not connected\<close> and registers nothing.
  A suspended call stays suspended through a retry that fails: a broadcast of
  \<open>reconnecting\<close> or \<open>connecting\<close> changes no suspended call, listener, timer,
  settlement or pending action; the reconnect timer that elapses while the state is
  \<open>reconnecting\<close> arms only the timer of the new socket; the error event of a socket
  rejects the promise of its \<open>connect\<close> call and clears only the timer of that socket;
  and the close event that is followed by a retry rejects the pending actions, clears
  only their deadlines and arms only the next reconnect timer, leaving the suspended
  calls, the listeners and the queue of microtasks as they are.
\<close>

theorem sendAction_while_reconnecting:
  "(connectionState s = Reconnecting \<and> \<not> isConnected s \<longrightarrow>
      fst (sendAction action actionId s) = fresh s \<and>
      pendingActions (snd (sendAction action actionId s)) = pendingActions s \<and>
      settled (snd (sendAction action actionId s)) = settled s \<and>
      sent (snd (sendAction action actionId s)) = sent s \<and>
      microtasks (snd (sendAction action actionId s)) = microtasks s \<and>
      awaiting (snd (sendAction action actionId s)) =
        awaiting s @ [(fresh s + 1, SendActionAwait (fresh s) action actionId)] \<and>
      timers (snd (sendAction action actionId s)) (fresh s + 2) =
        Some \<lparr>delay = 60000, callback = WaitConnectionTimeout (fresh s + 3) (fresh s + 1)\<rparr> \<and>
      map_of (connectionListeners (snd (sendAction action actionId s))) (fresh s + 3) =
        Some (WaitForConnectionListener (fresh s + 2) (fresh s + 1))) \<and>
   (connectionState s = Reconnecting \<and> isConnected s \<longrightarrow>
      fst (sendAction action actionId s) = fresh s \<and>
      pendingActions (snd (sendAction action actionId s)) = pendingActions s \<and>
      settled (snd (sendAction action actionId s)) = settled s \<and>
      sent (snd (sendAction action actionId s)) = sent s \<and>
      awaiting (snd (sendAction action actionId s)) = awaiting s \<and>
      microtasks (snd (sendAction action actionId s)) =
        microtasks s @ [(SendActionAwait (fresh s) action actionId, Resolved JNull)]) \<and>
   (map_of (awaiting s) p = Some k \<longrightarrow>
      microtasks (tryConnectionListener l (WaitForConnectionListener t p) Connected a s) =
        microtasks s @ [(k, Resolved JNull)] \<and>
      microtasks (tryConnectionListener l (WaitForConnectionListener t p) Disconnected a s) =
        microtasks s @ [(k, Rejected (Error (JStr ''Connection failed'')))] \<and>
      microtasks (runTimer (WaitConnectionTimeout l p) s) =
        microtasks s @ [(k, Rejected (Error (JStr ''waitForConnection timed out'')))]) \<and>
   runMicrotask (SendActionAwait f action actionId, Resolved v) s = sendAction_body f action actionId s \<and>
   (isConnected s \<and> ws s = Some w \<longrightarrow>
      map_of (pendingActions (sendAction_body f action actionId s)) actionId =
        Some \<lparr>future = f, timeout = fresh s\<rparr> \<and>
      timers (sendAction_body f action actionId s) (fresh s) =
        Some \<lparr>delay = actionTimeout (config s),
              callback = ActionTimeout actionId f (action_type action)\<rparr> \<and>
      sent (sendAction_body f action actionId s) = sent s @ [(w, action_message s actionId action)] \<and>
      settled (sendAction_body f action actionId s) = settled s \<and>
      connectionState (sendAction_body f action actionId s) = connectionState s) \<and>
   (\<not> isConnected s \<longrightarrow>
      pendingActions (sendAction_body f action actionId s) = pendingActions s \<and>
      sent (sendAction_body f action actionId s) = sent s \<and>
      settled (sendAction_body f action actionId s) =
        settled s @ [(ActionFuture f, Rejected (not_connected_error s))]) \<and>
   pendingActions (runMicrotask (SendActionAwait f action actionId, Rejected e) s) = pendingActions s \<and>
   sent (runMicrotask (SendActionAwait f action actionId, Rejected e) s) = sent s \<and>
   settled (runMicrotask (SendActionAwait f action actionId, Rejected e) s) =
     settled s @ [(ActionFuture f, Rejected e)] \<and>
   (connectionState s \<noteq> Reconnecting \<and> \<not> isConnected s \<longrightarrow>
      pendingActions (snd (sendAction action actionId s)) = pendingActions s \<and>
      sent (snd (sendAction action actionId s)) = sent s \<and>
      settled (snd (sendAction action actionId s)) =
        settled s @ [(ActionFuture (fresh s), Rejected (not_connected_error s))]) \<and>
   (st = Reconnecting \<or> st = Connecting \<longrightarrow>
      awaiting (setConnectionState st a s) = awaiting s \<and>
      microtasks (setConnectionState st a s) = microtasks s \<and>
      connectionListeners (setConnectionState st a s) = connectionListeners s \<and>
      timers (setConnectionState st a s) = timers s \<and>
      settled (setConnectionState st a s) = settled s \<and>
      pendingActions (setConnectionState st a s) = pendingActions s) \<and>
   (connectionState s = Reconnecting \<and> timers s t = Some \<lparr>delay = d, callback = ReconnectTimer\<rparr> \<longrightarrow>
      connectionState (fireTimer t s) = Reconnecting \<and>
      awaiting (fireTimer t s) = awaiting s \<and>
      microtasks (fireTimer t s) = microtasks s \<and>
      connectionListeners (fireTimer t s) = connectionListeners s \<and>
      settled (fireTimer t s) = settled s \<and>
      pendingActions (fireTimer t s) = pendingActions s \<and>
      (\<forall>u. u \<noteq> t \<and> u \<noteq> fresh s + 2 \<longrightarrow> timers (fireTimer t s) u = timers s u)) \<and>
   (sockets s w = Some sk \<and> readyState sk \<noteq> CLOSED \<longrightarrow>
      connectionState (socketEvent parse (SocketError w) s) = connectionState s \<and>
      awaiting (socketEvent parse (SocketError w) s) = awaiting s \<and>
      microtasks (socketEvent parse (SocketError w) s) = microtasks s \<and>
      connectionListeners (socketEvent parse (SocketError w) s) = connectionListeners s \<and>
      settled (socketEvent parse (SocketError w) s) =
        settled s @ [(ConnectPromise (connectResolver sk), Rejected (Error (JStr ''WebSocket error'')))] \<and>
      pendingActions (socketEvent parse (SocketError w) s) = pendingActions s \<and>
      (\<forall>u. u \<noteq> connectTimer sk \<longrightarrow> timers (socketEvent parse (SocketError w) s) u = timers s u)) \<and>
   (sockets s w = Some sk \<and> readyState sk \<noteq> CLOSED \<and> will_retry s \<longrightarrow>
      connectionState (socketEvent parse (SocketClose w) s) = Reconnecting \<and>
      reconnectAttempt (socketEvent parse (SocketClose w) s) = reconnectAttempt s + 1 \<and>
      awaiting (socketEvent parse (SocketClose w) s) = awaiting s \<and>
      microtasks (socketEvent parse (SocketClose w) s) = microtasks s \<and>
      connectionListeners (socketEvent parse (SocketClose w) s) = connectionListeners s \<and>
      settled (socketEvent parse (SocketClose w) s) =
        settled s @ closed_rejections (pendingActions s) \<and>
      (\<forall>u. u \<noteq> fresh s \<and> u \<notin> timeout ` snd ` set (pendingActions s) \<longrightarrow>
         timers (socketEvent parse (SocketClose w) s) u = timers s u))"
proof -
  have ic: "isConnected (s\<lparr>fresh := n\<rparr>) = isConnected s" for n
    by (simp add: isConnected_def split: option.splits)
  have A: "fst (sendAction action actionId s) = fresh s \<and>
      pendingActions (snd (sendAction action actionId s)) = pendingActions s \<and>
      settled (snd (sendAction action actionId s)) = settled s \<and>
      sent (snd (sendAction action actionId s)) = sent s \<and>
      microtasks (snd (sendAction action actionId s)) = microtasks s \<and>
      awaiting (snd (sendAction action actionId s)) =
        awaiting s @ [(fresh s + 1, SendActionAwait (fresh s) action actionId)] \<and>
      timers (snd (sendAction action actionId s)) (fresh s + 2) =
        Some \<lparr>delay = 60000, callback = WaitConnectionTimeout (fresh s + 3) (fresh s + 1)\<rparr> \<and>
      map_of (connectionListeners (snd (sendAction action actionId s))) (fresh s + 3) =
        Some (WaitForConnectionListener (fresh s + 2) (fresh s + 1))"
    if "connectionState s = Reconnecting \<and> \<not> isConnected s"
    using that
    by (simp add: sendAction_def waitForConnection_def Let_def ic AList.update_conv')
  have B: "fst (sendAction action actionId s) = fresh s \<and>
      pendingActions (snd (sendAction action actionId s)) = pendingActions s \<and>
      settled (snd (sendAction action actionId s)) = settled s \<and>
      sent (snd (sendAction action actionId s)) = sent s \<and>
      awaiting (snd (sendAction action actionId s)) = awaiting s \<and>
      microtasks (snd (sendAction action actionId s)) =
        microtasks s @ [(SendActionAwait (fresh s) action actionId, Resolved JNull)]"
    if "connectionState s = Reconnecting \<and> isConnected s"
    using that by (simp add: sendAction_def waitForConnection_def Let_def ic)
  have C: "microtasks (tryConnectionListener l (WaitForConnectionListener t p) Connected a s) =
        microtasks s @ [(k, Resolved JNull)] \<and>
      microtasks (tryConnectionListener l (WaitForConnectionListener t p) Disconnected a s) =
        microtasks s @ [(k, Rejected (Error (JStr ''Connection failed'')))] \<and>
      microtasks (runTimer (WaitConnectionTimeout l p) s) =
        microtasks s @ [(k, Rejected (Error (JStr ''waitForConnection timed out'')))]"
    if "map_of (awaiting s) p = Some k"
    using that
    by (simp add: tryConnectionListener_def settleWaitConnection_def settle_def Let_def
        unsubscribeConnection_def clearTimeout_def)
  have D1: "map_of (pendingActions (sendAction_body f action actionId s)) actionId =
        Some \<lparr>future = f, timeout = fresh s\<rparr> \<and>
      timers (sendAction_body f action actionId s) (fresh s) =
        Some \<lparr>delay = actionTimeout (config s),
              callback = ActionTimeout actionId f (action_type action)\<rparr> \<and>
      sent (sendAction_body f action actionId s) = sent s @ [(w, action_message s actionId action)] \<and>
      settled (sendAction_body f action actionId s) = settled s \<and>
      connectionState (sendAction_body f action actionId s) = connectionState s"
    if "isConnected s \<and> ws s = Some w"
    using that
    by (auto simp: sendAction_body_def Let_def isConnected_def send_def action_message_def
        AList.update_conv' split: option.splits)
  have D2: "pendingActions (sendAction_body f action actionId s) = pendingActions s \<and>
      sent (sendAction_body f action actionId s) = sent s \<and>
      settled (sendAction_body f action actionId s) =
        settled s @ [(ActionFuture f, Rejected (not_connected_error s))]"
    if "\<not> isConnected s" for f
    using that by (simp add: sendAction_body_def settle_def not_connected_error_def)
  have E: "pendingActions (runMicrotask (SendActionAwait f action actionId, Rejected e) s) = pendingActions s \<and>
   sent (runMicrotask (SendActionAwait f action actionId, Rejected e) s) = sent s \<and>
   settled (runMicrotask (SendActionAwait f action actionId, Rejected e) s) =
     settled s @ [(ActionFuture f, Rejected e)]"
    by (simp add: settle_def)
  have F: "pendingActions (snd (sendAction action actionId s)) = pendingActions s \<and>
      sent (snd (sendAction action actionId s)) = sent s \<and>
      settled (snd (sendAction action actionId s)) =
        settled s @ [(ActionFuture (fresh s), Rejected (not_connected_error s))]"
    if "connectionState s \<noteq> Reconnecting \<and> \<not> isConnected s"
    using that
    by (simp add: sendAction_def Let_def sendAction_body_def ic settle_def not_connected_error_def)
  have G: "awaiting (setConnectionState st a s) = awaiting s \<and>
      microtasks (setConnectionState st a s) = microtasks s \<and>
      connectionListeners (setConnectionState st a s) = connectionListeners s \<and>
      timers (setConnectionState st a s) = timers s \<and>
      settled (setConnectionState st a s) = settled s \<and>
      pendingActions (setConnectionState st a s) = pendingActions s"
    if "st = Reconnecting \<or> st = Connecting"
    using that setConnectionState_waiting [of st a s] by auto
  have H0: "connectionState (fireTimer t s) = Reconnecting \<and>
      awaiting (fireTimer t s) = awaiting s \<and>
      microtasks (fireTimer t s) = microtasks s \<and>
      connectionListeners (fireTimer t s) = connectionListeners s \<and>
      settled (fireTimer t s) = settled s \<and>
      pendingActions (fireTimer t s) = pendingActions s \<and>
      (\<forall>u. u \<noteq> t \<and> u \<noteq> fresh s + 2 \<longrightarrow> timers (fireTimer t s) u = timers s u)"
    if "connectionState s = Reconnecting \<and> timers s t = Some \<lparr>delay = d, callback = ReconnectTimer\<rparr>"
    using that
    by (auto simp: fireTimer_def connect_def Let_def clearTimeout_def isConnected_def
        split: option.splits)
  have H1: "connectionState (socketEvent parse (SocketError w) s) = connectionState s \<and>
      awaiting (socketEvent parse (SocketError w) s) = awaiting s \<and>
      microtasks (socketEvent parse (SocketError w) s) = microtasks s \<and>
      connectionListeners (socketEvent parse (SocketError w) s) = connectionListeners s \<and>
      settled (socketEvent parse (SocketError w) s) =
        settled s @ [(ConnectPromise (connectResolver sk), Rejected (Error (JStr ''WebSocket error'')))] \<and>
      pendingActions (socketEvent parse (SocketError w) s) = pendingActions s \<and>
      (\<forall>u. u \<noteq> connectTimer sk \<longrightarrow> timers (socketEvent parse (SocketError w) s) u = timers s u)"
    if "sockets s w = Some sk \<and> readyState sk \<noteq> CLOSED"
    using that by (simp add: socketEvent_def onerror_def settle_def clearTimeout_def)
  have H2: "connectionState (socketEvent parse (SocketClose w) s) = Reconnecting \<and>
      reconnectAttempt (socketEvent parse (SocketClose w) s) = reconnectAttempt s + 1 \<and>
      awaiting (socketEvent parse (SocketClose w) s) = awaiting s \<and>
      microtasks (socketEvent parse (SocketClose w) s) = microtasks s \<and>
      connectionListeners (socketEvent parse (SocketClose w) s) = connectionListeners s \<and>
      settled (socketEvent parse (SocketClose w) s) =
        settled s @ closed_rejections (pendingActions s) \<and>
      (\<forall>u. u \<noteq> fresh s \<and> u \<notin> timeout ` snd ` set (pendingActions s) \<longrightarrow>
         timers (socketEvent parse (SocketClose w) s) u = timers s u)"
    if h: "sockets s w = Some sk \<and> readyState sk \<noteq> CLOSED \<and> will_retry s"
    using close_retry [of s w sk parse] h by blast
  show ?thesis using A B C D1 D2 E F G H0 H1 H2 by simp
qed



theorem sendAction_while_reconnecting_witness:
  \<open>connectionState dropped_example = Reconnecting \<and> \<not> isConnected dropped_example \<and>
   pendingActions (snd (sendAction walk ''act-1'' dropped_example)) = [] \<and>
   settled (snd (sendAction walk ''act-1'' dropped_example)) = [(ConnectPromise 0, Resolved JNull)] \<and>
   awaiting (snd (sendAction walk ''act-1'' dropped_example)) = [(5, SendActionAwait 4 walk ''act-1'')] \<and>
   timers (snd (sendAction walk ''act-1'' dropped_example)) 6 =
     Some \<lparr>delay = 60000, callback = WaitConnectionTimeout 7 5\<rparr> \<and>
   pendingActions
     (run example_parse
        [CallSendAction walk ''act-1'', TimerFires 3, SocketOpen 9,
         SocketMessage 9 ''{"type":"sdk_connected"}''] dropped_example) =
     [(''act-1'', \<lparr>future = 4, timeout = 11\<rparr>)] \<and>
   settled (run example_parse [CallSendAction walk ''act-1'', TimerFires 6] dropped_example) =
     [(ConnectPromise 0, Resolved JNull),
      (WaitConnection 5, Rejected (Error (JStr ''waitForConnection timed out''))),
      (ActionFuture 4, Rejected (Error (JStr ''waitForConnection timed out'')))] \<and>
   connectionState (new_BotSDK default_config ''sdk-1'') \<noteq> Reconnecting \<and>
   \<not> isConnected (new_BotSDK default_config ''sdk-1'') \<and>
   settled (snd (sendAction walk ''act-1'' (new_BotSDK default_config ''sdk-1''))) =
     [(ActionFuture 0, Rejected (Error (JStr ''Not connected (state: disconnected)'')))] \<and>
   awaiting (setConnectionState Reconnecting (Some 2) (snd (sendAction walk ''act-1'' dropped_example))) =
     [(5, SendActionAwait 4 walk ''act-1'')] \<and>
   sockets (run example_parse [CallSendAction walk ''act-1'', TimerFires 3, SocketError 9] dropped_example) 9 =
     Some \<lparr>readyState = CONNECTING, connectTimer = 10, connectResolver = 8, checkConnected_attached = True\<rparr> \<and>
   will_retry (run example_parse [CallSendAction walk ''act-1'', TimerFires 3, SocketError 9] dropped_example) \<and>
   awaiting (socketEvent example_parse (SocketClose 9)
      (run example_parse [CallSendAction walk ''act-1'', TimerFires 3, SocketError 9] dropped_example)) =
     [(5, SendActionAwait 4 walk ''act-1'')] \<and>
   timers (socketEvent example_parse (SocketClose 9)
      (run example_parse [CallSendAction walk ''act-1'', TimerFires 3, SocketError 9] dropped_example)) 6 =
     Some \<lparr>delay = 60000, callback = WaitConnectionTimeout 7 5\<rparr> \<and>
   connectionState
     (run example_parse [CallSendAction walk ''act-1'', TimerFires 3, SocketError 9, SocketClose 9]
        dropped_example) = Reconnecting \<and>
   reconnectAttempt
     (run example_parse [CallSendAction walk ''act-1'', TimerFires 3, SocketError 9, SocketClose 9]
        dropped_example) = 2 \<and>
   awaiting
     (run example_parse [CallSendAction walk ''act-1'', TimerFires 3, SocketError 9, SocketClose 9]
        dropped_example) = [(5, SendActionAwait 4 walk ''act-1'')] \<and>
   action_settlements
     (run example_parse [CallSendAction walk ''act-1'', TimerFires 3, SocketError 9, SocketClose 9]
        dropped_example) = [] \<and>
   pendingActions
     (run example_parse
        [CallSendAction walk ''act-1'', TimerFires 3, SocketError 9, SocketClose 9,
         TimerFires 11, SocketOpen 13, SocketMessage 13 ''{"type":"sdk_connected"}''] dropped_example) =
     [(''act-1'', \<lparr>future = 4, timeout = 15\<rparr>)]\<close>
proof -
  let ?w = "snd (sendAction walk ''act-1'' dropped_example)"
  let ?e = "run example_parse [CallSendAction walk ''act-1'', TimerFires 3, SocketError 9] dropped_example"
  let ?sk = "\<lparr>readyState = CONNECTING, connectTimer = 10, connectResolver = 8, checkConnected_attached = True\<rparr>"
  have e: "sockets ?e 9 = Some ?sk" "will_retry ?e" "awaiting ?e = [(5, SendActionAwait 4 walk ''act-1'')]"
    "timers ?e 6 = Some \<lparr>delay = 60000, callback = WaitConnectionTimeout 7 5\<rparr>"
    "fresh ?e = 11" "pendingActions ?e = []"
    unfolding dropped_example_def connected_example_def will_retry_def
    by (simp_all add: sdk_defs parse_connected walk_def)
  note stays = sendAction_while_reconnecting [where s = ?w and st = Reconnecting and a = "Some 2"]
  note retry = sendAction_while_reconnecting [where s = ?e and w = 9 and sk = ?sk and parse = example_parse]
  have r3: "connectionState
     (run example_parse [CallSendAction walk ''act-1'', TimerFires 3, SocketError 9, SocketClose 9]
        dropped_example) = Reconnecting"
    "reconnectAttempt
     (run example_parse [CallSendAction walk ''act-1'', TimerFires 3, SocketError 9, SocketClose 9]
        dropped_example) = 2"
    "awaiting
     (run example_parse [CallSendAction walk ''act-1'', TimerFires 3, SocketError 9, SocketClose 9]
        dropped_example) = [(5, SendActionAwait 4 walk ''act-1'')]"
    "action_settlements
     (run example_parse [CallSendAction walk ''act-1'', TimerFires 3, SocketError 9, SocketClose 9]
        dropped_example) = []"
    unfolding dropped_example_def connected_example_def action_settlements_def
    by (simp_all add: sdk_defs parse_connected walk_def)
  have r4: \<open>pendingActions
     (run example_parse
        [CallSendAction walk ''act-1'', TimerFires 3, SocketError 9, SocketClose 9,
         TimerFires 11, SocketOpen 13, SocketMessage 13 ''{"type":"sdk_connected"}''] dropped_example) =
     [(''act-1'', \<lparr>future = 4, timeout = 15\<rparr>)]\<close>
    unfolding dropped_example_def connected_example_def
    by (simp add: sdk_defs parse_connected walk_def)
  have d: "\<not> isConnected dropped_example"
    by (simp add: isConnected_def dropped_example_fields)
  note waits = sendAction_while_reconnecting [of dropped_example walk \<open>''act-1''\<close>]
  let ?i = "new_BotSDK default_config ''sdk-1''"
  have i: "connectionState ?i \<noteq> Reconnecting" "\<not> isConnected ?i" "fresh ?i = 0" "settled ?i = []"
    "not_connected_error ?i = Error (JStr ''Not connected (state: disconnected)'')"
    by (simp_all add: new_BotSDK_def isConnected_def not_connected_error_def)
  note fails = sendAction_while_reconnecting [of ?i walk \<open>''act-1''\<close>]
  have r1: \<open>pendingActions
     (run example_parse
        [CallSendAction walk ''act-1'', TimerFires 3, SocketOpen 9,
         SocketMessage 9 ''{"type":"sdk_connected"}''] dropped_example) =
     [(''act-1'', \<lparr>future = 4, timeout = 11\<rparr>)]\<close>
    unfolding dropped_example_def connected_example_def
    by (simp add: sdk_defs parse_connected walk_def)
  have r2: "settled (run example_parse [CallSendAction walk ''act-1'', TimerFires 6] dropped_example) =
     [(ConnectPromise 0, Resolved JNull),
      (WaitConnection 5, Rejected (Error (JStr ''waitForConnection timed out''))),
      (ActionFuture 4, Rejected (Error (JStr ''waitForConnection timed out'')))]"
    unfolding dropped_example_def connected_example_def
    by (simp add: sdk_defs parse_connected walk_def)
  have s1: "awaiting (setConnectionState Reconnecting (Some 2) ?w) = [(5, SendActionAwait 4 walk ''act-1'')]"
    using stays waits d by (simp add: dropped_example_fields)
  have s2: "awaiting (socketEvent example_parse (SocketClose 9) ?e) = [(5, SendActionAwait 4 walk ''act-1'')]"
    "timers (socketEvent example_parse (SocketClose 9) ?e) 6 =
       Some \<lparr>delay = 60000, callback = WaitConnectionTimeout 7 5\<rparr>"
    using retry e by simp_all
  have old: \<open>connectionState dropped_example = Reconnecting \<and> \<not> isConnected dropped_example \<and>
   pendingActions (snd (sendAction walk ''act-1'' dropped_example)) = [] \<and>
   settled (snd (sendAction walk ''act-1'' dropped_example)) = [(ConnectPromise 0, Resolved JNull)] \<and>
   awaiting (snd (sendAction walk ''act-1'' dropped_example)) = [(5, SendActionAwait 4 walk ''act-1'')] \<and>
   timers (snd (sendAction walk ''act-1'' dropped_example)) 6 =
     Some \<lparr>delay = 60000, callback = WaitConnectionTimeout 7 5\<rparr> \<and>
   connectionState (new_BotSDK default_config ''sdk-1'') \<noteq> Reconnecting \<and>
   \<not> isConnected (new_BotSDK default_config ''sdk-1'') \<and>
   settled (snd (sendAction walk ''act-1'' (new_BotSDK default_config ''sdk-1''))) =
     [(ActionFuture 0, Rejected (Error (JStr ''Not connected (state: disconnected)'')))]\<close>
    using waits fails d by (simp add: dropped_example_fields i)
  show ?thesis using old r1 r2 s1 e(1,2) s2 r3 r4 by simp
qed

subsection \<open>Connection state transitions in order\<close>

lemma coherent_view: "conn_view s' = conn_view s \<Longrightarrow> coherent s' = coherent s"
  by (simp add: conn_view_def coherent_def)

lemma state_view: "conn_view s' = conn_view s \<Longrightarrow> connectionState s' = connectionState s"
  by (simp add: conn_view_def)

lemma cv_prims [simp]:
  "conn_view (clearTimeout t s) = conn_view s"
  "conn_view (settle p r s) = conn_view s"
  "conn_view (unsubscribeState l s) = conn_view s"
  "conn_view (unsubscribeConnection l s) = conn_view s"
  "conn_view (send m s) = conn_view s"
  "conn_view (settleWaitConnection n r s) = conn_view s"
  by (simp_all add: conn_view_def clearTimeout_def settle_def unsubscribeState_def
      unsubscribeConnection_def send_def split: option.splits)

lemma cv_update [simp]:
  "conn_view (s\<lparr>state := a3\<rparr>) = conn_view s"
  "conn_view (s\<lparr>pendingActions := a4\<rparr>) = conn_view s"
  "conn_view (s\<lparr>stateListeners := a5\<rparr>) = conn_view s"
  "conn_view (s\<lparr>connectionListeners := a6\<rparr>) = conn_view s"
  "conn_view (s\<lparr>reconnectTimer := a10\<rparr>) = conn_view s"
  "conn_view (s\<lparr>timers := a13\<rparr>) = conn_view s"
  "conn_view (s\<lparr>settled := a20\<rparr>) = conn_view s"
  "conn_view (s\<lparr>sent := a14\<rparr>) = conn_view s"
  "conn_view (s\<lparr>notified := a15\<rparr>) = conn_view s"
  "conn_view (s\<lparr>console_errors := a16\<rparr>) = conn_view s"
  "conn_view (s\<lparr>awaiting := a17\<rparr>) = conn_view s"
  "conn_view (s\<lparr>microtasks := a18\<rparr>) = conn_view s"
  "conn_view (s\<lparr>fresh := a19\<rparr>) = conn_view s"
  by (simp_all add: conn_view_def)

lemma cv_notifyState [simp]: "conn_view (notifyState ls st s) = conn_view s"
  by (simp add: conn_view_def)

lemma cv_notifyConnection [simp]: "conn_view (notifyConnection ls st a s) = conn_view s"
  by (simp add: conn_view_def)

lemma cv_handlers [simp]:
  "conn_view (handle_sdk_state m s) = conn_view s"
  "conn_view (handle_sdk_action_result m s) = conn_view s"
  "conn_view (handle_sdk_error m s) = conn_view s"
  by (simp_all add: handle_sdk_state_def handle_sdk_action_result_def handle_sdk_error_def
      Let_def split: option.splits json.splits)

lemma cv_handleMessage:
  "conn_view (case handleMessage parse data s of Inl e \<Rightarrow> s | Inr s' \<Rightarrow> s') = conn_view s"
  by (auto simp: handleMessage_def split: option.splits json.splits)

lemma isConnected_view: "conn_view s' = conn_view s \<Longrightarrow> isConnected s' = isConnected s"
  by (simp add: conn_view_def isConnected_def split: option.splits)

lemma coherent_current:
  assumes "coherent s" and "sockets s w = Some sk"
    and "readyState sk = OPEN \<or> readyState sk = CONNECTING"
  shows "ws s = Some w"
proof (rule ccontr)
  assume "ws s \<noteq> Some w"
  then have "readyState sk = CLOSING \<or> readyState sk = CLOSED"
    using assms(1,2) unfolding coherent_def by blast
  then show False using assms(3) by auto
qed

lemma cv_sendAction_body [simp]: "conn_view (sendAction_body f a i s) = conn_view s"
  by (simp add: sendAction_body_def Let_def)

lemma cv_waitForConnection [simp]: "conn_view (snd (waitForConnection ms s)) = conn_view s"
  by (simp add: waitForConnection_def Let_def)

lemma cv_sendAction [simp]: "conn_view (snd (sendAction a i s)) = conn_view s"
proof -
  have "conn_view (snd (waitForConnection 60000 (s\<lparr>fresh := Suc (fresh s)\<rparr>))) = conn_view s"
    by (simp only: cv_waitForConnection cv_update)
  then show ?thesis
    by (cases "waitForConnection 60000 (s\<lparr>fresh := Suc (fresh s)\<rparr>)")
       (auto simp: sendAction_def Let_def split: option.splits)
qed

lemma cv_runMicrotask [simp]: "conn_view (runMicrotask m s) = conn_view s"
  by (induction m s rule: runMicrotask.induct) simp_all

lemma cv_foldl_microtasks:
  "conn_view (foldl (\<lambda>s' m. runMicrotask m s') s ms) = conn_view s"
  by (induction ms arbitrary: s) simp_all

lemma cv_drain [simp]: "conn_view (drain s) = conn_view s"
  by (simp add: drain_def cv_foldl_microtasks)

lemma cv_calls [simp]:
  "conn_view (snd (waitForCondition pr ms s)) = conn_view s"
  "conn_view (snd (waitForStateChange ms s)) = conn_view s"
  "conn_view (snd (onStateUpdate f s)) = conn_view s"
  "conn_view (snd (onConnectionStateChange g s)) = conn_view s"
  by (simp_all add: waitForCondition_def subscribeCondition_def waitForStateChange_def
      onStateUpdate_def onConnectionStateChange_def Let_def
      split: option.splits sum.splits bool.splits)

lemma cv_onerror [simp]: "conn_view (onerror w s) = conn_view s"
  by (simp add: onerror_def split: option.splits)

lemma allowed_refl [simp]: "allowed a a"
  by (simp add: allowed_def)

lemma allowed_simps [simp]:
  "allowed a Disconnected"
  "allowed a Reconnecting = (a \<noteq> Disconnected)"
  "allowed a Connected = (a \<noteq> Disconnected)"
  "allowed a Connecting = (a = Disconnected \<or> a = Connecting)"
  by (cases a; simp add: allowed_def spec_transitions_def)+

lemma coherentI:
  assumes "ws s \<noteq> None \<Longrightarrow> connectPromise s \<noteq> None"
    and "connectionState s = Connected \<Longrightarrow> ws s \<noteq> None"
    and "connectionState s = Disconnected \<Longrightarrow> ws s = None"
    and "intentionalDisconnect s \<Longrightarrow> ws s = None"
    and "\<And>w sk. sockets s w = Some sk \<Longrightarrow> ws s \<noteq> Some w \<Longrightarrow>
           readyState sk = CLOSING \<or> readyState sk = CLOSED"
  shows "coherent s"
  using assms unfolding coherent_def by blast

lemma coherent_stale:
  "coherent s \<Longrightarrow> sockets s w = Some sk \<Longrightarrow> ws s \<noteq> Some w \<Longrightarrow>
   readyState sk = CLOSING \<or> readyState sk = CLOSED"
  unfolding coherent_def by blast

lemma coherent_facts:
  assumes "coherent s"
  shows "ws s \<noteq> None \<Longrightarrow> connectPromise s \<noteq> None"
    and "connectionState s = Connected \<Longrightarrow> ws s \<noteq> None"
    and "connectionState s = Disconnected \<Longrightarrow> ws s = None"
    and "intentionalDisconnect s \<Longrightarrow> ws s = None"
  using assms unfolding coherent_def by blast+

lemma connect_fields:
  assumes "\<not> isConnected s" and "connectPromise s = None"
  shows "ws (snd (connect s)) = Some (fresh s + 1)"
    and "connectPromise (snd (connect s)) = Some (fresh s)"
    and "connectionState (snd (connect s)) =
           (if connectionState s = Reconnecting then Reconnecting else Connecting)"
    and "intentionalDisconnect (snd (connect s)) = False"
    and "sockets (snd (connect s)) =
           (sockets s)(fresh s + 1 \<mapsto>
              \<lparr>readyState = CONNECTING, connectTimer = fresh s + 2, connectResolver = fresh s,
               checkConnected_attached = True\<rparr>)"
  using assms by (simp_all add: connect_def Let_def)

lemma connect_ok:
  assumes "coherent s"
  shows "allowed (connectionState s) (connectionState (snd (connect s))) \<and>
         coherent (snd (connect s))"
proof (cases "\<not> isConnected s \<and> connectPromise s = None")
  case False
  then have "snd (connect s) = s" by (auto simp: connect_def split: option.splits)
  then show ?thesis using assms by simp
next
  case True
  note f = connect_fields [of s]
  have wn: "ws s = None" using coherent_facts(1) [OF assms] True by (cases "ws s") auto
  then have nc: "connectionState s \<noteq> Connected" using coherent_facts(2) [OF assms] by auto
  have a: "allowed (connectionState s) (connectionState (snd (connect s)))"
    using True nc by (cases "connectionState s") (simp_all add: f)
  have c: "coherent (snd (connect s))"
  proof (rule coherentI)
    fix w sk
    assume so: "sockets (snd (connect s)) w = Some sk" and nw: "ws (snd (connect s)) \<noteq> Some w"
    from nw True have "w \<noteq> fresh s + 1" by (simp add: f)
    with so True have "sockets s w = Some sk" by (simp add: f)
    then show "readyState sk = CLOSING \<or> readyState sk = CLOSED"
      using coherent_stale [OF assms] wn by simp
  qed (use True in \<open>simp_all add: f split: if_splits\<close>)
  show ?thesis using a c by simp
qed

lemma disconnect_fields:
  "ws (disconnect s) = None"
  "connectPromise (disconnect s) = None"
  "connectionState (disconnect s) = Disconnected"
  "intentionalDisconnect (disconnect s) = True"
  "sockets (disconnect s) =
     (case ws s of
        None \<Rightarrow> sockets s
      | Some w \<Rightarrow>
          (case sockets s w of
             None \<Rightarrow> sockets s
           | Some sk \<Rightarrow>
               if readyState sk = CLOSED then sockets s
               else (sockets s)(w \<mapsto> sk\<lparr>readyState := CLOSING\<rparr>)))"
  by (simp_all add: disconnect_def Let_def clearTimeout_def socket_close_def split: option.splits)

lemma disconnect_ok:
  assumes "coherent s"
  shows "allowed (connectionState s) (connectionState (disconnect s)) \<and> coherent (disconnect s)"
proof -
  have c: "coherent (disconnect s)"
  proof (rule coherentI)
    fix w sk
    assume so: "sockets (disconnect s) w = Some sk"
    show "readyState sk = CLOSING \<or> readyState sk = CLOSED"
    proof (cases "ws s = Some w")
      case False
      have "sockets s w = Some sk"
        using so False by (auto simp: disconnect_fields split: option.splits if_splits)
      then show ?thesis using coherent_stale [OF assms] False by simp
    next
      case True
      then show ?thesis using so
        by (auto simp: disconnect_fields split: option.splits if_splits)
    qed
  qed (simp_all add: disconnect_fields)
  show ?thesis using c by (simp add: disconnect_fields)
qed

lemma onclose_state:
  "connectionState (onclose s) = (if will_retry s then Reconnecting else Disconnected) \<and>
   reconnectAttempt (onclose s) = (if will_retry s then reconnectAttempt s + 1 else reconnectAttempt s)"
  by (simp add: onclose_def will_retry_def scheduleReconnect_def Let_def)

lemma onclose_view:
  "ws (onclose s) = None" "connectPromise (onclose s) = None"
  "sockets (onclose s) = sockets s" "intentionalDisconnect (onclose s) = intentionalDisconnect s"
  by (simp_all add: onclose_def scheduleReconnect_def Let_def)

lemma close_ok:
  assumes "coherent s" and "ws s = Some w \<or> intentionalDisconnect s"
  shows "allowed (connectionState s) (connectionState (socketEvent parse (SocketClose w) s)) \<and>
         coherent (socketEvent parse (SocketClose w) s)"
proof (cases "sockets s w")
  case None
  then show ?thesis using assms by (simp add: socketEvent_def)
next
  case (Some sk)
  show ?thesis
  proof (cases "readyState sk = CLOSED")
    case True
    then show ?thesis using assms Some by (simp add: socketEvent_def)
  next
    case False
    let ?s1 = "s\<lparr>sockets := (sockets s)(w \<mapsto> sk\<lparr>readyState := CLOSED\<rparr>)\<rparr>"
    have ev: "socketEvent parse (SocketClose w) s = onclose ?s1"
      using Some False by (simp add: socketEvent_def)
    have wr: "will_retry ?s1 = will_retry s" by (simp add: will_retry_def)
    have others: "ws s \<noteq> Some w'" if "w' \<noteq> w" for w'
      using assms(2) coherent_facts(4) [OF assms(1)] that by auto
    have nd: "connectionState s \<noteq> Disconnected" if "will_retry s"
    proof
      assume "connectionState s = Disconnected"
      then have "ws s = None" using coherent_facts(3) [OF assms(1)] by simp
      then show False using assms(2) that by (simp add: will_retry_def)
    qed
    have a: "allowed (connectionState s) (connectionState (onclose ?s1))"
      using nd by (simp add: onclose_state wr)
    have c: "coherent (onclose ?s1)"
    proof (rule coherentI)
      fix w' sk'
      assume so: "sockets (onclose ?s1) w' = Some sk'"
      show "readyState sk' = CLOSING \<or> readyState sk' = CLOSED"
      proof (cases "w' = w")
        case True
        then show ?thesis using so by (auto simp: onclose_view)
      next
        case False
        then have "sockets s w' = Some sk'" using so by (simp add: onclose_view)
        then show ?thesis using coherent_stale [OF assms(1)] others [OF False] by simp
      qed
    qed (simp_all add: onclose_view onclose_state split: if_splits)
    show ?thesis using a c by (simp add: ev)
  qed
qed

lemma checkConnected_state:
  "sockets s w = Some sk \<Longrightarrow> parse data = Some m \<Longrightarrow>
   field m ''type'' = Some (JStr ''sdk_connected'') \<Longrightarrow>
   connectionState (checkConnected parse w data s) = Connected \<and>
   reconnectAttempt (checkConnected parse w data s) = 0"
  by (cases m) (simp_all add: checkConnected_def Let_def settle_def)

lemma checkConnected_fields:
  assumes "sockets s w = Some sk" and "parse data = Some m"
    and "field m ''type'' = Some (JStr ''sdk_connected'')" and "ws s = Some w"
  shows "ws (checkConnected parse w data s) = ws s"
    and "connectPromise (checkConnected parse w data s) = connectPromise s"
    and "intentionalDisconnect (checkConnected parse w data s) = intentionalDisconnect s"
    and "sockets (checkConnected parse w data s) =
           (sockets s)(w \<mapsto> sk\<lparr>checkConnected_attached := False\<rparr>)"
  using assms by (cases m; simp add: checkConnected_def Let_def settle_def)+

lemma checkConnected_ok:
  assumes "coherent s" and "ws s = Some w"
  shows "allowed (connectionState s) (connectionState (checkConnected parse w data s)) \<and>
         coherent (checkConnected parse w data s)"
proof (cases "\<exists>sk m. sockets s w = Some sk \<and> parse data = Some m \<and>
                field m ''type'' = Some (JStr ''sdk_connected'')")
  case False
  then have "checkConnected parse w data s = s"
    by (auto simp: checkConnected_def split: option.splits json.splits)
  then show ?thesis using assms by simp
next
  case True
  then obtain sk m where h: "sockets s w = Some sk" "parse data = Some m"
    "field m ''type'' = Some (JStr ''sdk_connected'')" by blast
  have f: "ws (checkConnected parse w data s) = ws s"
    "connectPromise (checkConnected parse w data s) = connectPromise s"
    "intentionalDisconnect (checkConnected parse w data s) = intentionalDisconnect s"
    "sockets (checkConnected parse w data s) =
       (sockets s)(w \<mapsto> sk\<lparr>checkConnected_attached := False\<rparr>)"
    "connectionState (checkConnected parse w data s) = Connected"
    using checkConnected_fields [of s w sk parse data m]
      checkConnected_state [of s w sk parse data m] h assms(2) by simp_all
  have nd: "connectionState s \<noteq> Disconnected"
    using coherent_facts(3) [OF assms(1)] assms(2) by auto
  have c: "coherent (checkConnected parse w data s)"
  proof (rule coherentI)
    fix w' sk'
    assume so: "sockets (checkConnected parse w data s) w' = Some sk'"
      and nw: "ws (checkConnected parse w data s) \<noteq> Some w'"
    from nw have "w' \<noteq> w" using assms(2) by (simp add: f)
    with so have "sockets s w' = Some sk'" by (simp add: f)
    then show "readyState sk' = CLOSING \<or> readyState sk' = CLOSED"
      using coherent_stale [OF assms(1)] nw by (simp add: f)
  qed (use coherent_facts [OF assms(1)] assms(2) in \<open>simp_all add: f\<close>)
  show ?thesis using c nd by (simp add: f)
qed

lemma message_ok:
  assumes "coherent s"
  shows "allowed (connectionState s) (connectionState (socketEvent parse (SocketMessage w data) s)) \<and>
         coherent (socketEvent parse (SocketMessage w data) s)"
proof (cases "sockets s w")
  case None
  then show ?thesis using assms by (simp add: socketEvent_def)
next
  case (Some sk)
  show ?thesis
  proof (cases "readyState sk = OPEN")
    case False
    then show ?thesis using assms Some by (simp add: socketEvent_def)
  next
    case True
    then have cur: "ws s = Some w" using assms Some by (simp add: coherent_current)
    let ?s1 = "case handleMessage parse data s of Inl e \<Rightarrow> s | Inr s' \<Rightarrow> s'"
    have v: "conn_view ?s1 = conn_view s" by (rule cv_handleMessage)
    then have c1: "coherent ?s1" "ws ?s1 = Some w" "connectionState ?s1 = connectionState s"
      "sockets ?s1 = sockets s"
      using assms cur coherent_view [OF v] v by (simp_all add: conn_view_def)
    have ev: "socketEvent parse (SocketMessage w data) s =
        (if checkConnected_attached sk then checkConnected parse w data ?s1 else ?s1)"
      using Some True c1(4) by (simp add: socketEvent_def onmessage_def Let_def)
    show ?thesis using checkConnected_ok [OF c1(1) c1(2), of parse data] c1
      by (simp add: ev)
  qed
qed

lemma onopen_view:
  "ws (onopen w s) = ws s" "connectPromise (onopen w s) = connectPromise s"
  "connectionState (onopen w s) = connectionState s"
  "intentionalDisconnect (onopen w s) = intentionalDisconnect s"
  "sockets (onopen w s) = sockets s"
  by (simp_all add: onopen_def send_def clearTimeout_def split: option.splits)

lemma open_ok:
  assumes "coherent s"
  shows "allowed (connectionState s) (connectionState (socketEvent parse (SocketOpen w) s)) \<and>
         coherent (socketEvent parse (SocketOpen w) s)"
proof (cases "sockets s w")
  case None
  then show ?thesis using assms by (simp add: socketEvent_def)
next
  case (Some sk)
  show ?thesis
  proof (cases "readyState sk = CONNECTING")
    case False
    then show ?thesis using assms Some by (simp add: socketEvent_def)
  next
    case True
    then have cur: "ws s = Some w" using assms Some by (simp add: coherent_current)
    let ?s1 = "s\<lparr>sockets := (sockets s)(w \<mapsto> sk\<lparr>readyState := OPEN\<rparr>)\<rparr>"
    have ev: "socketEvent parse (SocketOpen w) s = onopen w ?s1"
      using Some True by (simp add: socketEvent_def)
    have c: "coherent (onopen w ?s1)"
    proof (rule coherentI)
      fix w' sk'
      assume so: "sockets (onopen w ?s1) w' = Some sk'" and nw: "ws (onopen w ?s1) \<noteq> Some w'"
      from nw have "w' \<noteq> w" using cur by (simp add: onopen_view)
      with so have "sockets s w' = Some sk'" by (simp add: onopen_view)
      then show "readyState sk' = CLOSING \<or> readyState sk' = CLOSED"
        using coherent_stale [OF assms] nw by (simp add: onopen_view)
    qed (use coherent_facts [OF assms] in \<open>simp_all add: onopen_view\<close>)
    show ?thesis using c by (simp add: ev onopen_view)
  qed
qed

lemma error_ok:
  assumes "coherent s"
  shows "allowed (connectionState s) (connectionState (socketEvent parse (SocketError w) s)) \<and>
         coherent (socketEvent parse (SocketError w) s)"
proof -
  have "conn_view (socketEvent parse (SocketError w) s) = conn_view s"
    by (simp add: socketEvent_def split: option.splits)
  then show ?thesis
    using assms coherent_view [of "socketEvent parse (SocketError w) s" s]
      state_view [of "socketEvent parse (SocketError w) s" s] by simp
qed

lemma timer_ok:
  assumes "coherent s"
  shows "allowed (connectionState s) (connectionState (fireTimer t s)) \<and> coherent (fireTimer t s)"
proof (cases "timers s t")
  case None
  then show ?thesis using assms by (simp add: fireTimer_def)
next
  case (Some tm)
  have cv: "conn_view (clearTimeout t s) = conn_view s" by simp
  have c: "coherent (clearTimeout t s)" "connectionState (clearTimeout t s) = connectionState s"
    using assms coherent_view [OF cv] state_view [OF cv] by simp_all
  show ?thesis
  proof (cases "callback tm")
    case (ConnectTimeout p)
    let ?r = "runTimer (ConnectTimeout p) (clearTimeout t s)"
    have v: "ws ?r = ws s" "connectPromise ?r = connectPromise s"
      "connectionState ?r = connectionState s" "intentionalDisconnect ?r = intentionalDisconnect s"
      by (simp_all add: Let_def settle_def clearTimeout_def socket_close_def split: option.splits)
    have so: "readyState sk = CLOSING \<or> readyState sk = CLOSED"
      if "sockets ?r w = Some sk" "ws s \<noteq> Some w" for w sk
    proof -
      have "sockets s w = Some sk" using that
        by (auto simp: Let_def settle_def clearTimeout_def socket_close_def
            split: option.splits if_splits)
      then show ?thesis using coherent_stale [OF assms] that(2) by simp
    qed
    have "coherent ?r"
      by (rule coherentI)
         (use coherent_facts [OF assms] so in \<open>simp_all add: v del: runTimer.simps\<close>)
    then show ?thesis using Some ConnectTimeout by (simp add: fireTimer_def v del: runTimer.simps)
  next
    case ReconnectTimer
    have cv2: "conn_view (clearTimeout t s\<lparr>reconnectTimer := None\<rparr>) = conn_view s" by simp
    have c2: "coherent (clearTimeout t s\<lparr>reconnectTimer := None\<rparr>)"
      "connectionState (clearTimeout t s\<lparr>reconnectTimer := None\<rparr>) = connectionState s"
      using assms coherent_view [OF cv2] state_view [OF cv2] by simp_all
    show ?thesis using Some ReconnectTimer connect_ok [OF c2(1)] c2(2)
      by (simp add: fireTimer_def)
  next
    case (WaitConnectionTimeout l p)
    then have "conn_view (fireTimer t s) = conn_view s" using Some by (simp add: fireTimer_def)
    then show ?thesis
      using assms coherent_view [of "fireTimer t s" s] state_view [of "fireTimer t s" s] by simp
  next
    case (ActionTimeout i f ty)
    then have "conn_view (fireTimer t s) = conn_view s" using Some by (simp add: fireTimer_def)
    then show ?thesis
      using assms coherent_view [of "fireTimer t s" s] state_view [of "fireTimer t s" s] by simp
  next
    case (WaitConditionTimeout l p)
    then have "conn_view (fireTimer t s) = conn_view s" using Some by (simp add: fireTimer_def)
    then show ?thesis
      using assms coherent_view [of "fireTimer t s" s] state_view [of "fireTimer t s" s] by simp
  next
    case (WaitStateChangeTimeout l p)
    then have "conn_view (fireTimer t s) = conn_view s" using Some by (simp add: fireTimer_def)
    then show ?thesis
      using assms coherent_view [of "fireTimer t s" s] state_view [of "fireTimer t s" s] by simp
  qed
qed

lemma drain_ok:
  "coherent s \<Longrightarrow> allowed a (connectionState s) \<Longrightarrow>
   allowed a (connectionState (drain s)) \<and> coherent (drain s)"
  by (simp add: coherent_view [OF cv_drain] state_view [OF cv_drain])

lemma step_ok:
  assumes "coherent s" and "in_order s e"
  shows "allowed (connectionState s) (connectionState (step parse e s)) \<and> coherent (step parse e s)"
proof -
  have d: "coherent (drain s)" "connectionState (drain s) = connectionState s"
    "ws (drain s) = ws s" "intentionalDisconnect (drain s) = intentionalDisconnect s"
    using assms(1) cv_drain [of s] coherent_view [OF cv_drain, of s]
    by (simp_all add: conn_view_def)
  show ?thesis
  proof (cases e)
    case CallConnect
    then show ?thesis using connect_ok [OF assms(1)] by (simp add: step_def)
  next
    case CallDisconnect
    then show ?thesis using disconnect_ok [OF assms(1)] by (simp add: step_def)
  next
    case (CallSendAction a i)
    then show ?thesis using assms(1)
      by (simp add: step_def coherent_view [OF cv_sendAction] state_view [OF cv_sendAction])
  next
    case (CallWaitForConnection ms)
    then show ?thesis using assms(1)
      by (simp add: step_def coherent_view [OF cv_waitForConnection]
          state_view [OF cv_waitForConnection])
  next
    case (CallWaitForCondition pr ms)
    then show ?thesis using assms(1)
      by (simp add: step_def coherent_view [OF cv_calls(1)] state_view [OF cv_calls(1)])
  next
    case (CallWaitForStateChange ms)
    then show ?thesis using assms(1)
      by (simp add: step_def coherent_view [OF cv_calls(2)] state_view [OF cv_calls(2)])
  next
    case (CallOnStateUpdate f)
    then show ?thesis using assms(1)
      by (simp add: step_def coherent_view [OF cv_calls(3)] state_view [OF cv_calls(3)])
  next
    case (CallOnConnectionStateChange g)
    then show ?thesis using assms(1)
      by (simp add: step_def coherent_view [OF cv_calls(4)] state_view [OF cv_calls(4)])
  next
    case Microtasks
    then show ?thesis using drain_ok [OF assms(1), of "connectionState s"] by (simp add: step_def)
  next
    case (TimerFires t)
    from timer_ok [OF d(1), of t] d(2)
    have "allowed (connectionState s) (connectionState (fireTimer t (drain s)))"
      "coherent (fireTimer t (drain s))" by simp_all
    then show ?thesis using TimerFires drain_ok by (simp add: step_def)
  next
    case (SocketOpen w)
    from open_ok [OF d(1), of parse w] d(2)
    have "allowed (connectionState s) (connectionState (socketEvent parse (SocketOpen w) (drain s)))"
      "coherent (socketEvent parse (SocketOpen w) (drain s))" by simp_all
    then show ?thesis using SocketOpen drain_ok by (simp add: step_def)
  next
    case (SocketMessage w data)
    from message_ok [OF d(1), of parse w data] d(2)
    have "allowed (connectionState s) (connectionState (socketEvent parse (SocketMessage w data) (drain s)))"
      "coherent (socketEvent parse (SocketMessage w data) (drain s))" by simp_all
    then show ?thesis using SocketMessage drain_ok by (simp add: step_def)
  next
    case (SocketError w)
    from error_ok [OF d(1), of parse w] d(2)
    have "allowed (connectionState s) (connectionState (socketEvent parse (SocketError w) (drain s)))"
      "coherent (socketEvent parse (SocketError w) (drain s))" by simp_all
    then show ?thesis using SocketError drain_ok by (simp add: step_def)
  next
    case (SocketClose w)
    have "ws (drain s) = Some w \<or> intentionalDisconnect (drain s)"
      using assms(2) SocketClose d by (simp add: in_order_def)
    from close_ok [OF d(1) this, of parse] d(2)
    have "allowed (connectionState s) (connectionState (socketEvent parse (SocketClose w) (drain s)))"
      "coherent (socketEvent parse (SocketClose w) (drain s))" by simp_all
    then show ?thesis using SocketClose drain_ok by (simp add: step_def)
  qed
qed


lemma coherent_new: "coherent (new_BotSDK c clientId)"
  by (simp add: coherent_def new_BotSDK_def)

lemma close_state:
  assumes "sockets s w = Some sk" and "readyState sk \<noteq> CLOSED"
  shows "connectionState (socketEvent parse (SocketClose w) s) =
           (if will_retry s then Reconnecting else Disconnected) \<and>
         reconnectAttempt (socketEvent parse (SocketClose w) s) =
           (if will_retry s then reconnectAttempt s + 1 else reconnectAttempt s)"
proof -
  let ?s1 = "s\<lparr>sockets := (sockets s)(w \<mapsto> sk\<lparr>readyState := CLOSED\<rparr>)\<rparr>"
  have ev: "socketEvent parse (SocketClose w) s = onclose ?s1"
    using assms by (simp add: socketEvent_def)
  have wr: "will_retry ?s1 = will_retry s" by (simp add: will_retry_def)
  show ?thesis using onclose_state [of ?s1] by (simp add: ev wr)
qed

lemma ack_state:
  assumes "sockets s w = Some sk" and "readyState sk = OPEN" and "checkConnected_attached sk"
    and "parse data = Some m" and "field m ''type'' = Some (JStr ''sdk_connected'')"
  shows "connectionState (socketEvent parse (SocketMessage w data) s) = Connected \<and>
         reconnectAttempt (socketEvent parse (SocketMessage w data) s) = 0"
proof -
  have nn: "m \<noteq> JNull" using assms by auto
  have "handle_sdk_error m (handle_sdk_action_result m (handle_sdk_state m s)) = s"
    using assms by (simp add: handle_sdk_state_skip handle_sdk_action_result_skip handle_sdk_error_skip)
  then have hm: "handleMessage parse data s = Inr s"
    using assms nn by (cases m) (simp_all add: handleMessage_def)
  have ev: "socketEvent parse (SocketMessage w data) s = checkConnected parse w data s"
    using assms hm by (simp add: socketEvent_def onmessage_def)
  show ?thesis using checkConnected_state [of s w sk parse data m] assms by (simp add: ev)
qed

lemma connecting_example_fields:
  "ws connecting_example = Some 1"
  "sockets connecting_example (Suc 0) =
     Some \<lparr>readyState = CONNECTING, connectTimer = 2, connectResolver = 0, checkConnected_attached = True\<rparr>"
  "connectionState connecting_example = Connecting"
  "reconnectAttempt connecting_example = 0"
  "intentionalDisconnect connecting_example = False"
  "config connecting_example = fill_config default_config"
  unfolding connecting_example_def
  by (simp_all add: sdk_defs)

subsection \<open>Disconnecting, and the close event that follows\<close>

lemma intentional_view:
  "conn_view s' = conn_view s \<Longrightarrow> intentionalDisconnect s' = intentionalDisconnect s"
  by (simp add: conn_view_def)

lemma checkConnected_intentional:
  "intentionalDisconnect (checkConnected parse w data s) = intentionalDisconnect s"
  by (simp add: checkConnected_def Let_def settle_def split: option.splits json.splits)

lemma socketEvent_intentional:
  "intentionalDisconnect (socketEvent parse e s) = intentionalDisconnect s"
proof (cases e)
  case (SocketOpen w)
  then show ?thesis by (simp add: socketEvent_def onopen_view split: option.splits)
next
  case (SocketMessage w data)
  have "intentionalDisconnect (onmessage parse w data s) = intentionalDisconnect s"
    using intentional_view [OF cv_handleMessage [where parse = parse and data = data and s = s]]
    by (simp add: onmessage_def Let_def checkConnected_intentional split: option.splits)
  with SocketMessage show ?thesis by (simp add: socketEvent_def split: option.splits)
next
  case (SocketError w)
  then show ?thesis
    by (simp add: socketEvent_def intentional_view [OF cv_onerror] split: option.splits)
next
  case (SocketClose w)
  then show ?thesis by (simp add: socketEvent_def onclose_view split: option.splits)
qed (simp_all add: socketEvent_def)

lemma fireTimer_intentional:
  assumes "\<forall>tm. timers s t = Some tm \<longrightarrow> callback tm \<noteq> ReconnectTimer"
  shows "intentionalDisconnect (fireTimer t s) = intentionalDisconnect s"
proof (cases "timers s t")
  case None
  then show ?thesis by (simp add: fireTimer_def)
next
  case (Some tm)
  then have nr: "callback tm \<noteq> ReconnectTimer" using assms by simp
  show ?thesis
  proof (cases "callback tm")
    case (ConnectTimeout p)
    then show ?thesis using Some
      by (simp add: fireTimer_def Let_def settle_def clearTimeout_def socket_close_def
          split: option.splits)
  next
    case ReconnectTimer
    then show ?thesis using nr by simp
  next
    case (WaitConnectionTimeout l p)
    then have "conn_view (fireTimer t s) = conn_view s" using Some by (simp add: fireTimer_def)
    then show ?thesis by (rule intentional_view)
  next
    case (ActionTimeout i f ty)
    then have "conn_view (fireTimer t s) = conn_view s" using Some by (simp add: fireTimer_def)
    then show ?thesis by (rule intentional_view)
  next
    case (WaitConditionTimeout l p)
    then have "conn_view (fireTimer t s) = conn_view s" using Some by (simp add: fireTimer_def)
    then show ?thesis by (rule intentional_view)
  next
    case (WaitStateChangeTimeout l p)
    then have "conn_view (fireTimer t s) = conn_view s" using Some by (simp add: fireTimer_def)
    then show ?thesis by (rule intentional_view)
  qed
qed

lemma step_intentional:
  assumes "intentionalDisconnect s" and "\<not> calls_connect s e"
  shows "intentionalDisconnect (step parse e s)"
proof -
  have d: "intentionalDisconnect (drain x) = intentionalDisconnect x" for x
    by (rule intentional_view [OF cv_drain])
  show ?thesis
  proof (cases e)
    case CallConnect
    then show ?thesis using assms(2) by (simp add: calls_connect_def)
  next
    case CallDisconnect
    then show ?thesis by (simp add: step_def disconnect_fields)
  next
    case (CallSendAction a i)
    then show ?thesis using assms(1) by (simp add: step_def intentional_view [OF cv_sendAction])
  next
    case (CallWaitForConnection ms)
    then show ?thesis using assms(1)
      by (simp add: step_def intentional_view [OF cv_waitForConnection])
  next
    case (CallWaitForCondition pr ms)
    then show ?thesis using assms(1) by (simp add: step_def intentional_view [OF cv_calls(1)])
  next
    case (CallWaitForStateChange ms)
    then show ?thesis using assms(1) by (simp add: step_def intentional_view [OF cv_calls(2)])
  next
    case (CallOnStateUpdate f)
    then show ?thesis using assms(1) by (simp add: step_def intentional_view [OF cv_calls(3)])
  next
    case (CallOnConnectionStateChange g)
    then show ?thesis using assms(1) by (simp add: step_def intentional_view [OF cv_calls(4)])
  next
    case Microtasks
    then show ?thesis using assms(1) by (simp add: step_def d)
  next
    case (TimerFires t)
    have "\<forall>tm. timers (drain s) t = Some tm \<longrightarrow> callback tm \<noteq> ReconnectTimer"
      using assms(2) TimerFires by (simp add: calls_connect_def split: option.splits)
    then have "intentionalDisconnect (fireTimer t (drain s)) = intentionalDisconnect (drain s)"
      by (rule fireTimer_intentional)
    then show ?thesis using TimerFires assms(1) by (simp add: step_def d)
  next
    case (SocketOpen w)
    then show ?thesis using assms(1) by (simp add: step_def d socketEvent_intentional)
  next
    case (SocketMessage w data)
    then show ?thesis using assms(1) by (simp add: step_def d socketEvent_intentional)
  next
    case (SocketError w)
    then show ?thesis using assms(1) by (simp add: step_def d socketEvent_intentional)
  next
    case (SocketClose w)
    then show ?thesis using assms(1) by (simp add: step_def d socketEvent_intentional)
  qed
qed

lemma run_intentional:
  "intentionalDisconnect s \<Longrightarrow> no_connect parse es s \<Longrightarrow> intentionalDisconnect (run parse es s)"
  by (induction es arbitrary: s) (simp_all add: step_intentional)

lemma disconnect_timers:
  "timers (disconnect s) t = Some tm \<Longrightarrow> timers s t = Some tm"
  unfolding disconnect_def Let_def
  by (auto dest!: setConnectionState_timers simp: clearTimeout_def socket_close_def
      split: option.splits if_splits)

lemma disconnect_actions: "action_settlements (disconnect s) = action_settlements s"
  by (simp add: disconnect_def Let_def setConnectionState_actions)
     (simp add: action_settlements_def clearTimeout_def socket_close_def split: option.splits)

text \<open>The close handler while the disconnect is still intentional.\<close>

lemma close_intentional:
  assumes "intentionalDisconnect d" and "sockets d w = Some sk" and "readyState sk \<noteq> CLOSED"
  shows "action_settlements (socketEvent parse (SocketClose w) d) =
           action_settlements d @ closed_rejections (pendingActions d)"
    and "pendingActions (socketEvent parse (SocketClose w) d) = []"
    and "\<forall>(actionId, pending) \<in> set (pendingActions d).
           timers (socketEvent parse (SocketClose w) d) (timeout pending) = None"
    and "\<forall>t tm. timers (socketEvent parse (SocketClose w) d) t = Some tm \<longrightarrow>
           timers d t = Some tm"
    and "reconnectTimer (socketEvent parse (SocketClose w) d) = reconnectTimer d"
    and "reconnectAttempt (socketEvent parse (SocketClose w) d) = reconnectAttempt d"
    and "intentionalDisconnect (socketEvent parse (SocketClose w) d)"
    and "connectionState (socketEvent parse (SocketClose w) d) = Disconnected"
proof -
  let ?e = "d\<lparr>sockets := (sockets d)(w \<mapsto> sk\<lparr>readyState := CLOSED\<rparr>)\<rparr>"
  let ?r = "rejectPending (pendingActions d) (?e\<lparr>connectPromise := None, ws := None\<rparr>)"
  let ?c = "setConnectionState Disconnected None (?r\<lparr>pendingActions := []\<rparr>)"
  have ev: "socketEvent parse (SocketClose w) d = ?c"
    using assms by (simp add: socketEvent_def onclose_def Let_def)
  show "action_settlements (socketEvent parse (SocketClose w) d) =
          action_settlements d @ closed_rejections (pendingActions d)"
    unfolding ev
    by (simp add: setConnectionState_actions)
       (simp add: action_settlements_def rejectPending_settled closed_rejections_actions)
  show "pendingActions (socketEvent parse (SocketClose w) d) = []" unfolding ev by simp
  have tr: "timers ?r t = (if t \<in> timeout ` snd ` set (pendingActions d) then None else timers d t)"
    for t by (simp add: rejectPending_timers)
  have 3: "timers ?c (timeout pending) = None"
    if "(actionId, pending) \<in> set (pendingActions d)" for actionId pending
  proof -
    have "timeout pending \<in> timeout ` snd ` set (pendingActions d)" using that by force
    then have "timers (?r\<lparr>pendingActions := []\<rparr>) (timeout pending) = None" by (simp add: tr)
    then show ?thesis by (rule setConnectionState_timers_None)
  qed
  then show "\<forall>(actionId, pending) \<in> set (pendingActions d).
           timers (socketEvent parse (SocketClose w) d) (timeout pending) = None"
    unfolding ev by blast
  have 4: "timers d t = Some tm" if "timers ?c t = Some tm" for t tm
  proof -
    from that have "timers (?r\<lparr>pendingActions := []\<rparr>) t = Some tm"
      by (rule setConnectionState_timers)
    then show ?thesis by (simp add: tr split: if_splits)
  qed
  then show "\<forall>t tm. timers (socketEvent parse (SocketClose w) d) t = Some tm \<longrightarrow>
           timers d t = Some tm"
    unfolding ev by blast
  show "reconnectTimer (socketEvent parse (SocketClose w) d) = reconnectTimer d"
    "reconnectAttempt (socketEvent parse (SocketClose w) d) = reconnectAttempt d"
    "intentionalDisconnect (socketEvent parse (SocketClose w) d)"
    "connectionState (socketEvent parse (SocketClose w) d) = Disconnected"
    unfolding ev using assms(1) by simp_all
qed




subsection \<open>The connect handshake\<close>

lemma calm_refl [simp]: "calm s s"
  by (simp add: calm_def)

lemma calm_fresh: "calm s' s \<Longrightarrow> fresh s \<le> fresh s'"
  by (simp add: calm_def)

lemma calm_timer:
  "calm s' s \<Longrightarrow> timers s' t = Some tm \<Longrightarrow> callback tm = ConnectTimeout p \<Longrightarrow>
   timers s t = Some tm"
  unfolding calm_def by blast

lemma calm_socket:
  "calm s' s \<Longrightarrow> sockets s' w = Some sk' \<Longrightarrow>
   \<exists>sk. sockets s w = Some sk \<and> connectTimer sk' = connectTimer sk \<and>
        connectResolver sk' = connectResolver sk"
  unfolding calm_def by blast

lemma calmI:
  assumes "fresh s \<le> fresh s'"
    and "\<And>t tm p. timers s' t = Some tm \<Longrightarrow> callback tm = ConnectTimeout p \<Longrightarrow>
           timers s t = Some tm"
    and "\<And>w sk'. sockets s' w = Some sk' \<Longrightarrow>
           \<exists>sk. sockets s w = Some sk \<and> connectTimer sk' = connectTimer sk \<and>
                connectResolver sk' = connectResolver sk"
  shows "calm s' s"
  unfolding calm_def using assms by blast

lemma calm_trans:
  assumes "calm s'' s'" and "calm s' s"
  shows "calm s'' s"
proof (rule calmI)
  show "fresh s \<le> fresh s''"
    using calm_fresh [OF assms(1)] calm_fresh [OF assms(2)] by simp
next
  fix t tm p
  assume "timers s'' t = Some tm" and c: "callback tm = ConnectTimeout p"
  then have "timers s' t = Some tm" using calm_timer [OF assms(1)] by blast
  then show "timers s t = Some tm" using calm_timer [OF assms(2)] c by blast
next
  fix w sk''
  assume "sockets s'' w = Some sk''"
  then obtain sk' where 1: "sockets s' w = Some sk'" "connectTimer sk'' = connectTimer sk'"
    "connectResolver sk'' = connectResolver sk'"
    using calm_socket [OF assms(1)] by blast
  then obtain sk where "sockets s w = Some sk" "connectTimer sk' = connectTimer sk"
    "connectResolver sk' = connectResolver sk"
    using calm_socket [OF assms(2)] by blast
  with 1 show "\<exists>sk. sockets s w = Some sk \<and> connectTimer sk'' = connectTimer sk \<and>
                connectResolver sk'' = connectResolver sk" by simp
qed

lemma calm_same:
  "timers s' = timers s \<Longrightarrow> sockets s' = sockets s \<Longrightarrow> fresh s' = fresh s \<Longrightarrow> calm s' s"
  by (simp add: calm_def)

lemma calm_wired:
  assumes "calm s' s" and "wired s"
  shows "wired s'"
  unfolding wired_def
proof (intro conjI allI impI)
  fix t tm p
  assume h: "timers s' t = Some tm \<and> callback tm = ConnectTimeout p"
  then have "timers s t = Some tm" using calm_timer [OF assms(1)] by blast
  then have "t = p + 2 \<and> p < fresh s" using assms(2) h unfolding wired_def by blast
  then show "t = p + 2" "p < fresh s'" using calm_fresh [OF assms(1)] by simp_all
next
  fix w sk'
  assume "sockets s' w = Some sk'"
  then obtain sk where 1: "sockets s w = Some sk" "connectTimer sk' = connectTimer sk"
    "connectResolver sk' = connectResolver sk"
    using calm_socket [OF assms(1)] by blast
  then have "w = connectResolver sk + 1 \<and> connectTimer sk = connectResolver sk + 2 \<and>
     connectResolver sk < fresh s"
    using assms(2) unfolding wired_def by blast
  then show "w = connectResolver sk' + 1" "connectTimer sk' = connectResolver sk' + 2"
    "connectResolver sk' < fresh s'"
    using 1 calm_fresh [OF assms(1)] by simp_all
qed

lemma calm_silent:
  assumes "calm s' s" and "silent p s"
  shows "silent p s'"
  unfolding silent_def
proof (intro conjI allI impI)
  show "p < fresh s'" using assms(2) calm_fresh [OF assms(1)] by (simp add: silent_def)
next
  fix t tm
  assume h: "timers s' t = Some tm"
  show "callback tm \<noteq> ConnectTimeout p"
  proof
    assume c: "callback tm = ConnectTimeout p"
    then have "timers s t = Some tm" using calm_timer [OF assms(1) h] by blast
    then show False using assms(2) c unfolding silent_def by blast
  qed
qed


lemma tryStateListener_timers_sub:
  "timers (tryStateListener l f st s) t = Some tm \<Longrightarrow> timers s t = Some tm"
  by (cases f) (auto simp: tryStateListener_def Let_def unsubscribeState_def clearTimeout_def
      settle_def split: option.splits sum.splits bool.splits if_splits)

lemma notifyState_timers_sub:
  "timers (notifyState ls st s) t = Some tm \<Longrightarrow> timers s t = Some tm"
proof (induction ls arbitrary: s)
  case Nil
  then show ?case by simp
next
  case (Cons l ls)
  show ?case
  proof (cases "map_of (stateListeners s) l")
    case None
    with Cons show ?thesis by simp
  next
    case (Some f)
    with Cons.prems have "timers (notifyState ls st (tryStateListener l f st s)) t = Some tm"
      by simp
    then have "timers (tryStateListener l f st s) t = Some tm" by (rule Cons.IH)
    then show ?thesis by (rule tryStateListener_timers_sub)
  qed
qed

lemma calm_sub:
  "fresh s' = fresh s \<Longrightarrow> sockets s' = sockets s \<Longrightarrow>
   (\<And>t tm. timers s' t = Some tm \<Longrightarrow> timers s t = Some tm) \<Longrightarrow> calm s' s"
  by (rule calmI) simp_all

lemma calm_prims [simp]:
  "calm (clearTimeout t s) s"
  "calm (settle p r s) s"
  "calm (unsubscribeState l s) s"
  "calm (unsubscribeConnection l s) s"
  "calm (send m s) s"
  "calm (socket_close w s) s"
  "calm (settleWaitConnection n r s) s"
  by (auto simp: calm_def clearTimeout_def settle_def unsubscribeState_def
      unsubscribeConnection_def send_def socket_close_def split: option.splits if_splits)

lemma calm_setConnectionState [simp]: "calm (setConnectionState st a s) s"
  by (rule calm_sub) (simp_all, erule setConnectionState_timers)

lemma calm_notifyState [simp]: "calm (notifyState ls st s) s"
  by (rule calm_sub) (simp_all, erule notifyState_timers_sub)

lemma calm_rejectPending [simp]: "calm (rejectPending ps s) s"
  by (rule calm_sub) (simp_all add: rejectPending_timers split: if_splits)

lemma calm_arm:
  "\<forall>p. callback tm \<noteq> ConnectTimeout p \<Longrightarrow> fresh s \<le> n \<Longrightarrow>
   calm (s\<lparr>timers := (timers s)(t \<mapsto> tm), fresh := n\<rparr>) s"
  by (rule calmI) (auto split: if_splits)

lemma calm_scheduleReconnect [simp]: "calm (scheduleReconnect s) s"
proof (cases "retries_exhausted (reconnectAttempt s) (reconnectMaxRetries (config s))")
  case True
  then show ?thesis by (simp add: scheduleReconnect_def)
next
  case False
  let ?s1 = "s\<lparr>reconnectAttempt := reconnectAttempt s + 1\<rparr>"
  let ?s2 = "setConnectionState Reconnecting (Some (reconnectAttempt ?s1)) ?s1"
  have 1: "calm ?s1 s" by (simp add: calm_def)
  have 2: "calm ?s2 s" by (rule calm_trans [OF calm_setConnectionState 1])
  have 3: "calm (?s2\<lparr>reconnectTimer := r\<rparr>) s" for r using 2 by (simp add: calm_def)
  have 4: "calm (?s2\<lparr>reconnectTimer := r, timers := (timers ?s2)(t \<mapsto> \<lparr>delay = d, callback = ReconnectTimer\<rparr>),
                     fresh := Suc (fresh ?s2)\<rparr>) (?s2\<lparr>reconnectTimer := r\<rparr>)" for r t d
    using calm_arm [of "\<lparr>delay = d, callback = ReconnectTimer\<rparr>" "?s2\<lparr>reconnectTimer := r\<rparr>"
        "Suc (fresh ?s2)" t]
    by simp
  show ?thesis using False calm_trans [OF 4 3] by (simp add: scheduleReconnect_def Let_def)
qed

lemma calm_onclose [simp]: "calm (onclose s) s"
proof -
  let ?s1 = "s\<lparr>connectPromise := None, ws := None\<rparr>"
  let ?s3 = "(rejectPending (pendingActions ?s1) ?s1)\<lparr>pendingActions := []\<rparr>"
  have 1: "calm ?s3 s"
    by (rule calm_sub) (simp_all add: rejectPending_timers split: if_splits)
  have 2: "calm (scheduleReconnect ?s3) ?s3" "calm (setConnectionState Disconnected None ?s3) ?s3"
    by simp_all
  show ?thesis
    using calm_trans [OF 2(1) 1] calm_trans [OF 2(2) 1] by (simp add: onclose_def Let_def)
qed

lemma calm_onopen [simp]: "calm (onopen w s) s"
  by (auto simp: calm_def onopen_def send_def clearTimeout_def split: option.splits if_splits)

lemma calm_onerror [simp]: "calm (onerror w s) s"
  by (auto simp: calm_def onerror_def settle_def clearTimeout_def split: option.splits if_splits)

lemma calm_checkConnected [simp]: "calm (checkConnected parse w data s) s"
proof (cases "\<exists>sk m. sockets s w = Some sk \<and> parse data = Some m \<and>
                field m ''type'' = Some (JStr ''sdk_connected'')")
  case False
  then have "checkConnected parse w data s = s"
    by (auto simp: checkConnected_def split: option.splits json.splits)
  then show ?thesis by simp
next
  case True
  then obtain sk m where h: "sockets s w = Some sk" "parse data = Some m"
    "field m ''type'' = Some (JStr ''sdk_connected'')" by blast
  let ?s1 = "if ws s = Some w
             then s\<lparr>sockets := (sockets s)(w \<mapsto> sk\<lparr>checkConnected_attached := False\<rparr>)\<rparr>
             else s"
  let ?s3 = "setConnectionState Connected None (?s1\<lparr>reconnectAttempt := 0\<rparr>)"
  have 1: "calm (?s1\<lparr>reconnectAttempt := 0\<rparr>) s" using h(1) by (auto simp: calm_def)
  have 2: "calm ?s3 s" by (rule calm_trans [OF calm_setConnectionState 1])
  have 3: "calm (settle (ConnectPromise (connectResolver sk)) (Resolved JNull) ?s3) s"
    by (rule calm_trans [OF calm_prims(2) 2])
  have "checkConnected parse w data s =
      settle (ConnectPromise (connectResolver sk)) (Resolved JNull) ?s3"
    using h by (cases m) (simp_all add: checkConnected_def Let_def)
  then show ?thesis using 3 by simp
qed

lemma calm_disconnect [simp]: "calm (disconnect s) s"
proof (rule calmI)
  show "fresh s \<le> fresh (disconnect s)"
    by (simp add: disconnect_def Let_def clearTimeout_def socket_close_def split: option.splits)
next
  fix t tm p
  assume "timers (disconnect s) t = Some tm"
  then show "timers s t = Some tm" by (rule disconnect_timers)
next
  fix w sk'
  assume "sockets (disconnect s) w = Some sk'"
  then show "\<exists>sk. sockets s w = Some sk \<and> connectTimer sk' = connectTimer sk \<and>
                connectResolver sk' = connectResolver sk"
    by (auto simp: disconnect_fields split: option.splits if_splits)
qed

lemma calm_waitForConnection [simp]: "calm (snd (waitForConnection ms s)) s"
  by (auto simp: calm_def waitForConnection_def Let_def split: if_splits)

lemma calm_sendAction_body [simp]: "calm (sendAction_body f a i s) s"
  by (auto simp: calm_def sendAction_body_def Let_def send_def settle_def
      split: option.splits if_splits)

lemma calm_sendAction [simp]: "calm (snd (sendAction a i s)) s"
proof -
  let ?s0 = "s\<lparr>fresh := Suc (fresh s)\<rparr>"
  have 0: "calm ?s0 s" by (simp add: calm_def)
  have 1: "calm (snd (waitForConnection 60000 ?s0)) s"
    by (rule calm_trans [OF calm_waitForConnection 0])
  have 2: "calm (sendAction_body (fresh s) a i ?s0) s"
    by (rule calm_trans [OF calm_sendAction_body 0])
  have 3: "calm (x\<lparr>microtasks := m\<rparr>) s" "calm (x\<lparr>awaiting := aw\<rparr>) s" if "calm x s" for x m aw
    using that by (simp_all add: calm_def)
  show ?thesis
    using 1 2 3
    by (cases "waitForConnection 60000 ?s0")
       (auto simp: sendAction_def Let_def split: option.splits)
qed

lemma calm_runMicrotask [simp]: "calm (runMicrotask m s) s"
  by (induction m s rule: runMicrotask.induct) simp_all

lemma calm_foldl_microtasks: "calm (foldl (\<lambda>s' m. runMicrotask m s') s ms) s"
proof (induction ms arbitrary: s)
  case Nil
  then show ?case by simp
next
  case (Cons m ms)
  show ?case using calm_trans [OF Cons [of "runMicrotask m s"] calm_runMicrotask] by simp
qed

lemma calm_drain [simp]: "calm (drain s) s"
proof -
  have "calm (s\<lparr>microtasks := []\<rparr>) s" by (simp add: calm_def)
  from calm_trans [OF calm_foldl_microtasks this] show ?thesis by (simp add: drain_def)
qed

lemma calm_calls [simp]:
  "calm (snd (waitForCondition pr ms s)) s"
  "calm (snd (waitForStateChange ms s)) s"
  "calm (snd (onStateUpdate f s)) s"
  "calm (snd (onConnectionStateChange g s)) s"
  by (auto simp: calm_def waitForCondition_def subscribeCondition_def waitForStateChange_def
      onStateUpdate_def onConnectionStateChange_def Let_def
      split: option.splits sum.splits bool.splits if_splits)

lemma calm_handlers [simp]:
  "calm (handle_sdk_state m s) s"
  "calm (handle_sdk_action_result m s) s"
  "calm (handle_sdk_error m s) s"
proof -
  have "calm (notifyState ls st (s\<lparr>state := x\<rparr>)) s" for ls st x
    by (rule calm_sub) (auto dest: notifyState_timers_sub)
  then show "calm (handle_sdk_state m s) s"
    by (simp add: handle_sdk_state_def Let_def split: option.splits)
  show "calm (handle_sdk_action_result m s) s"
    by (auto simp: calm_def handle_sdk_action_result_def Let_def settle_def clearTimeout_def
        split: option.splits json.splits if_splits)
  show "calm (handle_sdk_error m s) s"
    by (auto simp: calm_def handle_sdk_error_def Let_def settle_def clearTimeout_def
        split: option.splits json.splits if_splits)
qed

lemma calm_handleMessage:
  "calm (case handleMessage parse data s of Inl e \<Rightarrow> s | Inr s' \<Rightarrow> s') s"
proof -
  have "calm (handle_sdk_error m (handle_sdk_action_result m (handle_sdk_state m s))) s" for m
    by (rule calm_trans [OF calm_handlers(3) calm_trans [OF calm_handlers(2) calm_handlers(1)]])
  then show ?thesis by (auto simp: handleMessage_def split: option.splits json.splits)
qed

lemma calm_onmessage [simp]: "calm (onmessage parse w data s) s"
proof -
  let ?s1 = "case handleMessage parse data s of Inl e \<Rightarrow> s | Inr s' \<Rightarrow> s'"
  have 1: "calm ?s1 s" by (rule calm_handleMessage)
  have 2: "calm (checkConnected parse w data ?s1) s"
    by (rule calm_trans [OF calm_checkConnected 1])
  show ?thesis using 1 2 by (simp add: onmessage_def Let_def split: option.splits)
qed

lemma calm_readyState:
  "sockets s w = Some sk \<Longrightarrow> calm (s\<lparr>sockets := (sockets s)(w \<mapsto> sk\<lparr>readyState := r\<rparr>)\<rparr>) s"
  by (auto simp: calm_def)

lemma calm_socketEvent [simp]: "calm (socketEvent parse e s) s"
proof (cases e)
  case (SocketOpen w)
  have "calm (onopen w (s\<lparr>sockets := (sockets s)(w \<mapsto> sk\<lparr>readyState := OPEN\<rparr>)\<rparr>)) s"
    if "sockets s w = Some sk" for sk
    by (rule calm_trans [OF calm_onopen calm_readyState [OF that]])
  then show ?thesis using SocketOpen by (simp add: socketEvent_def split: option.splits)
next
  case (SocketMessage w data)
  then show ?thesis by (simp add: socketEvent_def split: option.splits)
next
  case (SocketError w)
  then show ?thesis by (simp add: socketEvent_def split: option.splits)
next
  case (SocketClose w)
  have "calm (onclose (s\<lparr>sockets := (sockets s)(w \<mapsto> sk\<lparr>readyState := CLOSED\<rparr>)\<rparr>)) s"
    if "sockets s w = Some sk" for sk
    by (rule calm_trans [OF calm_onclose calm_readyState [OF that]])
  then show ?thesis using SocketClose by (simp add: socketEvent_def split: option.splits)
qed (simp_all add: socketEvent_def)


lemma calm_runTimer: "cb \<noteq> ReconnectTimer \<Longrightarrow> calm (runTimer cb s) s"
proof (cases cb)
  case (ConnectTimeout p)
  have "calm (socket_close w (settle q r s)) s" for w q r
    by (rule calm_trans [OF calm_prims(6) calm_prims(2)])
  then show ?thesis using ConnectTimeout by (simp add: Let_def split: option.splits)
next
  case (WaitConnectionTimeout l p)
  show ?thesis using WaitConnectionTimeout calm_trans [OF calm_prims(7) calm_prims(4)] by simp
next
  case (ActionTimeout i f ty)
  have "calm (s\<lparr>pendingActions := x\<rparr>) s" for x by (simp add: calm_def)
  from calm_trans [OF calm_prims(2) this] show ?thesis using ActionTimeout by simp
next
  case (WaitConditionTimeout l p)
  show ?thesis using WaitConditionTimeout calm_trans [OF calm_prims(2) calm_prims(3)] by simp
next
  case (WaitStateChangeTimeout l p)
  show ?thesis using WaitStateChangeTimeout calm_trans [OF calm_prims(2) calm_prims(3)] by simp
qed simp

text \<open>What holds of every step once it holds across calm changes and across \<open>connect\<close>.\<close>

lemma step_preserves:
  assumes calm: "\<And>s' s. calm s' s \<Longrightarrow> P s \<Longrightarrow> P s'"
    and conn: "\<And>s. P s \<Longrightarrow> P (snd (connect s))"
    and "P s"
  shows "P (step parse e s)"
proof -
  have d: "P (drain x)" if "P x" for x using calm [OF calm_drain that] .
  show ?thesis
  proof (cases e)
    case CallConnect
    then show ?thesis using conn assms(3) by (simp add: step_def)
  next
    case CallDisconnect
    then show ?thesis using calm [OF calm_disconnect assms(3)] by (simp add: step_def)
  next
    case (CallSendAction a i)
    then show ?thesis using calm [OF calm_sendAction assms(3)] by (simp add: step_def)
  next
    case (CallWaitForConnection ms)
    then show ?thesis using calm [OF calm_waitForConnection assms(3)] by (simp add: step_def)
  next
    case (CallWaitForCondition pr ms)
    then show ?thesis using calm [OF calm_calls(1) assms(3)] by (simp add: step_def)
  next
    case (CallWaitForStateChange ms)
    then show ?thesis using calm [OF calm_calls(2) assms(3)] by (simp add: step_def)
  next
    case (CallOnStateUpdate f)
    then show ?thesis using calm [OF calm_calls(3) assms(3)] by (simp add: step_def)
  next
    case (CallOnConnectionStateChange g)
    then show ?thesis using calm [OF calm_calls(4) assms(3)] by (simp add: step_def)
  next
    case Microtasks
    then show ?thesis using d [OF assms(3)] by (simp add: step_def)
  next
    case (TimerFires t)
    have "P (fireTimer t x)" if px: "P x" for x
    proof (cases "timers x t")
      case None
      then show ?thesis using px by (simp add: fireTimer_def)
    next
      case (Some tm)
      have c: "P (clearTimeout t x)" using calm [OF calm_prims(1) px] .
      show ?thesis
      proof (cases "callback tm = ReconnectTimer")
        case True
        have "P (clearTimeout t x\<lparr>reconnectTimer := None\<rparr>)"
          by (rule calm [OF _ c]) (simp add: calm_def)
        from conn [OF this] show ?thesis using Some True by (simp add: fireTimer_def)
      next
        case False
        from calm [OF calm_runTimer [OF False] c] show ?thesis using Some
          by (simp add: fireTimer_def)
      qed
    qed
    from d [OF this [OF d [OF assms(3)]]] show ?thesis using TimerFires by (simp add: step_def)
  next
    case (SocketOpen w)
    from d [OF calm [OF calm_socketEvent d [OF assms(3)]]] show ?thesis using SocketOpen
      by (simp add: step_def)
  next
    case (SocketMessage w data)
    from d [OF calm [OF calm_socketEvent d [OF assms(3)]]] show ?thesis using SocketMessage
      by (simp add: step_def)
  next
    case (SocketError w)
    from d [OF calm [OF calm_socketEvent d [OF assms(3)]]] show ?thesis using SocketError
      by (simp add: step_def)
  next
    case (SocketClose w)
    from d [OF calm [OF calm_socketEvent d [OF assms(3)]]] show ?thesis using SocketClose
      by (simp add: step_def)
  qed
qed

lemma connect_creates:
  assumes "\<not> isConnected s \<and> connectPromise s = None"
  shows "\<exists>x. calm x s \<and>
           snd (connect s) =
             x\<lparr>ws := Some (fresh x + 1),
               sockets := (sockets x)(fresh x + 1 \<mapsto>
                 \<lparr>readyState = CONNECTING, connectTimer = fresh x + 2, connectResolver = fresh x,
                  checkConnected_attached = True\<rparr>),
               timers := (timers x)(fresh x + 2 \<mapsto> \<lparr>delay = 10000, callback = ConnectTimeout (fresh x)\<rparr>),
               connectPromise := Some (fresh x),
               fresh := fresh x + 3\<rparr>"
proof -
  let ?s1 = "s\<lparr>intentionalDisconnect := False\<rparr>"
  let ?s2 = "if connectionState ?s1 = Reconnecting then ?s1 else setConnectionState Connecting None ?s1"
  have 1: "calm ?s1 s" by (simp add: calm_def)
  have 2: "calm ?s2 s" using calm_trans [OF calm_setConnectionState 1] 1 by simp
  show ?thesis
    by (rule exI [of _ ?s2]) (use 2 assms in \<open>simp add: connect_def Let_def\<close>)
qed

lemma wired_created:
  assumes "wired x"
  shows "wired (x\<lparr>ws := a,
               sockets := (sockets x)(fresh x + 1 \<mapsto>
                 \<lparr>readyState = r, connectTimer = fresh x + 2, connectResolver = fresh x,
                  checkConnected_attached = c\<rparr>),
               timers := (timers x)(fresh x + 2 \<mapsto> \<lparr>delay = d, callback = ConnectTimeout (fresh x)\<rparr>),
               connectPromise := b,
               fresh := fresh x + 3\<rparr>)"
    (is "wired ?y")
  unfolding wired_def
proof (intro conjI allI impI)
  fix t tm p
  assume h: "timers ?y t = Some tm \<and> callback tm = ConnectTimeout p"
  have "t = p + 2 \<and> p < fresh ?y"
  proof (cases "t = fresh x + 2")
    case True
    then show ?thesis using h by auto
  next
    case False
    then have "timers x t = Some tm" using h by simp
    then have "t = p + 2 \<and> p < fresh x" using assms h unfolding wired_def by blast
    then show ?thesis by simp
  qed
  then show "t = p + 2" "p < fresh ?y" by simp_all
next
  fix w sk
  assume h: "sockets ?y w = Some sk"
  have "w = connectResolver sk + 1 \<and> connectTimer sk = connectResolver sk + 2 \<and>
        connectResolver sk < fresh ?y"
  proof (cases "w = fresh x + 1")
    case True
    then show ?thesis using h by auto
  next
    case False
    then have "sockets x w = Some sk" using h by simp
    then have "w = connectResolver sk + 1 \<and> connectTimer sk = connectResolver sk + 2 \<and>
        connectResolver sk < fresh x" using assms unfolding wired_def by blast
    then show ?thesis by simp
  qed
  then show "w = connectResolver sk + 1" "connectTimer sk = connectResolver sk + 2"
    "connectResolver sk < fresh ?y" by simp_all
qed

lemma silent_created:
  assumes "silent p x"
  shows "silent p (x\<lparr>ws := a,
               sockets := (sockets x)(fresh x + 1 \<mapsto> sk),
               timers := (timers x)(fresh x + 2 \<mapsto> \<lparr>delay = d, callback = ConnectTimeout (fresh x)\<rparr>),
               connectPromise := b,
               fresh := fresh x + 3\<rparr>)"
    (is "silent p ?y")
  unfolding silent_def
proof (intro conjI allI impI)
  show "p < fresh ?y" using assms by (simp add: silent_def)
next
  fix t tm
  assume h: "timers ?y t = Some tm"
  show "callback tm \<noteq> ConnectTimeout p"
  proof (cases "t = fresh x + 2")
    case True
    then show ?thesis using h assms by (auto simp: silent_def)
  next
    case False
    then have "timers x t = Some tm" using h by simp
    then show ?thesis using assms unfolding silent_def by blast
  qed
qed

lemma connect_wired:
  assumes "wired s"
  shows "wired (snd (connect s))"
proof (cases "\<not> isConnected s \<and> connectPromise s = None")
  case False
  then have "snd (connect s) = s" by (auto simp: connect_def split: option.splits)
  then show ?thesis using assms by simp
next
  case True
  from connect_creates [OF True] obtain x where x: "calm x s" and
    e: "snd (connect s) =
             x\<lparr>ws := Some (fresh x + 1),
               sockets := (sockets x)(fresh x + 1 \<mapsto>
                 \<lparr>readyState = CONNECTING, connectTimer = fresh x + 2, connectResolver = fresh x,
                  checkConnected_attached = True\<rparr>),
               timers := (timers x)(fresh x + 2 \<mapsto> \<lparr>delay = 10000, callback = ConnectTimeout (fresh x)\<rparr>),
               connectPromise := Some (fresh x),
               fresh := fresh x + 3\<rparr>" by blast
  show ?thesis unfolding e by (rule wired_created [OF calm_wired [OF x assms]])
qed

lemma connect_silent:
  assumes "silent p s"
  shows "silent p (snd (connect s))"
proof (cases "\<not> isConnected s \<and> connectPromise s = None")
  case False
  then have "snd (connect s) = s" by (auto simp: connect_def split: option.splits)
  then show ?thesis using assms by simp
next
  case True
  from connect_creates [OF True] obtain x where x: "calm x s" and
    e: "snd (connect s) =
             x\<lparr>ws := Some (fresh x + 1),
               sockets := (sockets x)(fresh x + 1 \<mapsto>
                 \<lparr>readyState = CONNECTING, connectTimer = fresh x + 2, connectResolver = fresh x,
                  checkConnected_attached = True\<rparr>),
               timers := (timers x)(fresh x + 2 \<mapsto> \<lparr>delay = 10000, callback = ConnectTimeout (fresh x)\<rparr>),
               connectPromise := Some (fresh x),
               fresh := fresh x + 3\<rparr>" by blast
  show ?thesis unfolding e by (rule silent_created [OF calm_silent [OF x assms]])
qed

lemma step_wired: "wired s \<Longrightarrow> wired (step parse e s)"
  by (rule step_preserves [of wired]) (auto intro: calm_wired connect_wired)

lemma step_silent: "silent p s \<Longrightarrow> silent p (step parse e s)"
  by (rule step_preserves [of "silent p"]) (auto intro: calm_silent connect_silent)

lemma run_wired: "wired s \<Longrightarrow> wired (run parse es s)"
  by (induction es arbitrary: s) (simp_all add: step_wired)

lemma run_silent: "silent p s \<Longrightarrow> silent p (run parse es s)"
  by (induction es arbitrary: s) (simp_all add: step_silent)

lemma wired_new: "wired (new_BotSDK c clientId)"
  by (simp add: wired_def new_BotSDK_def)

lemma cs_update [simp]:
  "connect_settlements p (s\<lparr>config := a1\<rparr>) = connect_settlements p s"
  "connect_settlements p (s\<lparr>ws := a2\<rparr>) = connect_settlements p s"
  "connect_settlements p (s\<lparr>state := a3\<rparr>) = connect_settlements p s"
  "connect_settlements p (s\<lparr>pendingActions := a4\<rparr>) = connect_settlements p s"
  "connect_settlements p (s\<lparr>stateListeners := a5\<rparr>) = connect_settlements p s"
  "connect_settlements p (s\<lparr>connectionListeners := a6\<rparr>) = connect_settlements p s"
  "connect_settlements p (s\<lparr>connectPromise := a7\<rparr>) = connect_settlements p s"
  "connect_settlements p (s\<lparr>connectionState := a8\<rparr>) = connect_settlements p s"
  "connect_settlements p (s\<lparr>reconnectAttempt := a9\<rparr>) = connect_settlements p s"
  "connect_settlements p (s\<lparr>reconnectTimer := a10\<rparr>) = connect_settlements p s"
  "connect_settlements p (s\<lparr>intentionalDisconnect := a11\<rparr>) = connect_settlements p s"
  "connect_settlements p (s\<lparr>sockets := a12\<rparr>) = connect_settlements p s"
  "connect_settlements p (s\<lparr>timers := a13\<rparr>) = connect_settlements p s"
  "connect_settlements p (s\<lparr>sent := a14\<rparr>) = connect_settlements p s"
  "connect_settlements p (s\<lparr>notified := a15\<rparr>) = connect_settlements p s"
  "connect_settlements p (s\<lparr>console_errors := a16\<rparr>) = connect_settlements p s"
  "connect_settlements p (s\<lparr>awaiting := a17\<rparr>) = connect_settlements p s"
  "connect_settlements p (s\<lparr>microtasks := a18\<rparr>) = connect_settlements p s"
  "connect_settlements p (s\<lparr>fresh := a19\<rparr>) = connect_settlements p s"
  by (simp_all add: connect_settlements_def)

lemma cs_settle [simp]:
  "connect_settlements p (settle q r s) =
     connect_settlements p s @ (if q = ConnectPromise p then [(q, r)] else [])"
  by (simp add: connect_settlements_def settle_def)

lemma cs_prims [simp]:
  "connect_settlements p (clearTimeout t s) = connect_settlements p s"
  "connect_settlements p (unsubscribeState l s) = connect_settlements p s"
  "connect_settlements p (unsubscribeConnection l s) = connect_settlements p s"
  "connect_settlements p (socket_close w s) = connect_settlements p s"
  "connect_settlements p (send m s) = connect_settlements p s"
  "connect_settlements p (settleWaitConnection n r s) = connect_settlements p s"
  by (simp_all add: clearTimeout_def unsubscribeState_def unsubscribeConnection_def
      socket_close_def send_def settleWaitConnection_def Let_def split: option.splits)

lemma cs_tryConnectionListener [simp]:
  "connect_settlements p (tryConnectionListener l f st a s) = connect_settlements p s"
  by (cases f) (simp_all add: tryConnectionListener_def split: option.splits)

lemma cs_notifyConnection [simp]:
  "connect_settlements p (notifyConnection ls st a s) = connect_settlements p s"
  by (induction ls arbitrary: s) (simp_all split: option.splits)

lemma cs_setConnectionState [simp]:
  "connect_settlements p (setConnectionState st a s) = connect_settlements p s"
  by (simp add: setConnectionState_def Let_def)

lemma cs_tryStateListener [simp]:
  "connect_settlements p (tryStateListener l f st s) = connect_settlements p s"
  by (cases f) (simp_all add: tryStateListener_def Let_def split: option.splits sum.splits bool.splits)

lemma cs_notifyState [simp]:
  "connect_settlements p (notifyState ls st s) = connect_settlements p s"
  by (induction ls arbitrary: s) (simp_all split: option.splits)

lemma cs_rejectPending [simp]:
  "connect_settlements p (rejectPending ps s) = connect_settlements p s"
  by (induction ps s rule: rejectPending.induct) simp_all

lemma cs_scheduleReconnect [simp]:
  "connect_settlements p (scheduleReconnect s) = connect_settlements p s"
  by (simp add: scheduleReconnect_def Let_def)

lemma cs_connect [simp]: "connect_settlements p (snd (connect s)) = connect_settlements p s"
  by (simp add: connect_def Let_def split: option.splits)

lemma cs_disconnect [simp]: "connect_settlements p (disconnect s) = connect_settlements p s"
  by (simp add: disconnect_def Let_def split: option.splits)

lemma cs_onclose [simp]: "connect_settlements p (onclose s) = connect_settlements p s"
  by (simp add: onclose_def Let_def)

lemma cs_onopen [simp]: "connect_settlements p (onopen w s) = connect_settlements p s"
  by (simp add: onopen_def split: option.splits)


lemma cs_onerror:
  "\<forall>sk. sockets s w = Some sk \<longrightarrow> connectResolver sk \<noteq> p \<Longrightarrow>
   connect_settlements p (onerror w s) = connect_settlements p s"
  by (simp add: onerror_def split: option.splits)

lemma cs_sendAction_body [simp]:
  "connect_settlements p (sendAction_body f a i s) = connect_settlements p s"
  by (simp add: sendAction_body_def Let_def)

lemma cs_waitForConnection [simp]:
  "connect_settlements p (snd (waitForConnection ms s)) = connect_settlements p s"
  by (simp add: waitForConnection_def Let_def)

lemma cs_sendAction [simp]:
  "connect_settlements p (snd (sendAction a i s)) = connect_settlements p s"
proof -
  have "connect_settlements p (snd (waitForConnection 60000 (s\<lparr>fresh := Suc (fresh s)\<rparr>))) =
          connect_settlements p s"
    by (simp del: cs_update)  (simp add: connect_settlements_def)
  then show ?thesis
    by (cases "waitForConnection 60000 (s\<lparr>fresh := Suc (fresh s)\<rparr>)")
       (auto simp: sendAction_def Let_def split: option.splits)
qed

lemma cs_runMicrotask [simp]:
  "connect_settlements p (runMicrotask m s) = connect_settlements p s"
  by (induction m s rule: runMicrotask.induct) simp_all

lemma cs_foldl_microtasks:
  "connect_settlements p (foldl (\<lambda>s' m. runMicrotask m s') s ms) = connect_settlements p s"
  by (induction ms arbitrary: s) simp_all

lemma cs_drain [simp]: "connect_settlements p (drain s) = connect_settlements p s"
  by (simp add: drain_def cs_foldl_microtasks)

lemma cs_waits [simp]:
  "connect_settlements p (snd (waitForCondition pr ms s)) = connect_settlements p s"
  "connect_settlements p (snd (waitForStateChange ms s)) = connect_settlements p s"
  "connect_settlements p (snd (onStateUpdate f s)) = connect_settlements p s"
  "connect_settlements p (snd (onConnectionStateChange g s)) = connect_settlements p s"
  by (simp_all add: waitForCondition_def subscribeCondition_def waitForStateChange_def
      onStateUpdate_def onConnectionStateChange_def Let_def
      split: option.splits sum.splits bool.splits)


lemma cs_runTimer:
  "cb \<noteq> ConnectTimeout p \<Longrightarrow> connect_settlements p (runTimer cb s) = connect_settlements p s"
  by (cases cb) (simp_all add: Let_def split: option.splits)

lemma cs_fireTimer:
  "\<forall>tm. timers s t = Some tm \<longrightarrow> callback tm \<noteq> ConnectTimeout p \<Longrightarrow>
   connect_settlements p (fireTimer t s) = connect_settlements p s"
  by (simp add: fireTimer_def cs_runTimer split: option.splits)

lemma cs_handlers [simp]:
  "connect_settlements p (handle_sdk_state m s) = connect_settlements p s"
  "connect_settlements p (handle_sdk_action_result m s) = connect_settlements p s"
  "connect_settlements p (handle_sdk_error m s) = connect_settlements p s"
  by (simp_all add: handle_sdk_state_def handle_sdk_action_result_def handle_sdk_error_def
      Let_def split: option.splits json.splits)

lemma cs_handleMessage:
  "handleMessage parse data s = Inr s' \<Longrightarrow> connect_settlements p s' = connect_settlements p s"
  by (auto simp: handleMessage_def split: option.splits json.splits)


lemma cs_handleMessage_case:
  "connect_settlements p (case handleMessage parse data s of Inl e \<Rightarrow> s | Inr s' \<Rightarrow> s') =
   connect_settlements p s"
  by (auto simp: handleMessage_def split: option.splits json.splits)

lemma cs_onmessage:
  "(\<forall>m. parse data = Some m \<longrightarrow> field m ''type'' \<noteq> Some (JStr ''sdk_connected'')) \<Longrightarrow>
   connect_settlements p (onmessage parse w data s) = connect_settlements p s"
  by (simp add: onmessage_def Let_def cr_checkConnected_other cs_handleMessage_case
      split: option.splits)

lemma cs_socketEvent:
  assumes "\<not> settles_connect parse p e" and "wired s"
  shows "connect_settlements p (socketEvent parse e s) = connect_settlements p s"
proof (cases e)
  case (SocketOpen w)
  then show ?thesis by (simp add: socketEvent_def split: option.splits)
next
  case (SocketMessage w data)
  then have "\<forall>m. parse data = Some m \<longrightarrow> field m ''type'' \<noteq> Some (JStr ''sdk_connected'')"
    using assms(1) by (auto simp: settles_connect_def is_ack_def split: option.splits)
  then show ?thesis using SocketMessage
    by (simp add: socketEvent_def cs_onmessage split: option.splits)
next
  case (SocketError w)
  then have "w \<noteq> p + 1" using assms(1) by (simp add: settles_connect_def)
  then have "\<forall>sk. sockets s w = Some sk \<longrightarrow> connectResolver sk \<noteq> p"
    using assms(2) unfolding wired_def by auto
  then show ?thesis using SocketError
    by (simp add: socketEvent_def cs_onerror split: option.splits)
next
  case (SocketClose w)
  then show ?thesis by (simp add: socketEvent_def split: option.splits)
qed (simp_all add: socketEvent_def)

lemma cs_step:
  assumes "\<not> settles_connect parse p e" and "wired s" and "silent p s"
  shows "connect_settlements p (step parse e s) = connect_settlements p s"
proof -
  have w: "wired (drain s)" by (rule calm_wired [OF calm_drain assms(2)])
  have q: "silent p (drain s)" by (rule calm_silent [OF calm_drain assms(3)])
  show ?thesis
  proof (cases e)
    case (TimerFires t)
    have "\<forall>tm. timers (drain s) t = Some tm \<longrightarrow> callback tm \<noteq> ConnectTimeout p"
      using q unfolding silent_def by blast
    then show ?thesis using TimerFires by (simp add: step_def cs_fireTimer)
  next
    case (SocketOpen w)
    then show ?thesis using cs_socketEvent [OF assms(1) w] by (simp add: step_def)
  next
    case (SocketMessage w data)
    then show ?thesis using cs_socketEvent [OF assms(1) w] by (simp add: step_def)
  next
    case (SocketError w)
    then show ?thesis using cs_socketEvent [OF assms(1) w] by (simp add: step_def)
  next
    case (SocketClose w)
    then show ?thesis using cs_socketEvent [OF assms(1) w] by (simp add: step_def)
  qed (simp_all add: step_def)
qed

lemma cs_run:
  "\<forall>e \<in> set es. \<not> settles_connect parse p e \<Longrightarrow> wired s \<Longrightarrow> silent p s \<Longrightarrow>
   connect_settlements p (run parse es s) = connect_settlements p s"
  by (induction es arbitrary: s) (simp_all add: cs_step step_wired step_silent)


lemma connectTimeout_fires:
  assumes "timers s t = Some \<lparr>delay = d, callback = ConnectTimeout p\<rparr>"
  shows "settled (fireTimer t s) =
           settled s @ [(ConnectPromise p, Rejected (Error (JStr ''Connection timeout'')))]"
    and "connectionState (fireTimer t s) = connectionState s"
    and "ws s = Some w \<Longrightarrow> sockets s w = Some sk \<Longrightarrow>
         sockets (fireTimer t s) w =
           Some (if readyState sk = CLOSED then sk else sk\<lparr>readyState := CLOSING\<rparr>)"
  using assms
  by (simp_all add: fireTimer_def Let_def settle_def clearTimeout_def socket_close_def
      split: option.splits)

lemma open_silent:
  assumes "wired s" and "sockets s w = Some sk" and "readyState sk = CONNECTING"
  shows "silent (connectResolver sk) (socketEvent parse (SocketOpen w) s)"
proof -
  let ?o = "socketEvent parse (SocketOpen w) s"
  have f: "connectResolver sk < fresh s" "connectTimer sk = connectResolver sk + 2"
    using assms(1,2) unfolding wired_def by blast+
  have t: "timers ?o = (timers s)(connectTimer sk := None)" and fr: "fresh ?o = fresh s"
    using assms(2,3)
    by (simp_all add: socketEvent_def onopen_def send_def clearTimeout_def split: option.splits)
  show ?thesis
    unfolding silent_def
  proof (intro conjI allI impI)
    show "connectResolver sk < fresh ?o" using f fr by simp
  next
    fix u tm
    assume h: "timers ?o u = Some tm"
    show "callback tm \<noteq> ConnectTimeout (connectResolver sk)"
    proof
      assume c: "callback tm = ConnectTimeout (connectResolver sk)"
      from h have u: "u \<noteq> connectTimer sk" "timers s u = Some tm"
        by (auto simp: t split: if_splits)
      then have "u = connectResolver sk + 2" using assms(1) c unfolding wired_def by blast
      then show False using u(1) f(2) by simp
    qed
  qed
qed

text \<open>
  C8, as stated, fails. After \<open>connect\<close> and the open event of its socket the identify
  message has been sent, the promise is unsettled, and no timer is armed: the open
  handler cleared the 10 second timer before it sent the message. So no time-out
  rejects the promise when the acknowledgement never comes. And a second \<open>connect\<close>
  call made then returns at once, the state still \<open>connecting\<close>: it tests that the
  socket is open, not that the identify message was acknowledged.
\<close>

theorem connect_hangs_counterexample:
  "sent opened_example =
     [(1, JObj [(''type'', JStr ''sdk_connect''), (''username'', JStr ''bot''),
                (''clientId'', JStr ''sdk-1'')])] \<and>
   settled opened_example = [] \<and>
   fresh opened_example = 3 \<and>
   map (timers opened_example) [0, 1, 2] = [None, None, None] \<and>
   settled (run example_parse [TimerFires 2] opened_example) = [] \<and>
   connectionState opened_example = Connecting \<and>
   connect opened_example = (None, opened_example)"
  by (simp add: opened_example_fields step_def drain_def fireTimer_def connect_def isConnected_def)

text \<open>
  C8, amended. A \<open>connect\<close> call made while the socket is open returns at once,
  acknowledged or not, and one made while an attempt is in flight returns the promise
  of that attempt. Otherwise \<open>connect\<close> creates a socket, arms a timer of 10000 ms and
  returns a new promise. No run of events without an \<open>sdk_connected\<close> message resolves
  a \<open>connect\<close> promise, and an \<open>sdk_connected\<close> message on an open socket whose
  listener is attached resolves the promise of that socket. A 10 second timer that
  elapses while armed rejects its promise with \<open>Connection timeout\<close> and closes the
  socket that is current then. The open event of a socket clears the timer of that
  socket, settles nothing and sends the identify message; on an object wired as
  \<open>connect\<close> wires it, as every object reached from a new one is, no timer that would
  reject the promise of that socket is armed from then on, and over any run of events
  with no \<open>sdk_connected\<close> message and no error event of that socket the promise
  stays as it is. The time-out therefore bounds the opening of the socket, not the wait
  for the acknowledgement.
\<close>

theorem connect_handshake:
  "(isConnected s \<longrightarrow> connect s = (None, s)) \<and>
   (\<not> isConnected s \<and> connectPromise s = Some q \<longrightarrow> connect s = (Some q, s)) \<and>
   (\<not> isConnected s \<and> connectPromise s = None \<longrightarrow>
      fst (connect s) = Some (fresh s) \<and>
      ws (snd (connect s)) = Some (fresh s + 1) \<and>
      sockets (snd (connect s)) (fresh s + 1) =
        Some \<lparr>readyState = CONNECTING, connectTimer = fresh s + 2, connectResolver = fresh s,
              checkConnected_attached = True\<rparr> \<and>
      timers (snd (connect s)) (fresh s + 2) =
        Some \<lparr>delay = 10000, callback = ConnectTimeout (fresh s)\<rparr>) \<and>
   ((\<forall>e \<in> set es. \<not> is_ack parse e) \<longrightarrow>
      connect_resolutions (run parse es s) = connect_resolutions s) \<and>
   (sockets s w = Some sk \<and> readyState sk = OPEN \<and> checkConnected_attached sk \<and>
    parse data = Some m \<and> field m ''type'' = Some (JStr ''sdk_connected'') \<longrightarrow>
      connect_resolutions (socketEvent parse (SocketMessage w data) s) =
        connect_resolutions s @ [(ConnectPromise (connectResolver sk), Resolved JNull)]) \<and>
   (timers s t = Some \<lparr>delay = d, callback = ConnectTimeout p\<rparr> \<longrightarrow>
      settled (fireTimer t s) =
        settled s @ [(ConnectPromise p, Rejected (Error (JStr ''Connection timeout'')))] \<and>
      (ws s = Some w' \<and> sockets s w' = Some sk' \<longrightarrow>
         sockets (fireTimer t s) w' =
           Some (if readyState sk' = CLOSED then sk' else sk'\<lparr>readyState := CLOSING\<rparr>))) \<and>
   (sockets s w = Some sk \<and> readyState sk = CONNECTING \<longrightarrow>
      timers (socketEvent parse (SocketOpen w) s) (connectTimer sk) = None \<and>
      settled (socketEvent parse (SocketOpen w) s) = settled s \<and>
      (ws s = Some w \<longrightarrow> sent (socketEvent parse (SocketOpen w) s) = sent s @ [(w, identify s)]) \<and>
      (wired s \<longrightarrow> silent (connectResolver sk) (socketEvent parse (SocketOpen w) s))) \<and>
   (wired s \<and> silent r s \<and> (\<forall>e \<in> set es. \<not> settles_connect parse r e) \<longrightarrow>
      connect_settlements r (run parse es s) = connect_settlements r s \<and>
      silent r (run parse es s)) \<and>
   wired (run parse es (new_BotSDK c clientId))"
proof -
  have R: "connect s = (None, s)" if "isConnected s"
    using that by (simp add: connect_def)
  have S: "connect s = (Some q, s)" if "\<not> isConnected s \<and> connectPromise s = Some q"
    using that by (simp add: connect_def)
  have A: "fst (connect s) = Some (fresh s) \<and>
      ws (snd (connect s)) = Some (fresh s + 1) \<and>
      sockets (snd (connect s)) (fresh s + 1) =
        Some \<lparr>readyState = CONNECTING, connectTimer = fresh s + 2, connectResolver = fresh s,
              checkConnected_attached = True\<rparr> \<and>
      timers (snd (connect s)) (fresh s + 2) =
        Some \<lparr>delay = 10000, callback = ConnectTimeout (fresh s)\<rparr>"
    if "\<not> isConnected s \<and> connectPromise s = None"
    using that by (simp add: connect_def Let_def)
  have B: "connect_resolutions (run parse es s) = connect_resolutions s"
    if "\<forall>e \<in> set es. \<not> is_ack parse e"
    using that by (rule cr_run)
  have C: "connect_resolutions (socketEvent parse (SocketMessage w data) s) =
        connect_resolutions s @ [(ConnectPromise (connectResolver sk), Resolved JNull)]"
    if h: "sockets s w = Some sk \<and> readyState sk = OPEN \<and> checkConnected_attached sk \<and>
      parse data = Some m \<and> field m ''type'' = Some (JStr ''sdk_connected'')"
  proof -
    have nn: "m \<noteq> JNull" using h by auto
    have "handle_sdk_error m (handle_sdk_action_result m (handle_sdk_state m s)) = s"
      using h by (simp add: handle_sdk_state_skip handle_sdk_action_result_skip handle_sdk_error_skip)
    then have hm: "handleMessage parse data s = Inr s"
      using h nn by (cases m) (simp_all add: handleMessage_def)
    have "connect_resolutions (checkConnected parse w data s) =
        connect_resolutions s @ [(ConnectPromise (connectResolver sk), Resolved JNull)]"
      using h nn by (cases m) (simp_all add: checkConnected_def Let_def)
    then show ?thesis using h hm by (simp add: socketEvent_def onmessage_def)
  qed
  have D: "settled (fireTimer t s) =
        settled s @ [(ConnectPromise p, Rejected (Error (JStr ''Connection timeout'')))] \<and>
      (ws s = Some w' \<and> sockets s w' = Some sk' \<longrightarrow>
         sockets (fireTimer t s) w' =
           Some (if readyState sk' = CLOSED then sk' else sk'\<lparr>readyState := CLOSING\<rparr>))"
    if "timers s t = Some \<lparr>delay = d, callback = ConnectTimeout p\<rparr>"
    using connectTimeout_fires(1) [OF that] connectTimeout_fires(3) [OF that, of w' sk'] by blast
  have E: "timers (socketEvent parse (SocketOpen w) s) (connectTimer sk) = None \<and>
      settled (socketEvent parse (SocketOpen w) s) = settled s \<and>
      (ws s = Some w \<longrightarrow> sent (socketEvent parse (SocketOpen w) s) = sent s @ [(w, identify s)]) \<and>
      (wired s \<longrightarrow> silent (connectResolver sk) (socketEvent parse (SocketOpen w) s))"
    if h: "sockets s w = Some sk \<and> readyState sk = CONNECTING"
  proof -
    have 1: "timers (socketEvent parse (SocketOpen w) s) (connectTimer sk) = None \<and>
      settled (socketEvent parse (SocketOpen w) s) = settled s \<and>
      (ws s = Some w \<longrightarrow> sent (socketEvent parse (SocketOpen w) s) = sent s @ [(w, identify s)])"
      using h
      by (simp add: socketEvent_def onopen_def send_def clearTimeout_def identify_def
          split: option.splits)
    have 2: "silent (connectResolver sk) (socketEvent parse (SocketOpen w) s)" if "wired s"
      using open_silent [OF that, of w sk parse] h by blast
    show ?thesis using 1 2 by blast
  qed
  have F: "connect_settlements r (run parse es s) = connect_settlements r s \<and>
      silent r (run parse es s)"
    if "wired s \<and> silent r s \<and> (\<forall>e \<in> set es. \<not> settles_connect parse r e)"
    using that cs_run [of es parse r s] run_silent [of r s parse es] by blast
  have G: "wired (run parse es (new_BotSDK c clientId))"
    by (rule run_wired [OF wired_new])
  show ?thesis using R S A B C D E F G by blast
qed


theorem connect_handshake_witness:
  \<open>\<not> isConnected (new_BotSDK default_config ''sdk-1'') \<and>
   connectPromise (new_BotSDK default_config ''sdk-1'') = None \<and>
   timers (snd (connect (new_BotSDK default_config ''sdk-1''))) 2 =
     Some \<lparr>delay = 10000, callback = ConnectTimeout 0\<rparr> \<and>
   \<not> isConnected connecting_example \<and> connectPromise connecting_example = Some 0 \<and>
   connect connecting_example = (Some 0, connecting_example) \<and>
   settled (fireTimer 2 connecting_example) =
     [(ConnectPromise 0, Rejected (Error (JStr ''Connection timeout'')))] \<and>
   sockets (fireTimer 2 connecting_example) 1 =
     Some \<lparr>readyState = CLOSING, connectTimer = 2, connectResolver = 0, checkConnected_attached = True\<rparr> \<and>
   wired connecting_example \<and>
   timers (socketEvent example_parse (SocketOpen 1) connecting_example) 2 = None \<and>
   silent 0 (socketEvent example_parse (SocketOpen 1) connecting_example) \<and>
   isConnected opened_example \<and> connect opened_example = (None, opened_example) \<and>
   \<not> is_ack example_parse (TimerFires 2) \<and>
   \<not> is_ack example_parse (SocketMessage 1 ''garbage'') \<and>
   \<not> is_ack example_parse Microtasks \<and>
   connect_resolutions (run example_parse [TimerFires 2, SocketMessage 1 ''garbage'', Microtasks] opened_example) = [] \<and>
   connect_resolutions (socketEvent example_parse (SocketMessage 1 ''{"type":"sdk_connected"}'') opened_example) =
     [(ConnectPromise 0, Resolved JNull)] \<and>
   wired opened_example \<and> silent 0 opened_example \<and>
   \<not> settles_connect example_parse 0 (TimerFires 2) \<and>
   \<not> settles_connect example_parse 0 (SocketMessage 1 ''garbage'') \<and>
   \<not> settles_connect example_parse 0 (SocketClose 1) \<and>
   connect_settlements 0
     (run example_parse [TimerFires 2, SocketMessage 1 ''garbage'', SocketClose 1] opened_example) = []\<close>
proof -
  let ?i = "new_BotSDK default_config ''sdk-1''"
  let ?sk = "\<lparr>readyState = CONNECTING, connectTimer = 2, connectResolver = 0, checkConnected_attached = True\<rparr>"
  have i: "\<not> isConnected ?i" "connectPromise ?i = None" "fresh ?i = 0"
    by (simp_all add: new_BotSDK_def isConnected_def)
  note first = connect_handshake [of ?i _ "[CallConnect]" example_parse _ _ _ _ _ _ _ _ _ _
      default_config "''sdk-1''"]
  have ce: "connecting_example = snd (connect ?i)"
    by (simp add: connecting_example_def step_def)
  have c: "timers connecting_example 2 = Some \<lparr>delay = 10000, callback = ConnectTimeout 0\<rparr>"
    "sockets connecting_example (Suc 0) = Some ?sk"
    "settled connecting_example = []"
    "ws connecting_example = Some 1"
    "connectPromise connecting_example = Some 0"
    "\<not> isConnected connecting_example"
    unfolding connecting_example_def by (simp_all add: sdk_defs)
  have wc: "wired connecting_example"
    using first by (simp add: connecting_example_def)
  note second = connect_handshake [of connecting_example 0 "[]" example_parse 1 ?sk
      _ _ 2 10000 0 1 ?sk]
  have oe: "opened_example = run example_parse [CallConnect, SocketOpen 1] ?i"
    by (simp add: opened_example_def)
  note fourth = connect_handshake [of ?i _ "[CallConnect, SocketOpen 1]" example_parse _ _ _ _ _ _ _ _ _ _
      default_config "''sdk-1''"]
  have wo: "wired opened_example" using fourth by (simp add: opened_example_def)
  have so: "silent 0 opened_example"
    by (simp add: silent_def opened_example_fields)
  have na: "\<forall>e \<in> set [TimerFires 2, SocketMessage 1 ''garbage'', Microtasks]. \<not> is_ack example_parse e"
    by (simp add: is_ack_def example_parse_def)
  have ns: "\<forall>e \<in> set [TimerFires 2, SocketMessage 1 ''garbage'', SocketClose 1].
              \<not> settles_connect example_parse 0 e"
    by (simp add: settles_connect_def is_ack_def example_parse_def)
  have io: "isConnected opened_example"
    by (simp add: isConnected_def opened_example_fields)
  note third = connect_handshake [of opened_example _
      "[TimerFires 2, SocketMessage 1 ''garbage'', Microtasks]" example_parse 1
      "\<lparr>readyState = OPEN, connectTimer = 2, connectResolver = 0, checkConnected_attached = True\<rparr>"
      \<open>''{"type":"sdk_connected"}''\<close> \<open>JObj [(''type'', JStr ''sdk_connected'')]\<close>]
  note fifth = connect_handshake [of opened_example _
      "[TimerFires 2, SocketMessage 1 ''garbage'', SocketClose 1]" example_parse _ _ _ _ _ _ _ _ _ 0]
  have o: "connect_resolutions opened_example = []" "connect_settlements 0 opened_example = []"
    by (simp_all add: connect_resolutions_def connect_settlements_def opened_example_fields)
  have nb: "\<not> is_ack example_parse (TimerFires 2)"
    "\<not> is_ack example_parse (SocketMessage 1 ''garbage'')"
    "\<not> is_ack example_parse Microtasks"
    using na by simp_all
  have nc: "\<not> settles_connect example_parse 0 (TimerFires 2)"
    "\<not> settles_connect example_parse 0 (SocketMessage 1 ''garbage'')"
    "\<not> settles_connect example_parse 0 (SocketClose 1)"
    using ns by simp_all
  have 1: "timers (snd (connect ?i)) 2 = Some \<lparr>delay = 10000, callback = ConnectTimeout 0\<rparr>"
    using c(1) by (simp add: ce)
  have 2: "connect connecting_example = (Some 0, connecting_example)"
    "settled (fireTimer 2 connecting_example) =
       [(ConnectPromise 0, Rejected (Error (JStr ''Connection timeout'')))]"
    "sockets (fireTimer 2 connecting_example) 1 =
       Some \<lparr>readyState = CLOSING, connectTimer = 2, connectResolver = 0, checkConnected_attached = True\<rparr>"
    "timers (socketEvent example_parse (SocketOpen 1) connecting_example) 2 = None"
    "silent 0 (socketEvent example_parse (SocketOpen 1) connecting_example)"
    using second c wc by simp_all
  have 3: "connect opened_example = (None, opened_example)"
    "connect_resolutions (run example_parse [TimerFires 2, SocketMessage 1 ''garbage'', Microtasks] opened_example) = []"
    \<open>connect_resolutions (socketEvent example_parse (SocketMessage 1 ''{"type":"sdk_connected"}'') opened_example) =
       [(ConnectPromise 0, Resolved JNull)]\<close>
    using third io na parse_connected by (simp_all add: o opened_example_fields)
  have 5: "connect_settlements 0
     (run example_parse [TimerFires 2, SocketMessage 1 ''garbage'', SocketClose 1] opened_example) = []"
    using fifth wo so ns by (simp add: o)
  show ?thesis using i(1,2) 1 c(5,6) 2 wc io 3 nb wo so nc 5 by simp
qed

subsection \<open>Every transition that is performed\<close>

lemma performed_simps [simp]:
  "performed a a"
  "performed a Disconnected"
  "performed a Reconnecting = (a \<noteq> Disconnected)"
  "performed a Connected"
  "performed a Connecting = (a \<noteq> Reconnecting)"
  by (cases a; simp add: performed_def spec_transitions_def stale_transitions_def)+

lemma given_up_view: "conn_view s' = conn_view s \<Longrightarrow> given_up s' = given_up s"
  by (simp add: conn_view_def given_up_def will_retry_def)

lemma given_up_new: "given_up (new_BotSDK c clientId)"
  by (simp add: given_up_def new_BotSDK_def)

lemma connect_any:
  assumes "given_up s"
  shows "performed (connectionState s) (connectionState (snd (connect s))) \<and>
         given_up (snd (connect s))"
proof (cases "\<not> isConnected s \<and> connectPromise s = None")
  case False
  then have "snd (connect s) = s" by (auto simp: connect_def split: option.splits)
  then show ?thesis using assms by simp
next
  case True
  note f = connect_fields [of s]
  show ?thesis using True by (cases "connectionState s") (simp_all add: f given_up_def)
qed

lemma disconnect_any:
  "performed (connectionState s) (connectionState (disconnect s)) \<and> given_up (disconnect s)"
  by (simp add: disconnect_fields given_up_def will_retry_def)

lemma close_any:
  assumes "given_up s"
  shows "performed (connectionState s) (connectionState (socketEvent parse (SocketClose w) s)) \<and>
         given_up (socketEvent parse (SocketClose w) s)"
proof (cases "sockets s w")
  case None
  then show ?thesis using assms by (simp add: socketEvent_def)
next
  case (Some sk)
  show ?thesis
  proof (cases "readyState sk = CLOSED")
    case True
    then show ?thesis using assms Some by (simp add: socketEvent_def)
  next
    case False
    note st = close_state [OF Some False, of parse]
    let ?c = "socketEvent parse (SocketClose w) s"
    let ?s1 = "s\<lparr>sockets := (sockets s)(w \<mapsto> sk\<lparr>readyState := CLOSED\<rparr>)\<rparr>"
    have ev: "?c = onclose ?s1" using Some False by (simp add: socketEvent_def)
    have fr: "intentionalDisconnect ?c = intentionalDisconnect s" "config ?c = config s"
      unfolding ev by (simp_all add: onclose_view) (simp add: onclose_def scheduleReconnect_def Let_def)
    have nd: "connectionState s \<noteq> Disconnected" if "will_retry s"
      using assms that Some unfolding given_up_def by auto
    have a: "performed (connectionState s) (connectionState ?c)"
      using st nd by simp
    have g: "given_up ?c"
      unfolding given_up_def using st fr by (auto simp: will_retry_def split: if_splits)
    show ?thesis using a g by simp
  qed
qed

lemma message_any:
  assumes "given_up s"
  shows "performed (connectionState s) (connectionState (socketEvent parse (SocketMessage w data) s)) \<and>
         given_up (socketEvent parse (SocketMessage w data) s)"
proof (cases "\<exists>sk. sockets s w = Some sk \<and> readyState sk = OPEN")
  case False
  then have "socketEvent parse (SocketMessage w data) s = s"
    by (auto simp: socketEvent_def split: option.splits)
  then show ?thesis using assms by simp
next
  case True
  then obtain sk where sk: "sockets s w = Some sk" "readyState sk = OPEN" by blast
  let ?s1 = "case handleMessage parse data s of Inl e \<Rightarrow> s | Inr s' \<Rightarrow> s'"
  have v: "conn_view ?s1 = conn_view s" by (rule cv_handleMessage)
  then have c1: "given_up ?s1" "connectionState ?s1 = connectionState s" "sockets ?s1 = sockets s"
    using assms given_up_view [OF v] by (simp_all add: conn_view_def)
  have ev: "socketEvent parse (SocketMessage w data) s =
      (if checkConnected_attached sk then checkConnected parse w data ?s1 else ?s1)"
    using sk c1(3) by (simp add: socketEvent_def onmessage_def Let_def)
  have cc: "performed (connectionState ?s1) (connectionState (checkConnected parse w data ?s1)) \<and>
      given_up (checkConnected parse w data ?s1)"
  proof (cases "\<exists>m. parse data = Some m \<and> field m ''type'' = Some (JStr ''sdk_connected'')")
    case False
    then have "checkConnected parse w data ?s1 = ?s1"
      by (auto simp: checkConnected_def split: option.splits json.splits)
    then show ?thesis using c1 by simp
  next
    case True
    then obtain m where "parse data = Some m" "field m ''type'' = Some (JStr ''sdk_connected'')"
      by blast
    then have "connectionState (checkConnected parse w data ?s1) = Connected"
      using checkConnected_state [of ?s1 w sk parse data m] sk c1(3) by simp
    then show ?thesis by (simp add: given_up_def)
  qed
  show ?thesis using cc c1 by (simp add: ev)
qed

lemma open_any:
  assumes "given_up s"
  shows "performed (connectionState s) (connectionState (socketEvent parse (SocketOpen w) s)) \<and>
         given_up (socketEvent parse (SocketOpen w) s)"
proof (cases "\<exists>sk. sockets s w = Some sk \<and> readyState sk = CONNECTING")
  case False
  then have "socketEvent parse (SocketOpen w) s = s"
    by (auto simp: socketEvent_def split: option.splits)
  then show ?thesis using assms by simp
next
  case True
  then obtain sk where sk: "sockets s w = Some sk" "readyState sk = CONNECTING" by blast
  let ?s1 = "s\<lparr>sockets := (sockets s)(w \<mapsto> sk\<lparr>readyState := OPEN\<rparr>)\<rparr>"
  have ev: "socketEvent parse (SocketOpen w) s = onopen w ?s1"
    using sk by (simp add: socketEvent_def)
  have f: "connectionState (onopen w ?s1) = connectionState s"
    "intentionalDisconnect (onopen w ?s1) = intentionalDisconnect s"
    "reconnectAttempt (onopen w ?s1) = reconnectAttempt s"
    "config (onopen w ?s1) = config s"
    by (simp_all add: onopen_def send_def clearTimeout_def split: option.splits)
  have "given_up (onopen w ?s1)"
    using assms sk unfolding given_up_def by (auto simp: f will_retry_def)
  then show ?thesis by (simp add: ev f)
qed

lemma error_any:
  assumes "given_up s"
  shows "performed (connectionState s) (connectionState (socketEvent parse (SocketError w) s)) \<and>
         given_up (socketEvent parse (SocketError w) s)"
proof -
  have "conn_view (socketEvent parse (SocketError w) s) = conn_view s"
    by (simp add: socketEvent_def split: option.splits)
  then show ?thesis
    using assms given_up_view [of "socketEvent parse (SocketError w) s" s]
      state_view [of "socketEvent parse (SocketError w) s" s] by simp
qed

lemma timer_any:
  assumes "given_up s"
  shows "performed (connectionState s) (connectionState (fireTimer t s)) \<and> given_up (fireTimer t s)"
proof (cases "timers s t")
  case None
  then show ?thesis using assms by (simp add: fireTimer_def)
next
  case (Some tm)
  have cv: "conn_view (clearTimeout t s) = conn_view s" by simp
  show ?thesis
  proof (cases "callback tm")
    case (ConnectTimeout p)
    let ?r = "runTimer (ConnectTimeout p) (clearTimeout t s)"
    have v: "connectionState ?r = connectionState s" "intentionalDisconnect ?r = intentionalDisconnect s"
      "reconnectAttempt ?r = reconnectAttempt s" "config ?r = config s"
      by (simp_all add: Let_def settle_def clearTimeout_def socket_close_def split: option.splits)
    have so: "sockets ?r w = None" if "sockets s w = None" for w
      using that
      by (auto simp: Let_def settle_def clearTimeout_def socket_close_def split: option.splits)
    have "given_up ?r"
      using assms so unfolding given_up_def by (auto simp: v will_retry_def simp del: runTimer.simps)
    then show ?thesis using Some ConnectTimeout by (simp add: fireTimer_def v del: runTimer.simps)
  next
    case ReconnectTimer
    have cv2: "conn_view (clearTimeout t s\<lparr>reconnectTimer := None\<rparr>) = conn_view s" by simp
    have c2: "given_up (clearTimeout t s\<lparr>reconnectTimer := None\<rparr>)"
      "connectionState (clearTimeout t s\<lparr>reconnectTimer := None\<rparr>) = connectionState s"
      using assms given_up_view [OF cv2] state_view [OF cv2] by simp_all
    show ?thesis using Some ReconnectTimer connect_any [OF c2(1)] c2(2)
      by (simp add: fireTimer_def)
  next
    case (WaitConnectionTimeout l p)
    then have "conn_view (fireTimer t s) = conn_view s" using Some by (simp add: fireTimer_def)
    then show ?thesis
      using assms given_up_view [of "fireTimer t s" s] state_view [of "fireTimer t s" s] by simp
  next
    case (ActionTimeout i f ty)
    then have "conn_view (fireTimer t s) = conn_view s" using Some by (simp add: fireTimer_def)
    then show ?thesis
      using assms given_up_view [of "fireTimer t s" s] state_view [of "fireTimer t s" s] by simp
  next
    case (WaitConditionTimeout l p)
    then have "conn_view (fireTimer t s) = conn_view s" using Some by (simp add: fireTimer_def)
    then show ?thesis
      using assms given_up_view [of "fireTimer t s" s] state_view [of "fireTimer t s" s] by simp
  next
    case (WaitStateChangeTimeout l p)
    then have "conn_view (fireTimer t s) = conn_view s" using Some by (simp add: fireTimer_def)
    then show ?thesis
      using assms given_up_view [of "fireTimer t s" s] state_view [of "fireTimer t s" s] by simp
  qed
qed

lemma drain_any:
  "given_up s \<Longrightarrow> performed a (connectionState s) \<Longrightarrow>
   performed a (connectionState (drain s)) \<and> given_up (drain s)"
  by (simp add: given_up_view [OF cv_drain] state_view [OF cv_drain])

lemma step_any:
  assumes "given_up s"
  shows "performed (connectionState s) (connectionState (step parse e s)) \<and> given_up (step parse e s)"
proof -
  have d: "given_up (drain s)" "connectionState (drain s) = connectionState s"
    using assms given_up_view [OF cv_drain, of s] state_view [OF cv_drain, of s] by simp_all
  show ?thesis
  proof (cases e)
    case CallConnect
    then show ?thesis using connect_any [OF assms] by (simp add: step_def)
  next
    case CallDisconnect
    then show ?thesis using disconnect_any [of s] by (simp add: step_def)
  next
    case (CallSendAction a i)
    then show ?thesis using assms
      by (simp add: step_def given_up_view [OF cv_sendAction] state_view [OF cv_sendAction])
  next
    case (CallWaitForConnection ms)
    then show ?thesis using assms
      by (simp add: step_def given_up_view [OF cv_waitForConnection]
          state_view [OF cv_waitForConnection])
  next
    case (CallWaitForCondition pr ms)
    then show ?thesis using assms
      by (simp add: step_def given_up_view [OF cv_calls(1)] state_view [OF cv_calls(1)])
  next
    case (CallWaitForStateChange ms)
    then show ?thesis using assms
      by (simp add: step_def given_up_view [OF cv_calls(2)] state_view [OF cv_calls(2)])
  next
    case (CallOnStateUpdate f)
    then show ?thesis using assms
      by (simp add: step_def given_up_view [OF cv_calls(3)] state_view [OF cv_calls(3)])
  next
    case (CallOnConnectionStateChange g)
    then show ?thesis using assms
      by (simp add: step_def given_up_view [OF cv_calls(4)] state_view [OF cv_calls(4)])
  next
    case Microtasks
    then show ?thesis using d by (simp add: step_def)
  next
    case (TimerFires t)
    from timer_any [OF d(1), of t] d(2)
    have "performed (connectionState s) (connectionState (fireTimer t (drain s)))"
      "given_up (fireTimer t (drain s))" by simp_all
    then show ?thesis using TimerFires drain_any by (simp add: step_def)
  next
    case (SocketOpen w)
    from open_any [OF d(1), of parse w] d(2)
    have "performed (connectionState s) (connectionState (socketEvent parse (SocketOpen w) (drain s)))"
      "given_up (socketEvent parse (SocketOpen w) (drain s))" by simp_all
    then show ?thesis using SocketOpen drain_any by (simp add: step_def)
  next
    case (SocketMessage w data)
    from message_any [OF d(1), of parse w data] d(2)
    have "performed (connectionState s) (connectionState (socketEvent parse (SocketMessage w data) (drain s)))"
      "given_up (socketEvent parse (SocketMessage w data) (drain s))" by simp_all
    then show ?thesis using SocketMessage drain_any by (simp add: step_def)
  next
    case (SocketError w)
    from error_any [OF d(1), of parse w] d(2)
    have "performed (connectionState s) (connectionState (socketEvent parse (SocketError w) (drain s)))"
      "given_up (socketEvent parse (SocketError w) (drain s))" by simp_all
    then show ?thesis using SocketError drain_any by (simp add: step_def)
  next
    case (SocketClose w)
    from close_any [OF d(1), of parse w] d(2)
    have "performed (connectionState s) (connectionState (socketEvent parse (SocketClose w) (drain s)))"
      "given_up (socketEvent parse (SocketClose w) (drain s))" by simp_all
    then show ?thesis using SocketClose drain_any by (simp add: step_def)
  qed
qed

lemma run_given_up: "given_up s \<Longrightarrow> given_up (run parse es s)"
  by (induction es arbitrary: s) (simp_all add: step_any)


text \<open>
  C4, as stated, fails. With auto-reconnect on, which is the default, a socket that
  fails or times out while the state is \<open>connecting\<close> is closed, and its close handler
  schedules a retry: the state becomes \<open>reconnecting\<close>, not \<open>disconnected\<close>, and that
  transition is not in the table. And the close handler reads nothing of the socket it
  is installed on: when the close event of a socket that \<open>disconnect\<close> dropped arrives
  only after \<open>connect\<close> was called again, it forgets the new socket, whose
  \<open>sdk_connected\<close> message then sets the state to \<open>connected\<close> all the same. The
  reconnect timer that the handler armed then leads from \<open>connected\<close> to
  \<open>connecting\<close>; and with auto-reconnect off the message leads from
  \<open>disconnected\<close> to \<open>connected\<close>. Neither transition is in the table.
\<close>

theorem handshake_failure_reconnects_counterexample:
  \<open>connectionState connecting_example = Connecting \<and>
   connectionState (run example_parse [SocketError 1, SocketClose 1] connecting_example) =
     Reconnecting \<and>
   connectionState (run example_parse [TimerFires 2, SocketClose 1] connecting_example) =
     Reconnecting \<and>
   (Connecting, Reconnecting) \<notin> spec_transitions \<and>
   connectionState
     (run example_parse
        [CallDisconnect, CallConnect, SocketOpen 4, SocketClose 1,
         SocketMessage 4 ''{"type":"sdk_connected"}''] connected_example) = Connected \<and>
   connectionState
     (run example_parse
        [CallDisconnect, CallConnect, SocketOpen 4, SocketClose 1,
         SocketMessage 4 ''{"type":"sdk_connected"}'', TimerFires 6] connected_example) = Connecting \<and>
   (Connected, Connecting) \<notin> spec_transitions \<and>
   connectionState
     (run example_parse
        [CallConnect, SocketOpen 1, SocketMessage 1 ''{"type":"sdk_connected"}'',
         CallDisconnect, CallConnect, SocketOpen 4, SocketClose 1]
        (new_BotSDK no_reconnect_config ''sdk-1'')) = Disconnected \<and>
   connectionState
     (run example_parse
        [CallConnect, SocketOpen 1, SocketMessage 1 ''{"type":"sdk_connected"}'',
         CallDisconnect, CallConnect, SocketOpen 4, SocketClose 1,
         SocketMessage 4 ''{"type":"sdk_connected"}'']
        (new_BotSDK no_reconnect_config ''sdk-1'')) = Connected \<and>
   (Disconnected, Connected) \<notin> spec_transitions\<close>
  unfolding connecting_example_def connected_example_def no_reconnect_config_def
  by (simp add: sdk_defs spec_transitions_def parse_connected)

text \<open>
  C4, amended. On every object reached from a new one, every step leaves the
  connection state as it is or makes a transition of the table of section 4.4, the
  transition from \<open>connecting\<close> to \<open>reconnecting\<close>, or one of the two transitions
  of a close event out of order. While events arrive in order, every step leaves the
  state as it is or makes a transition of the table or the one from \<open>connecting\<close> to
  \<open>reconnecting\<close>, and keeps the object coherent, as a new object is. The close
  event of a socket (after a handshake failure, after a time-out that closed the socket,
  a dropped connection, a failed retry) leads to \<open>reconnecting\<close> with the attempt
  counter incremented when auto-reconnect is on, the disconnect was not intentional and
  the counter is below \<open>reconnectMaxRetries\<close>, and to \<open>disconnected\<close> with the
  counter unchanged otherwise, so also once the counter has reached the maximum. The
  10 second timer rejects the promise of its \<open>connect\<close> call and closes the current
  socket (one that is not closed yet starts closing), and the error event of a socket
  rejects the promise of that socket; neither changes the state. An \<open>sdk_connected\<close>
  message on an open socket whose listener is attached leads to \<open>connected\<close> with the
  counter reset to zero.
\<close>

theorem connection_transitions:
  "(connectionState (step parse e (run parse es (new_BotSDK c clientId))) =
      connectionState (run parse es (new_BotSDK c clientId)) \<or>
    (connectionState (run parse es (new_BotSDK c clientId)),
     connectionState (step parse e (run parse es (new_BotSDK c clientId)))) \<in>
       insert (Connecting, Reconnecting) spec_transitions \<union> stale_transitions) \<and>
   (coherent s \<and> in_order s e \<longrightarrow>
      (connectionState (step parse e s) = connectionState s \<or>
       (connectionState s, connectionState (step parse e s)) \<in>
          insert (Connecting, Reconnecting) spec_transitions) \<and>
      coherent (step parse e s)) \<and>
   coherent (new_BotSDK c clientId) \<and>
   (sockets s w = Some sk \<and> readyState sk \<noteq> CLOSED \<longrightarrow>
      connectionState (socketEvent parse (SocketClose w) s) =
        (if will_retry s then Reconnecting else Disconnected) \<and>
      reconnectAttempt (socketEvent parse (SocketClose w) s) =
        (if will_retry s then reconnectAttempt s + 1 else reconnectAttempt s)) \<and>
   (timers s t = Some \<lparr>delay = d, callback = ConnectTimeout p\<rparr> \<longrightarrow>
      connectionState (fireTimer t s) = connectionState s \<and>
      settled (fireTimer t s) =
        settled s @ [(ConnectPromise p, Rejected (Error (JStr ''Connection timeout'')))] \<and>
      (ws s = Some w \<and> sockets s w = Some sk \<longrightarrow>
         sockets (fireTimer t s) w =
           Some (if readyState sk = CLOSED then sk else sk\<lparr>readyState := CLOSING\<rparr>))) \<and>
   (sockets s w = Some sk \<and> readyState sk \<noteq> CLOSED \<longrightarrow>
      connectionState (socketEvent parse (SocketError w) s) = connectionState s \<and>
      settled (socketEvent parse (SocketError w) s) =
        settled s @ [(ConnectPromise (connectResolver sk), Rejected (Error (JStr ''WebSocket error'')))]) \<and>
   (sockets s w = Some sk \<and> readyState sk = OPEN \<and> checkConnected_attached sk \<and>
    parse data = Some m \<and> field m ''type'' = Some (JStr ''sdk_connected'') \<longrightarrow>
      connectionState (socketEvent parse (SocketMessage w data) s) = Connected \<and>
      reconnectAttempt (socketEvent parse (SocketMessage w data) s) = 0)"
proof -
  let ?r = "run parse es (new_BotSDK c clientId)"
  have g: "given_up ?r" by (rule run_given_up [OF given_up_new])
  have R: "connectionState (step parse e ?r) = connectionState ?r \<or>
    (connectionState ?r, connectionState (step parse e ?r)) \<in>
       insert (Connecting, Reconnecting) spec_transitions \<union> stale_transitions"
    using step_any [OF g, of parse e] unfolding performed_def by blast
  have A: "(connectionState (step parse e s) = connectionState s \<or>
       (connectionState s, connectionState (step parse e s)) \<in>
          insert (Connecting, Reconnecting) spec_transitions) \<and>
      coherent (step parse e s)"
    if "coherent s \<and> in_order s e"
    using step_ok [of s e parse] that unfolding allowed_def by blast
  have T: "connectionState (fireTimer t s) = connectionState s \<and>
      settled (fireTimer t s) =
        settled s @ [(ConnectPromise p, Rejected (Error (JStr ''Connection timeout'')))] \<and>
      (ws s = Some w \<and> sockets s w = Some sk \<longrightarrow>
         sockets (fireTimer t s) w =
           Some (if readyState sk = CLOSED then sk else sk\<lparr>readyState := CLOSING\<rparr>))"
    if h: "timers s t = Some \<lparr>delay = d, callback = ConnectTimeout p\<rparr>"
    using connectTimeout_fires(1,2) [OF h] connectTimeout_fires(3) [OF h, of w sk] by blast
  have E: "connectionState (socketEvent parse (SocketError w) s) = connectionState s \<and>
      settled (socketEvent parse (SocketError w) s) =
        settled s @ [(ConnectPromise (connectResolver sk), Rejected (Error (JStr ''WebSocket error'')))]"
    if "sockets s w = Some sk \<and> readyState sk \<noteq> CLOSED"
    using that by (simp add: socketEvent_def onerror_def settle_def clearTimeout_def)
  show ?thesis using R A coherent_new close_state ack_state T E by blast
qed


theorem connection_transitions_witness:
  "coherent connecting_example \<and> in_order connecting_example (SocketClose 1) \<and>
   connectionState connecting_example = Connecting \<and>
   connectionState (step example_parse (SocketClose 1) connecting_example) = Reconnecting \<and>
   coherent (step example_parse (SocketClose 1) connecting_example) \<and>
   will_retry connecting_example \<and>
   connectionState (socketEvent example_parse (SocketClose 1) connecting_example) = Reconnecting \<and>
   reconnectAttempt (socketEvent example_parse (SocketClose 1) connecting_example) = 1 \<and>
   timers connecting_example 2 = Some \<lparr>delay = 10000, callback = ConnectTimeout 0\<rparr> \<and>
   connectionState (fireTimer 2 connecting_example) = Connecting \<and>
   settled (fireTimer 2 connecting_example) =
     [(ConnectPromise 0, Rejected (Error (JStr ''Connection timeout'')))] \<and>
   sockets (fireTimer 2 connecting_example) 1 =
     Some \<lparr>readyState = CLOSING, connectTimer = 2, connectResolver = 0, checkConnected_attached = True\<rparr> \<and>
   connectionState (socketEvent example_parse (SocketError 1) connecting_example) = Connecting \<and>
   settled (socketEvent example_parse (SocketError 1) connecting_example) =
     [(ConnectPromise 0, Rejected (Error (JStr ''WebSocket error'')))]"
proof -
  let ?i = "new_BotSDK default_config ''sdk-1''"
  let ?sk = "\<lparr>readyState = CONNECTING, connectTimer = 2, connectResolver = 0, checkConnected_attached = True\<rparr>"
  have io: "in_order ?i CallConnect" by (simp add: in_order_def)
  have c0: "coherent (step example_parse CallConnect ?i)"
    using connection_transitions [where s = ?i and e = CallConnect and parse = example_parse
        and c = default_config and clientId = "''sdk-1''"] io
    by simp
  have ce: "connecting_example = step example_parse CallConnect ?i"
    by (simp add: connecting_example_def)
  have c: "coherent connecting_example" using c0 by (simp add: ce)
  have o: "in_order connecting_example (SocketClose 1)"
    by (simp add: in_order_def connecting_example_fields)
  have wr: "will_retry connecting_example"
    by (simp add: will_retry_def connecting_example_fields fill_config_def default_config_def
        nullish_default_def retries_exhausted_def)
  have st: "connectionState (step example_parse (SocketClose 1) connecting_example) = Reconnecting"
    unfolding connecting_example_def by (simp add: sdk_defs)
  have tm: "timers connecting_example 2 = Some \<lparr>delay = 10000, callback = ConnectTimeout 0\<rparr>"
    "settled connecting_example = []"
    unfolding connecting_example_def by (simp_all add: sdk_defs)
  note inst = connection_transitions [where s = connecting_example and e = "SocketClose 1"
      and parse = example_parse and w = 1 and sk = ?sk and t = 2 and d = 10000 and p = 0]
  show ?thesis using inst c o wr st tm by (simp add: connecting_example_fields)
qed

end
